(* ===== verification/Cvbd_Prelude.thy ===== *)
theory Cvbd_Prelude
  imports Main "HOL-Library.Word" "HOL-Library.Monad_Syntax"
begin

text \<open>
  Shared vocabulary of the development: machine types, byte-addressed buffers with little-endian
  fields and \<open>memcpy\<close>, C strings, and the outcomes of a C or C++ call (a value, a thrown
  exception, a failed \<open>assert\<close>, undefined behaviour, a call that never returns) with the command
  combinators that sequence such calls over an explicit state.
\<close>

named_theorems cmd_simps \<open>equations that run a command on a state\<close>
named_theorems mem_simps \<open>reads of a buffer after writes to it\<close>
named_theorems size_defs \<open>the numeric constants of the message layout\<close>

section \<open>Machine types\<close>

type_synonym byte = "8 word"
type_synonym u32 = "32 word"
type_synonym u64 = "64 word"

text \<open>A buffer in memory: the byte at each offset from its start.\<close>

type_synonym mem = "nat \<Rightarrow> byte"

section \<open>Outcomes and commands\<close>

text \<open>The exceptions the code can see: Boost's \<open>interprocess_exception\<close>, \<open>std::bad_alloc\<close>.\<close>

datatype exn = Interprocess_exception | Bad_alloc

text \<open>
  The ways a call can fail to return normally: it throws, an \<open>assert\<close> fails, its behaviour is
  undefined (a null or dangling pointer, an access outside an object), or it blocks for ever.
\<close>

datatype failure = Throw exn | Abort | Undef | Hang

datatype 'a outcome = Ret 'a | Fail failure

type_synonym ('s, 'a) cmd = "'s \<Rightarrow> 'a outcome \<times> 's"

definition ret :: "'a \<Rightarrow> ('s, 'a) cmd" where
  "ret x = (\<lambda>s. (Ret x, s))"

definition fail :: "failure \<Rightarrow> ('s, 'a) cmd" where
  "fail e = (\<lambda>s. (Fail e, s))"

definition cbind :: "('s, 'a) cmd \<Rightarrow> ('a \<Rightarrow> ('s, 'b) cmd) \<Rightarrow> ('s, 'b) cmd" where
  "cbind m f = (\<lambda>s. case m s of (Ret x, t) \<Rightarrow> f x t | (Fail e, t) \<Rightarrow> (Fail e, t))"

definition assert :: "bool \<Rightarrow> ('s, unit) cmd" where
  "assert b = (if b then ret () else fail Abort)"

definition defined :: "bool \<Rightarrow> ('s, unit) cmd" where
  "defined b = (if b then ret () else fail Undef)"

definition gets :: "('s \<Rightarrow> 'a) \<Rightarrow> ('s, 'a) cmd" where
  "gets f = (\<lambda>s. (Ret (f s), s))"

definition modify :: "('s \<Rightarrow> 's) \<Rightarrow> ('s, unit) cmd" where
  "modify f = (\<lambda>s. (Ret (), f s))"

text \<open>\<open>try { m } catch (...) { h }\<close>: only a thrown exception reaches the handler.\<close>

definition catch_all :: "('s, 'a) cmd \<Rightarrow> ('s, 'a) cmd \<Rightarrow> ('s, 'a) cmd" where
  "catch_all m h = (\<lambda>s. case m s of (Fail (Throw e), t) \<Rightarrow> h t | r \<Rightarrow> r)"

text \<open>Run a command on a component of the state.\<close>

definition zoom :: "('t \<Rightarrow> 's) \<Rightarrow> ('s \<Rightarrow> 't \<Rightarrow> 't) \<Rightarrow> ('s, 'a) cmd \<Rightarrow> ('t, 'a) cmd" where
  "zoom get put m = (\<lambda>t. case m (get t) of (r, s) \<Rightarrow> (r, put s t))"

lemma ret_run [cmd_simps]: "ret x s = (Ret x, s)"
  and fail_run [cmd_simps]: "fail e s = (Fail e, s)"
  and gets_run [cmd_simps]: "gets f s = (Ret (f s), s)"
  and modify_run [cmd_simps]: "modify g s = (Ret (), g s)"
  by (simp_all add: ret_def fail_def gets_def modify_def)

lemma assert_run [cmd_simps]: "assert b s = (if b then (Ret (), s) else (Fail Abort, s))"
  and defined_run [cmd_simps]: "defined b s = (if b then (Ret (), s) else (Fail Undef, s))"
  by (simp_all add: assert_def defined_def ret_def fail_def)

lemma cbind_run [cmd_simps]:
  "cbind m f s = (case m s of (Ret x, t) \<Rightarrow> f x t | (Fail e, t) \<Rightarrow> (Fail e, t))"
  by (simp add: cbind_def)

lemma catch_all_run [cmd_simps]:
  "catch_all m h s = (case m s of (Fail (Throw e), t) \<Rightarrow> h t | r \<Rightarrow> r)"
  by (simp add: catch_all_def)

lemma zoom_run [cmd_simps]: "zoom get put m t = (case m (get t) of (r, s) \<Rightarrow> (r, put s t))"
  by (simp add: zoom_def)

text \<open>The combinators form a monad; sequencing is associative, so a body may be split anywhere.\<close>

lemma cbind_ret_left [simp]: "cbind (ret x) f = f x"
  by (simp add: cbind_def ret_def)

lemma cbind_fail [simp]: "cbind (fail e) f = fail e"
  by (simp add: cbind_def fail_def)

lemma cbind_assoc: "cbind (cbind m f) g = cbind m (\<lambda>x. cbind (f x) g)"
  by (rule ext) (auto simp: cbind_def split: prod.splits outcome.splits)

lemma cbind_RetI: "m s = (Ret x, t) \<Longrightarrow> cbind m f s = f x t"
  by (simp add: cbind_def)

lemma cbind_FailI: "m s = (Fail e, t) \<Longrightarrow> cbind m f s = (Fail e, t)"
  by (simp add: cbind_def)

lemma cbind_RetE:
  assumes "cbind m f s = (Ret y, u)"
  obtains x t where "m s = (Ret x, t)" and "f x t = (Ret y, u)"
  using assms by (auto simp: cbind_def split: prod.splits outcome.splits)

text \<open>
  A predicate kept by a command whatever its outcome. It composes, so that an invariant of a long
  body follows from the invariants of its calls.
\<close>

definition keeps :: "('s \<Rightarrow> bool) \<Rightarrow> ('s, 'a) cmd \<Rightarrow> bool" where
  "keeps P m \<longleftrightarrow> (\<forall>s. P s \<longrightarrow> P (snd (m s)))"

named_theorems keeps_intros \<open>commands that keep an invariant\<close>

lemma keepsI: "(\<And>s r t. P s \<Longrightarrow> m s = (r, t) \<Longrightarrow> P t) \<Longrightarrow> keeps P m"
  by (auto simp: keeps_def) (metis prod.collapse)

lemma keepsD: "keeps P m \<Longrightarrow> P s \<Longrightarrow> m s = (r, t) \<Longrightarrow> P t"
  by (metis keeps_def snd_conv)

lemma keeps_ret [keeps_intros]: "keeps P (ret x)"
  and keeps_fail [keeps_intros]: "keeps P (fail e)"
  and keeps_gets [keeps_intros]: "keeps P (gets f)"
  and keeps_assert [keeps_intros]: "keeps P (assert b)"
  and keeps_defined [keeps_intros]: "keeps P (defined b)"
  by (simp_all add: keeps_def cmd_simps)

lemma keeps_modify [keeps_intros]: "(\<And>s. P s \<Longrightarrow> P (f s)) \<Longrightarrow> keeps P (modify f)"
  by (simp add: keeps_def cmd_simps)

lemma keeps_cbind [keeps_intros]: "keeps P m \<Longrightarrow> (\<And>x. keeps P (f x)) \<Longrightarrow> keeps P (cbind m f)"
  by (auto simp: keeps_def cmd_simps split: prod.splits outcome.splits)

lemma keeps_if [keeps_intros]: "(b \<Longrightarrow> keeps P m) \<Longrightarrow> (\<not> b \<Longrightarrow> keeps P n) \<Longrightarrow> keeps P (if b then m else n)"
  by simp

section \<open>Buffers\<close>

text \<open>\<open>memcpy (dst + d, src + s, n)\<close>.\<close>

definition memcpy :: "mem \<Rightarrow> nat \<Rightarrow> mem \<Rightarrow> nat \<Rightarrow> nat \<Rightarrow> mem" where
  "memcpy dst d src s n = (\<lambda>i. if d \<le> i \<and> i < d + n then src (s + (i - d)) else dst i)"

lemma memcpy_inside [mem_simps]: "d \<le> i \<Longrightarrow> i < d + n \<Longrightarrow> memcpy dst d src s n i = src (s + (i - d))"
  and memcpy_outside [mem_simps]: "i < d \<or> d + n \<le> i \<Longrightarrow> memcpy dst d src s n i = dst i"
  by (auto simp: memcpy_def)

lemma memcpy_zero [simp]: "memcpy dst d src s 0 = dst"
  by (rule ext) (auto simp: memcpy_def)

lemma memcpy_cong:
  assumes "\<And>i. i < n \<Longrightarrow> src (s + i) = src' (s' + i)"
  shows "memcpy dst d src s n = memcpy dst d src' s' n"
proof
  show "memcpy dst d src s n i = memcpy dst d src' s' n i" for i
    using assms [of "i - d"] by (cases "d \<le> i \<and> i < d + n") (auto simp: memcpy_def)
qed

text \<open>Two copies that continue one another are one copy.\<close>

lemma memcpy_append:
  "memcpy (memcpy dst d src s m) (d + m) src (s + m) n = memcpy dst d src s (m + n)"
  by (rule ext) (auto simp: memcpy_def)

text \<open>An unsigned little-endian field of \<open>k\<close> bytes at offset \<open>a\<close>.\<close>

definition put_le :: "nat \<Rightarrow> mem \<Rightarrow> nat \<Rightarrow> nat \<Rightarrow> mem" where
  "put_le k m a v = (\<lambda>i. if a \<le> i \<and> i < a + k then word_of_nat (v div 256 ^ (i - a)) else m i)"

primrec get_le :: "nat \<Rightarrow> mem \<Rightarrow> nat \<Rightarrow> nat" where
  "get_le 0 m a = 0"
| "get_le (Suc k) m a = unat (m a) + 256 * get_le k m (Suc a)"

lemma get_le_cong: "(\<And>i. a \<le> i \<Longrightarrow> i < a + k \<Longrightarrow> m i = m' i) \<Longrightarrow> get_le k m a = get_le k m' a"
  by (induction k arbitrary: a) auto

lemma get_le_bound: "get_le k m a < 256 ^ k"
proof (induction k arbitrary: a)
  case (Suc k)
  have "unat (m a) < 256" using unsigned_less [of "m a"] by simp
  with Suc [of "Suc a"] show ?case by simp
qed simp

lemma get_le_zero [simp]: "get_le k (\<lambda>_. 0) a = 0"
  by (induction k arbitrary: a) simp_all

lemma get_put_le: "get_le k (put_le k m a v) a = v mod 256 ^ k"
proof (induction k arbitrary: m a v)
  case (Suc k)
  have tail: "get_le k (put_le (Suc k) m a v) (Suc a) = get_le k (put_le k m (Suc a) (v div 256)) (Suc a)"
    by (rule get_le_cong)
      (auto simp: put_le_def Suc_diff_le div_mult2_eq simp flip: power_Suc,
       metis Suc_diff_Suc Suc_le_lessD div_mult2_eq power_Suc)
  have "v mod (256 * 256 ^ k) = v mod 256 + 256 * (v div 256 mod 256 ^ k)"
    by (simp add: mod_mult2_eq)
  moreover have "unat (put_le (Suc k) m a v a) = v mod 256"
    by (simp add: put_le_def unsigned_of_nat take_bit_eq_mod)
  ultimately show ?case by (simp add: tail Suc)
qed simp

definition put64 :: "mem \<Rightarrow> nat \<Rightarrow> u64 \<Rightarrow> mem" where
  "put64 m a v = put_le 8 m a (unat v)"

definition get64 :: "mem \<Rightarrow> nat \<Rightarrow> u64" where
  "get64 m a = word_of_nat (get_le 8 m a)"

definition put32 :: "mem \<Rightarrow> nat \<Rightarrow> u32 \<Rightarrow> mem" where
  "put32 m a v = put_le 4 m a (unat v)"

definition get32 :: "mem \<Rightarrow> nat \<Rightarrow> u32" where
  "get32 m a = word_of_nat (get_le 4 m a)"

lemma get64_cong: "(\<And>i. a \<le> i \<Longrightarrow> i < a + 8 \<Longrightarrow> m i = m' i) \<Longrightarrow> get64 m a = get64 m' a"
  unfolding get64_def by (rule arg_cong [of _ _ word_of_nat]) (rule get_le_cong, simp)

lemma get32_cong: "(\<And>i. a \<le> i \<Longrightarrow> i < a + 4 \<Longrightarrow> m i = m' i) \<Longrightarrow> get32 m a = get32 m' a"
  unfolding get32_def by (rule arg_cong [of _ _ word_of_nat]) (rule get_le_cong, simp)

lemma get64_put64 [mem_simps]: "get64 (put64 m a v) a = v"
proof -
  have "unat v < 256 ^ 8" using unsigned_less [of v] by simp
  then show ?thesis by (simp add: get64_def put64_def get_put_le)
qed

lemma get32_put32 [mem_simps]: "get32 (put32 m a v) a = v"
proof -
  have "unat v < 256 ^ 4" using unsigned_less [of v] by simp
  then show ?thesis by (simp add: get32_def put32_def get_put_le)
qed

lemma put64_other [mem_simps]: "i < a \<or> a + 8 \<le> i \<Longrightarrow> put64 m a v i = m i"
  and put32_other [mem_simps]: "i < a \<or> a + 4 \<le> i \<Longrightarrow> put32 m a w i = m i"
  by (auto simp: put64_def put32_def put_le_def)

lemma get64_put64_other [mem_simps]: "a + 8 \<le> b \<or> b + 8 \<le> a \<Longrightarrow> get64 (put64 m b v) a = get64 m a"
  and get64_put32_other [mem_simps]: "a + 8 \<le> b \<or> b + 4 \<le> a \<Longrightarrow> get64 (put32 m b w) a = get64 m a"
  and get64_memcpy_other [mem_simps]: "a + 8 \<le> d \<or> d + n \<le> a \<Longrightarrow> get64 (memcpy m d src s n) a = get64 m a"
  by (rule get64_cong, auto simp: mem_simps)+

lemma get32_put64_other [mem_simps]: "a + 4 \<le> b \<or> b + 8 \<le> a \<Longrightarrow> get32 (put64 m b v) a = get32 m a"
  and get32_put32_other [mem_simps]: "a + 4 \<le> b \<or> b + 4 \<le> a \<Longrightarrow> get32 (put32 m b w) a = get32 m a"
  and get32_memcpy_other [mem_simps]: "a + 4 \<le> d \<or> d + n \<le> a \<Longrightarrow> get32 (memcpy m d src s n) a = get32 m a"
  by (rule get32_cong, auto simp: mem_simps)+

text \<open>A field read inside a copied range is the field of the source.\<close>

lemma get_le_memcpy_inside:
  "d \<le> a \<Longrightarrow> a + k \<le> d + n \<Longrightarrow> get_le k (memcpy m d src s n) a = get_le k src (s + (a - d))"
proof (induction k arbitrary: a)
  case (Suc k)
  then have "get_le k (memcpy m d src s n) (Suc a) = get_le k src (s + (Suc a - d))" by simp
  with Suc.prems show ?case by (simp add: memcpy_inside Suc_diff_le)
qed simp

lemma get64_memcpy_inside [mem_simps]:
  "d \<le> a \<Longrightarrow> a + 8 \<le> d + n \<Longrightarrow> get64 (memcpy m d src s n) a = get64 src (s + (a - d))"
  by (simp add: get64_def get_le_memcpy_inside)

lemma get32_memcpy_inside [mem_simps]:
  "d \<le> a \<Longrightarrow> a + 4 \<le> d + n \<Longrightarrow> get32 (memcpy m d src s n) a = get32 src (s + (a - d))"
  by (simp add: get32_def get_le_memcpy_inside)

section \<open>C strings\<close>

definition byte_of_char :: "char \<Rightarrow> byte" where
  "byte_of_char c = word_of_nat (of_char c)"

definition char_of_byte :: "byte \<Rightarrow> char" where
  "char_of_byte b = char_of (unat b)"

lemma char_of_byte_of_char [simp]: "char_of_byte (byte_of_char c) = c"
proof -
  have "(of_char c :: nat) mod 256 = of_char c"
    by (simp add: of_char_mod_256)
  then show ?thesis
    by (simp add: char_of_byte_def byte_of_char_def unsigned_of_nat take_bit_eq_mod)
qed

text \<open>
  The characters of a C string at offset \<open>a\<close>, up to its NUL, where the storage ends \<open>n\<close> bytes
  further: \<open>None\<close> when no NUL is found in it, which reads outside the object.
\<close>

fun cstr :: "mem \<Rightarrow> nat \<Rightarrow> nat \<Rightarrow> string option" where
  "cstr m a 0 = None"
| "cstr m a (Suc n) = (if m a = 0 then Some [] else map_option (Cons (char_of_byte (m a))) (cstr m (Suc a) n))"

text \<open>The bytes of a string, as \<open>c_str ()\<close> gives them: its characters, then NUL.\<close>

definition c_str :: "string \<Rightarrow> mem" where
  "c_str xs = (\<lambda>i. if i < length xs then byte_of_char (xs ! i) else 0)"

text \<open>A string that \<open>c_str\<close> represents: no NUL among its characters.\<close>

definition nul_free :: "string \<Rightarrow> bool" where
  "nul_free xs \<longleftrightarrow> (\<forall>c \<in> set xs. byte_of_char c \<noteq> 0)"

lemma cstr_of_bytes:
  assumes "nul_free xs" and "length xs < n"
    and "\<And>i. i < length xs \<Longrightarrow> m (a + i) = byte_of_char (xs ! i)" and "m (a + length xs) = 0"
  shows "cstr m a n = Some xs"
  using assms
proof (induction xs arbitrary: a n)
  case Nil
  then show ?case by (cases n) auto
next
  case (Cons x xs)
  obtain k where n: "n = Suc k" using Cons.prems(2) by (cases n) auto
  have "cstr m (Suc a) k = Some xs"
  proof (rule Cons.IH)
    show "m (Suc a + i) = byte_of_char (xs ! i)" if "i < length xs" for i
      using Cons.prems(3) [of "Suc i"] that by simp
  qed (use Cons.prems n in \<open>auto simp: nul_free_def\<close>)
  moreover have "m a = byte_of_char x" using Cons.prems(3) [of 0] by simp
  ultimately show ?case using Cons.prems(1) by (simp add: n nul_free_def)
qed

end
