(* ===== verification/Wire_Format.thy ===== *)
theory Wire_Format
  imports Cvbd_Prelude
begin

text \<open>
  The messages of \<open>src/SharedMemShared.h\<close>: the constants, the request types, the header every
  message starts with, the six request structs of the union \<open>Request\<close> and the four reply structs
  of the union \<open>Reply\<close>. A message is a byte buffer, as the code shares one allocation among all
  structs of a union; a struct field is a little-endian field at the offset the x86-64 ABI gives
  it. The lemmas show that fields do not overlap, that every struct fits its union and that what
  an \<open>init\<close> writes is read back.
\<close>

section \<open>Constants\<close>

definition vd_request_mq_name_format :: string where
  "vd_request_mq_name_format = ''##equest_mq_''"

definition max_queue_num :: u64 where
  "max_queue_num = 1"

definition max_queue_size :: nat where
  "max_queue_size = 32"

definition max_sectors_write :: nat where
  "max_sectors_write = 128"

text \<open>\<open>WriteRequest::max_data_size\<close>, \<open>ReadRequest::max_data_size\<close> and \<open>ReadReply::max_data_size\<close>.\<close>

definition max_data_size :: nat where
  "max_data_size = 4096 * max_sectors_write"

text \<open>\<open>PATH_MAX\<close> of \<open>limits.h\<close>.\<close>

definition path_max :: nat where
  "path_max = 4096"

section \<open>The header\<close>

datatype RequestType =
  REQ_UNKNOW | REQ_READ | REQ_WRITE | REQ_OPEN | REQ_CLOSE | REQ_GETSIZE | REQ_FSYNC

text \<open>The values the C++ enumeration gives its members.\<close>

primrec type_code :: "RequestType \<Rightarrow> u32" where
  "type_code REQ_UNKNOW = 0"
| "type_code REQ_READ = 1"
| "type_code REQ_WRITE = 2"
| "type_code REQ_OPEN = 3"
| "type_code REQ_CLOSE = 4"
| "type_code REQ_GETSIZE = 5"
| "type_code REQ_FSYNC = 6"

lemma type_code_inject [simp]: "type_code a = type_code b \<longleftrightarrow> a = b"
  by (cases a; cases b) simp_all

text \<open>
  The members ordered by their values, so that the library's order and finiteness facts apply to
  them.
\<close>

instantiation RequestType :: linorder
begin

definition less_eq_RequestType :: "RequestType \<Rightarrow> RequestType \<Rightarrow> bool" where
  "less_eq_RequestType a b \<longleftrightarrow> type_code a \<le> type_code b"

definition less_RequestType :: "RequestType \<Rightarrow> RequestType \<Rightarrow> bool" where
  "less_RequestType a b \<longleftrightarrow> type_code a < type_code b"

instance
  by standard (auto simp: less_eq_RequestType_def less_RequestType_def order.strict_iff_order)

end

text \<open>
  \<open>struct Header\<close>. The member \<open>type\<close> is kept as the 32 bits in memory: a received header can
  hold a value that is no member of the enumeration.
\<close>

record Header =
  h_stop :: bool
  h_type :: u32
  h_id :: u64
  h_volume :: u64
  h_acb :: u64

text \<open>The default constructor and the one with five arguments.\<close>

definition Header_default :: Header where
  "Header_default = \<lparr>h_stop = False, h_type = type_code REQ_UNKNOW, h_id = 0, h_volume = 0, h_acb = 0\<rparr>"

definition Header_make :: "bool \<Rightarrow> RequestType \<Rightarrow> u64 \<Rightarrow> u64 \<Rightarrow> u64 \<Rightarrow> Header" where
  "Header_make stop type mid volume acb =
     \<lparr>h_stop = stop, h_type = type_code type, h_id = mid, h_volume = volume, h_acb = acb\<rparr>"

text \<open>\<open>Header::init\<close> copies the five members of its argument.\<close>

definition Header_init :: "Header \<Rightarrow> Header \<Rightarrow> Header" where
  "Header_init this h =
     this\<lparr>h_stop := h_stop h, h_type := h_type h, h_id := h_id h, h_volume := h_volume h, h_acb := h_acb h\<rparr>"

text \<open>
  Layout: \<open>stop\<close> at 0, \<open>type\<close> at 4, \<open>id_\<close> at 8, \<open>volume\<close> at 16, \<open>acb\<close> at 24, 32 bytes in all.
\<close>

definition header_size :: nat where
  "header_size = 32"

definition put_header :: "mem \<Rightarrow> Header \<Rightarrow> mem" where
  "put_header m h =
     put64 (put64 (put64 (put32 (m(0 := of_bool (h_stop h))) 4 (h_type h))
       8 (h_id h)) 16 (h_volume h)) 24 (h_acb h)"

definition get_header :: "mem \<Rightarrow> Header" where
  "get_header m =
     \<lparr>h_stop = (m 0 \<noteq> 0), h_type = get32 m 4, h_id = get64 m 8, h_volume = get64 m 16, h_acb = get64 m 24\<rparr>"

lemma get32_upd_other [mem_simps]: "i < a \<or> a + 4 \<le> i \<Longrightarrow> get32 (m(i := b)) a = get32 m a"
  and get64_upd_other [mem_simps]: "i < a \<or> a + 8 \<le> i \<Longrightarrow> get64 (m(i := b)) a = get64 m a"
  by (rule get32_cong get64_cong, auto)+

lemma get_put_header [mem_simps]: "get_header (put_header m h) = h"
  by (simp add: get_header_def put_header_def mem_simps)

lemma put_header_other [mem_simps]: "header_size \<le> i \<Longrightarrow> put_header m h i = m i"
  by (simp add: put_header_def header_size_def mem_simps)

lemma get64_put_header [mem_simps]: "header_size \<le> a \<Longrightarrow> get64 (put_header m h) a = get64 m a"
  and get32_put_header [mem_simps]: "header_size \<le> a \<Longrightarrow> get32 (put_header m h) a = get32 m a"
  by (rule get64_cong get32_cong, simp add: put_header_other)+

lemma get_header_cong: "(\<And>i. i < header_size \<Longrightarrow> m i = m' i) \<Longrightarrow> get_header m = get_header m'"
  by (auto simp: get_header_def header_size_def intro!: get64_cong get32_cong)

lemma get_header_put64 [mem_simps]: "header_size \<le> a \<Longrightarrow> get_header (put64 m a v) = get_header m"
  and get_header_put32 [mem_simps]: "header_size \<le> a \<Longrightarrow> get_header (put32 m a w) = get_header m"
  and get_header_memcpy [mem_simps]: "header_size \<le> d \<Longrightarrow> get_header (memcpy m d src s n) = get_header m"
  by (rule get_header_cong, simp add: mem_simps)+

lemma get_header_memcpy_all [mem_simps]:
  "header_size \<le> n \<Longrightarrow> get_header (memcpy m 0 src 0 n) = get_header src"
  by (rule get_header_cong) (simp add: mem_simps)

lemma Header_init_eq: "Header_init this h = h"
  by (simp add: Header_init_def)

section \<open>Requests\<close>

text \<open>
  \<open>WriteRequest\<close> and \<open>ReadRequest\<close> start alike: \<open>offset\<close> at 32 and \<open>size_in_bytes\<close> at 40, both
  written by \<open>init\<close>; the \<open>data\<close> of a \<open>WriteRequest\<close> is at 48. \<open>OpenRequest\<close> holds
  \<open>volume_name\<close> at 32 and \<open>reply_mq_name\<close> at 32 + PATH_MAX.
\<close>

definition WriteRequest_init :: "mem \<Rightarrow> u64 \<Rightarrow> u64 \<Rightarrow> mem" where
  "WriteRequest_init m offset size_in_bytes = put64 (put64 m 32 offset) 40 size_in_bytes"

definition ReadRequest_init :: "mem \<Rightarrow> u64 \<Rightarrow> u64 \<Rightarrow> mem" where
  "ReadRequest_init m offset size_in_bytes = put64 (put64 m 32 offset) 40 size_in_bytes"

definition req_offset :: "mem \<Rightarrow> u64" where
  "req_offset m = get64 m 32"

definition req_size :: "mem \<Rightarrow> u64" where
  "req_size m = get64 m 40"

definition write_data_at :: nat where
  "write_data_at = 48"

definition volume_name_at :: nat where
  "volume_name_at = 32"

definition reply_mq_name_at :: nat where
  "reply_mq_name_at = 32 + path_max"

text \<open>\<open>strlen\<close> of the \<open>c_str ()\<close> of a string: up to its first NUL.\<close>

definition strlen :: "string \<Rightarrow> nat" where
  "strlen xs = length (takeWhile (\<lambda>c. byte_of_char c \<noteq> 0) xs)"

text \<open>
  \<open>OpenRequest::init\<close>. Both copies take \<open>volume_name_\<close> as their source and neither copies the
  terminating NUL; a name longer than the member is written outside it.
\<close>

definition OpenRequest_init :: "mem \<Rightarrow> string \<Rightarrow> string \<Rightarrow> ('s, mem) cmd" where
  "OpenRequest_init m volume_name reply_mq_name =
     cbind (defined (strlen volume_name \<le> path_max)) (\<lambda>_.
     ret (memcpy (memcpy m volume_name_at (c_str volume_name) 0 (strlen volume_name))
            reply_mq_name_at (c_str volume_name) 0 (strlen volume_name)))"

definition writerequest_size :: nat where
  "writerequest_size = header_size + 8 + 8 + max_data_size"

definition readrequest_size :: nat where
  "readrequest_size = header_size + 8 + 8"

definition openrequest_size :: nat where
  "openrequest_size = header_size + path_max + path_max"

definition closerequest_size :: nat where
  "closerequest_size = header_size"

definition getsizerequest_size :: nat where
  "getsizerequest_size = header_size"

definition fsyncrequest_size :: nat where
  "fsyncrequest_size = header_size"

text \<open>The size of the union \<open>Request\<close> is that of its largest member.\<close>

definition request_size :: nat where
  "request_size =
     foldr max [writerequest_size, readrequest_size, openrequest_size, closerequest_size,
       getsizerequest_size, fsyncrequest_size] 0"

section \<open>Replies\<close>

text \<open>
  \<open>ReadReply\<close>: \<open>size_in_bytes\<close> at 32, \<open>data\<close> at 40. \<open>OpenReply\<close>: \<open>volume\<close> at 32, \<open>err\<close> at 40.
  \<open>GetSizeReply\<close>: \<open>size_in_bytes\<close> at 32. \<open>FsyncReply\<close>: \<open>err\<close> at 32. The two structs that end
  in an \<open>int\<close> are padded to their 8-byte alignment.
\<close>

definition read_data_at :: nat where
  "read_data_at = 40"

definition readreply_size :: nat where
  "readreply_size = header_size + 8 + max_data_size"

definition openreply_size :: nat where
  "openreply_size = header_size + 8 + (4 + 4)"

definition getsizereply_size :: nat where
  "getsizereply_size = header_size + 8"

definition fsyncreply_size :: nat where
  "fsyncreply_size = header_size + (4 + 4)"

definition reply_size :: nat where
  "reply_size = foldr max [readreply_size, openreply_size, getsizereply_size, fsyncreply_size] 0"

lemmas layout_defs =
  max_queue_size_def max_sectors_write_def max_data_size_def path_max_def header_size_def
  write_data_at_def read_data_at_def volume_name_at_def reply_mq_name_at_def
  writerequest_size_def readrequest_size_def openrequest_size_def closerequest_size_def
  getsizerequest_size_def fsyncrequest_size_def
  readreply_size_def openreply_size_def getsizereply_size_def fsyncreply_size_def

lemma size_values [size_defs]:
  "header_size = 32" "max_queue_size = 32" "max_data_size = 524288" "path_max = 4096"
  "write_data_at = 48" "read_data_at = 40" "volume_name_at = 32" "reply_mq_name_at = 4128"
  "writerequest_size = 524336" "readrequest_size = 48" "openrequest_size = 8224"
  "closerequest_size = 32" "getsizerequest_size = 32" "fsyncrequest_size = 32"
  "readreply_size = 524328" "openreply_size = 48" "getsizereply_size = 40" "fsyncreply_size = 40"
  by (simp_all add: layout_defs)

lemma union_values [size_defs]: "request_size = 524336" "reply_size = 524328"
  by (simp_all add: request_size_def reply_size_def size_defs)

text \<open>Every struct the code sends fits the union its queue was created for.\<close>

lemma request_fits:
  "writerequest_size \<le> request_size" "readrequest_size \<le> request_size" "openrequest_size \<le> request_size"
  "closerequest_size \<le> request_size" "getsizerequest_size \<le> request_size" "fsyncrequest_size \<le> request_size"
  by (simp_all add: size_defs)

lemma reply_fits:
  "readreply_size \<le> reply_size" "openreply_size \<le> reply_size"
  "getsizereply_size \<le> reply_size" "fsyncreply_size \<le> reply_size"
  by (simp_all add: size_defs)

lemma strlen_nul_free: "nul_free xs \<Longrightarrow> strlen xs = length xs"
  by (simp add: strlen_def nul_free_def takeWhile_eq_all_conv [THEN iffD2])

lemma rw_init_fields [mem_simps]:
  "req_offset (WriteRequest_init m off n) = off" "req_size (WriteRequest_init m off n) = n"
  "req_offset (ReadRequest_init m off n) = off" "req_size (ReadRequest_init m off n) = n"
  "get_header (WriteRequest_init m off n) = get_header m" "get_header (ReadRequest_init m off n) = get_header m"
  by (simp_all add: WriteRequest_init_def ReadRequest_init_def req_offset_def req_size_def mem_simps size_defs)

lemma req_fields_memcpy [mem_simps]:
  "48 \<le> d \<Longrightarrow> req_offset (memcpy m d src s n) = req_offset m"
  "48 \<le> d \<Longrightarrow> req_size (memcpy m d src s n) = req_size m"
  by (simp_all add: req_offset_def req_size_def mem_simps)

lemma req_fields_memcpy_all [mem_simps]:
  "48 \<le> n \<Longrightarrow> req_offset (memcpy m 0 src 0 n) = req_offset src"
  "48 \<le> n \<Longrightarrow> req_size (memcpy m 0 src 0 n) = req_size src"
  by (simp_all add: req_offset_def req_size_def mem_simps)

section \<open>The request to open\<close>

text \<open>The buffer \<open>OpenRequest::init\<close> leaves.\<close>

definition open_request :: "mem \<Rightarrow> string \<Rightarrow> mem" where
  "open_request m nm =
     memcpy (memcpy m volume_name_at (c_str nm) 0 (strlen nm)) reply_mq_name_at (c_str nm) 0 (strlen nm)"

lemma OpenRequest_init_run:
  "strlen nm \<le> path_max \<Longrightarrow> OpenRequest_init m nm rq s = (Ret (open_request m nm), s)"
  by (simp add: OpenRequest_init_def open_request_def cmd_simps)

text \<open>The names are read back as C strings if the buffer held a zero after them.\<close>

lemma open_request_names:
  assumes nm: "nul_free nm" "length nm < path_max"
    and zero: "m (volume_name_at + length nm) = 0" "m (reply_mq_name_at + length nm) = 0"
    and req: "\<And>i. i < openrequest_size \<Longrightarrow> req i = open_request m nm i"
  shows "cstr req volume_name_at (request_size - volume_name_at) = Some nm"
    and "cstr req reply_mq_name_at (request_size - reply_mq_name_at) = Some nm"
proof -
  note len = strlen_nul_free [OF nm(1)]
  have at: "req (volume_name_at + i) = c_str nm i \<and> req (reply_mq_name_at + i) = c_str nm i" if "i < length nm" for i
    using that nm(2) by (simp add: req open_request_def len mem_simps size_defs)
  have stop: "req (volume_name_at + length nm) = 0 \<and> req (reply_mq_name_at + length nm) = 0"
    using nm(2) zero by (simp add: req open_request_def len mem_simps size_defs)
  show "cstr req volume_name_at (request_size - volume_name_at) = Some nm"
    by (rule cstr_of_bytes [OF nm(1)]) (use at stop nm(2) in \<open>auto simp: c_str_def size_defs\<close>)
  show "cstr req reply_mq_name_at (request_size - reply_mq_name_at) = Some nm"
    by (rule cstr_of_bytes [OF nm(1)]) (use at stop nm(2) in \<open>auto simp: c_str_def size_defs\<close>)
qed

text \<open>A C string that is found ends at a zero.\<close>

lemma cstr_end: "cstr m a n = Some xs \<Longrightarrow> m (a + length xs) = 0"
  by (induction m a n arbitrary: xs rule: cstr.induct) (auto split: if_splits)

section \<open>Properties\<close>

text \<open>C37. The name in a request to open is the name that was put there exactly if the message buffer
  happened to hold a zero byte behind it: \<open>OpenRequest::init\<close> copies no NUL, so what an earlier,
  longer message left there becomes part of the name the server opens.\<close>

theorem open_request_name_needs_zero:
  assumes "nul_free nm" "length nm < path_max"
  shows "cstr (open_request m nm) volume_name_at (request_size - volume_name_at) = Some nm \<longleftrightarrow>
    m (volume_name_at + length nm) = 0"
proof -
  note len = strlen_nul_free [OF assms(1)]
  have stop: "open_request m nm (volume_name_at + length nm) = m (volume_name_at + length nm)"
    using assms(2) by (simp add: open_request_def len mem_simps size_defs)
  have at: "open_request m nm (volume_name_at + i) = byte_of_char (nm ! i)" if "i < length nm" for i
    using that assms(2) by (simp add: open_request_def len mem_simps size_defs c_str_def)
  show ?thesis
  proof
    assume "m (volume_name_at + length nm) = 0"
    then show "cstr (open_request m nm) volume_name_at (request_size - volume_name_at) = Some nm"
      using assms at stop by (intro cstr_of_bytes) (auto simp: size_defs)
  qed (use cstr_end stop in fastforce)
qed

theorem open_request_name_needs_zero_witness:
  "cstr (open_request (\<lambda>_. 0) ''vol'') volume_name_at (request_size - volume_name_at) = Some ''vol'' \<and>
   cstr (open_request (\<lambda>_. 7) ''vol'') volume_name_at (request_size - volume_name_at) \<noteq> Some ''vol''"
proof -
  have nm: "nul_free ''vol''" "length ''vol'' < path_max" by (simp_all add: nul_free_def byte_of_char_def size_defs)
  show ?thesis using open_request_name_needs_zero [OF nm, of "\<lambda>_. 0"] open_request_name_needs_zero [OF nm, of "\<lambda>_. 7"] by simp
qed

end
