(* ===== verification/Message_Queue.thy ===== *)
theory Message_Queue
  imports Wire_Format
begin

text \<open>
  The interprocess message queues. The program uses \<open>boost::interprocess::message_queue\<close>, whose
  code is not part of the repository: it is a parameter of every definition that uses it, a
  record of operations on an opaque state of the shared-memory segment. \<open>mq_laws\<close> names what the
  program relies on, as the Boost documentation states it: a queue has a name, a bound on the
  number of messages and on their size; \<open>create_only\<close> and \<open>open_only\<close> throw for a name that
  exists, respectively does not; \<open>send\<close> throws for a message over the bound, blocks on a full
  queue and otherwise enqueues; \<open>receive\<close> throws for a buffer under the bound, blocks on an empty
  queue and otherwise takes the oldest of the messages of the highest priority. The program sends
  with priority 0 only, the lowest, so a send appends and a queue is a FIFO. At the end,
  \<open>fifo_mq\<close> is a concrete queue that satisfies the laws.
\<close>

section \<open>Messages\<close>

text \<open>A message in a queue: a copy of the first \<open>msg_size\<close> bytes of the sender's buffer.\<close>

record message =
  msg_bytes :: mem
  msg_size :: nat

definition mk_message :: "mem \<Rightarrow> nat \<Rightarrow> message" where
  "mk_message m n = \<lparr>msg_bytes = memcpy (\<lambda>_. 0) 0 m 0 n, msg_size = n\<rparr>"

text \<open>What a receive leaves in the receiver's buffer: bytes past the message keep their value.\<close>

definition recv_into :: "mem \<Rightarrow> message \<Rightarrow> mem" where
  "recv_into buf msg = memcpy buf 0 (msg_bytes msg) 0 (msg_size msg)"

lemma recv_mk_message [mem_simps]: "recv_into buf (mk_message m n) = memcpy buf 0 m 0 n"
  by (rule ext) (simp add: recv_into_def mk_message_def memcpy_def)

lemma mk_message_size [simp]: "msg_size (mk_message m n) = n"
  by (simp add: mk_message_def)

section \<open>The interface\<close>

type_synonym mqid = nat

datatype 'a mq_result = MQ_ok 'a | MQ_block | MQ_throw exn

text \<open>
  The first three fields observe the state: the queue a name denotes, the messages of a queue from
  the oldest to the newest, and its bounds (number of messages, size of a message).
\<close>

record 'b boost_mq =
  mq_names :: "'b \<Rightarrow> string \<Rightarrow> mqid option"
  mq_contents :: "'b \<Rightarrow> mqid \<Rightarrow> message list"
  mq_limits :: "'b \<Rightarrow> mqid \<Rightarrow> nat \<times> nat"
  mq_remove :: "string \<Rightarrow> 'b \<Rightarrow> bool \<times> 'b"
  mq_create_only :: "string \<Rightarrow> nat \<Rightarrow> nat \<Rightarrow> 'b \<Rightarrow> mqid mq_result \<times> 'b"
  mq_open_only :: "string \<Rightarrow> 'b \<Rightarrow> mqid mq_result \<times> 'b"
  mq_send :: "mqid \<Rightarrow> message \<Rightarrow> nat \<Rightarrow> 'b \<Rightarrow> unit mq_result \<times> 'b"
  mq_try_send :: "mqid \<Rightarrow> message \<Rightarrow> nat \<Rightarrow> 'b \<Rightarrow> bool mq_result \<times> 'b"
  mq_receive :: "mqid \<Rightarrow> nat \<Rightarrow> 'b \<Rightarrow> message mq_result \<times> 'b"

section \<open>The documented behaviour\<close>

definition mq_full :: "'b boost_mq \<Rightarrow> 'b \<Rightarrow> mqid \<Rightarrow> bool" where
  "mq_full M b q \<longleftrightarrow> fst (mq_limits M b q) \<le> length (mq_contents M b q)"

text \<open>The state that differs from \<open>b\<close> in the contents of \<open>q\<close> only.\<close>

definition mq_changes :: "'b boost_mq \<Rightarrow> 'b \<Rightarrow> mqid \<Rightarrow> message list \<Rightarrow> 'b \<Rightarrow> bool" where
  "mq_changes M b q ms b' \<longleftrightarrow>
     mq_names M b' = mq_names M b \<and> mq_limits M b' = mq_limits M b \<and>
     mq_contents M b' = (mq_contents M b)(q := ms)"

definition mq_remove_law :: "'b boost_mq \<Rightarrow> bool" where
  "mq_remove_law M \<longleftrightarrow> (\<forall>nm b. case mq_remove M nm b of (r, b') \<Rightarrow>
     r = (mq_names M b nm \<noteq> None) \<and> mq_names M b' = (mq_names M b)(nm := None) \<and>
     mq_contents M b' = mq_contents M b \<and> mq_limits M b' = mq_limits M b)"

definition mq_create_law :: "'b boost_mq \<Rightarrow> bool" where
  "mq_create_law M \<longleftrightarrow> (\<forall>nm k n b. case mq_create_only M nm k n b of
       (MQ_ok q, b') \<Rightarrow> mq_names M b nm = None \<and> q \<notin> ran (mq_names M b) \<and>
         mq_names M b' = (mq_names M b)(nm \<mapsto> q) \<and>
         mq_contents M b' = (mq_contents M b)(q := []) \<and> mq_limits M b' = (mq_limits M b)(q := (k, n))
     | (MQ_block, b') \<Rightarrow> False
     | (MQ_throw e, b') \<Rightarrow> b' = b)"

definition mq_open_law :: "'b boost_mq \<Rightarrow> bool" where
  "mq_open_law M \<longleftrightarrow> (\<forall>nm b. mq_open_only M nm b =
     ((case mq_names M b nm of Some q \<Rightarrow> MQ_ok q | None \<Rightarrow> MQ_throw Interprocess_exception), b))"

definition mq_send_law :: "'b boost_mq \<Rightarrow> bool" where
  "mq_send_law M \<longleftrightarrow> (\<forall>q m b.
     (if snd (mq_limits M b q) < msg_size m then mq_send M q m 0 b = (MQ_throw Interprocess_exception, b)
      else if mq_full M b q then mq_send M q m 0 b = (MQ_block, b)
      else \<exists>b'. mq_send M q m 0 b = (MQ_ok (), b') \<and> mq_changes M b q (mq_contents M b q @ [m]) b'))"

definition mq_try_send_law :: "'b boost_mq \<Rightarrow> bool" where
  "mq_try_send_law M \<longleftrightarrow> (\<forall>q m b.
     (if snd (mq_limits M b q) < msg_size m then mq_try_send M q m 0 b = (MQ_throw Interprocess_exception, b)
      else if mq_full M b q then mq_try_send M q m 0 b = (MQ_ok False, b)
      else \<exists>b'. mq_try_send M q m 0 b = (MQ_ok True, b') \<and> mq_changes M b q (mq_contents M b q @ [m]) b'))"

definition mq_receive_law :: "'b boost_mq \<Rightarrow> bool" where
  "mq_receive_law M \<longleftrightarrow> (\<forall>q n b.
     (if n < snd (mq_limits M b q) then mq_receive M q n b = (MQ_throw Interprocess_exception, b)
      else case mq_contents M b q of
             [] \<Rightarrow> mq_receive M q n b = (MQ_block, b)
           | m # ms \<Rightarrow> \<exists>b'. mq_receive M q n b = (MQ_ok m, b') \<and> mq_changes M b q ms b'))"

definition mq_laws :: "'b boost_mq \<Rightarrow> bool" where
  "mq_laws M \<longleftrightarrow> mq_remove_law M \<and> mq_create_law M \<and> mq_open_law M \<and>
     mq_send_law M \<and> mq_try_send_law M \<and> mq_receive_law M"

text \<open>The laws as rules.\<close>

lemma mq_sendE:
  assumes "mq_laws M" "msg_size m \<le> snd (mq_limits M b q)" "\<not> mq_full M b q"
  obtains b' where "mq_send M q m 0 b = (MQ_ok (), b')" "mq_changes M b q (mq_contents M b q @ [m]) b'"
  using assms unfolding mq_laws_def mq_send_law_def by (meson linorder_not_le)

lemma mq_send_blocks:
  "mq_laws M \<Longrightarrow> msg_size m \<le> snd (mq_limits M b q) \<Longrightarrow> mq_full M b q \<Longrightarrow> mq_send M q m 0 b = (MQ_block, b)"
  unfolding mq_laws_def mq_send_law_def by (meson linorder_not_le)

lemma mq_try_sendE:
  assumes "mq_laws M" "msg_size m \<le> snd (mq_limits M b q)" "\<not> mq_full M b q"
  obtains b' where "mq_try_send M q m 0 b = (MQ_ok True, b')" "mq_changes M b q (mq_contents M b q @ [m]) b'"
  using assms unfolding mq_laws_def mq_try_send_law_def by (meson linorder_not_le)

lemma mq_try_send_full:
  "mq_laws M \<Longrightarrow> msg_size m \<le> snd (mq_limits M b q) \<Longrightarrow> mq_full M b q \<Longrightarrow> mq_try_send M q m 0 b = (MQ_ok False, b)"
  unfolding mq_laws_def mq_try_send_law_def by (meson linorder_not_le)

lemma mq_receiveE:
  assumes "mq_laws M" "snd (mq_limits M b q) \<le> n" "mq_contents M b q = m # ms"
  obtains b' where "mq_receive M q n b = (MQ_ok m, b')" "mq_changes M b q ms b'"
proof -
  from assms(1) have "(if n < snd (mq_limits M b q) then mq_receive M q n b = (MQ_throw Interprocess_exception, b)
      else case mq_contents M b q of
             [] \<Rightarrow> mq_receive M q n b = (MQ_block, b)
           | m # ms \<Rightarrow> \<exists>b'. mq_receive M q n b = (MQ_ok m, b') \<and> mq_changes M b q ms b')"
    unfolding mq_laws_def mq_receive_law_def by blast
  with assms(2,3) that show thesis by (auto split: if_splits)
qed

lemma mq_receive_blocks:
  assumes "mq_laws M" "snd (mq_limits M b q) \<le> n" "mq_contents M b q = []"
  shows "mq_receive M q n b = (MQ_block, b)"
proof -
  from assms(1) have "(if n < snd (mq_limits M b q) then mq_receive M q n b = (MQ_throw Interprocess_exception, b)
      else case mq_contents M b q of
             [] \<Rightarrow> mq_receive M q n b = (MQ_block, b)
           | m # ms \<Rightarrow> \<exists>b'. mq_receive M q n b = (MQ_ok m, b') \<and> mq_changes M b q ms b')"
    unfolding mq_laws_def mq_receive_law_def by blast
  with assms(2,3) show ?thesis by simp
qed

lemma mq_open_run:
  "mq_laws M \<Longrightarrow> mq_open_only M nm b =
     ((case mq_names M b nm of Some q \<Rightarrow> MQ_ok q | None \<Rightarrow> MQ_throw Interprocess_exception), b)"
  unfolding mq_laws_def mq_open_law_def by blast

lemma mq_removeE:
  assumes "mq_laws M"
  obtains b' where "mq_remove M nm b = (mq_names M b nm \<noteq> None, b')" "mq_names M b' = (mq_names M b)(nm := None)"
    "mq_contents M b' = mq_contents M b" "mq_limits M b' = mq_limits M b"
proof -
  have law: "mq_remove_law M" using assms by (simp add: mq_laws_def)
  have "case mq_remove M nm b of (r, b') \<Rightarrow>
     r = (mq_names M b nm \<noteq> None) \<and> mq_names M b' = (mq_names M b)(nm := None) \<and>
     mq_contents M b' = mq_contents M b \<and> mq_limits M b' = mq_limits M b"
    by (rule law [unfolded mq_remove_law_def, THEN spec, THEN spec])
  then show thesis by (cases "mq_remove M nm b") (auto intro: that)
qed

text \<open>A creation either makes a new, empty queue or throws.\<close>

text \<open>Whether \<open>create_only\<close> succeeds once the name has been removed, as both processes use it.\<close>

definition mq_creates :: "'b boost_mq \<Rightarrow> string \<Rightarrow> nat \<Rightarrow> nat \<Rightarrow> 'b \<Rightarrow> bool" where
  "mq_creates M nm k n b =
     (case mq_create_only M nm k n (snd (mq_remove M nm b)) of (MQ_ok _, _) \<Rightarrow> True | _ \<Rightarrow> False)"

lemma mq_createE:
  assumes "mq_laws M"
  obtains (created) q b' where "mq_create_only M nm k n b = (MQ_ok q, b')" "mq_names M b nm = None" "q \<notin> ran (mq_names M b)"
      "mq_names M b' = (mq_names M b)(nm \<mapsto> q)" "mq_contents M b' = (mq_contents M b)(q := [])"
      "mq_limits M b' = (mq_limits M b)(q := (k, n))"
  | (thrown) e where "mq_create_only M nm k n b = (MQ_throw e, b)"
proof -
  have law: "mq_create_law M" using assms by (simp add: mq_laws_def)
  have "case mq_create_only M nm k n b of
       (MQ_ok q, b') \<Rightarrow> mq_names M b nm = None \<and> q \<notin> ran (mq_names M b) \<and>
         mq_names M b' = (mq_names M b)(nm \<mapsto> q) \<and>
         mq_contents M b' = (mq_contents M b)(q := []) \<and> mq_limits M b' = (mq_limits M b)(q := (k, n))
     | (MQ_block, b') \<Rightarrow> False
     | (MQ_throw e, b') \<Rightarrow> b' = b"
    by (rule law [unfolded mq_create_law_def, THEN spec, THEN spec, THEN spec, THEN spec])
  then show thesis
    by (cases "mq_create_only M nm k n b"; cases "fst (mq_create_only M nm k n b)") (auto intro: that)
qed

lemma mq_changesD:
  assumes "mq_changes M b q ms b'"
  shows "mq_names M b' = mq_names M b" "mq_limits M b' = mq_limits M b"
    "mq_contents M b' q = ms" "q' \<noteq> q \<Longrightarrow> mq_contents M b' q' = mq_contents M b q'"
  using assms by (simp_all add: mq_changes_def)

section \<open>A queue that satisfies the laws\<close>

record fifo =
  f_names :: "string \<Rightarrow> mqid option"
  f_queues :: "mqid \<Rightarrow> message list"
  f_limits :: "mqid \<Rightarrow> nat \<times> nat"
  f_next :: mqid

definition fifo_enqueue :: "mqid \<Rightarrow> message \<Rightarrow> fifo \<Rightarrow> fifo" where
  "fifo_enqueue q m b = b\<lparr>f_queues := (f_queues b)(q := f_queues b q @ [m])\<rparr>"

definition fifo_full :: "mqid \<Rightarrow> fifo \<Rightarrow> bool" where
  "fifo_full q b \<longleftrightarrow> fst (f_limits b q) \<le> length (f_queues b q)"

text \<open>
  Ids are handed out in order. A name is only visible while its id is below the next one, which
  makes a new id fresh in every state.
\<close>

definition fifo_lookup :: "fifo \<Rightarrow> string \<Rightarrow> mqid option" where
  "fifo_lookup b nm = (case f_names b nm of Some q \<Rightarrow> if q < f_next b then Some q else None | None \<Rightarrow> None)"

definition fifo_create :: "string \<Rightarrow> nat \<Rightarrow> nat \<Rightarrow> fifo \<Rightarrow> mqid mq_result \<times> fifo" where
  "fifo_create nm k n b =
     (if fifo_lookup b nm \<noteq> None then (MQ_throw Interprocess_exception, b)
      else let q = f_next b in
        (MQ_ok q, b\<lparr>f_names := (fifo_lookup b)(nm \<mapsto> q), f_queues := (f_queues b)(q := []),
                    f_limits := (f_limits b)(q := (k, n)), f_next := Suc q\<rparr>))"

definition fifo_send :: "mqid \<Rightarrow> message \<Rightarrow> nat \<Rightarrow> fifo \<Rightarrow> unit mq_result \<times> fifo" where
  "fifo_send q m prio b =
     (if snd (f_limits b q) < msg_size m then (MQ_throw Interprocess_exception, b)
      else if fifo_full q b then (MQ_block, b)
      else (MQ_ok (), fifo_enqueue q m b))"

definition fifo_try_send :: "mqid \<Rightarrow> message \<Rightarrow> nat \<Rightarrow> fifo \<Rightarrow> bool mq_result \<times> fifo" where
  "fifo_try_send q m prio b =
     (if snd (f_limits b q) < msg_size m then (MQ_throw Interprocess_exception, b)
      else if fifo_full q b then (MQ_ok False, b)
      else (MQ_ok True, fifo_enqueue q m b))"

definition fifo_receive :: "mqid \<Rightarrow> nat \<Rightarrow> fifo \<Rightarrow> message mq_result \<times> fifo" where
  "fifo_receive q n b =
     (if n < snd (f_limits b q) then (MQ_throw Interprocess_exception, b)
      else case f_queues b q of
             [] \<Rightarrow> (MQ_block, b)
           | m # ms \<Rightarrow> (MQ_ok m, b\<lparr>f_queues := (f_queues b)(q := ms)\<rparr>))"

definition fifo_mq :: "fifo boost_mq" where
  "fifo_mq =
     \<lparr>mq_names = fifo_lookup, mq_contents = f_queues, mq_limits = f_limits,
      mq_remove = (\<lambda>nm b. (fifo_lookup b nm \<noteq> None, b\<lparr>f_names := (fifo_lookup b)(nm := None)\<rparr>)),
      mq_create_only = fifo_create,
      mq_open_only = (\<lambda>nm b. ((case fifo_lookup b nm of Some q \<Rightarrow> MQ_ok q | None \<Rightarrow> MQ_throw Interprocess_exception), b)),
      mq_send = fifo_send, mq_try_send = fifo_try_send, mq_receive = fifo_receive\<rparr>"

lemma fifo_lookup_bound: "fifo_lookup b nm = Some q \<Longrightarrow> q < f_next b"
  by (auto simp: fifo_lookup_def split: option.splits if_splits)

lemma fifo_creates: "mq_creates fifo_mq nm k n b"
  by (simp add: mq_creates_def fifo_mq_def fifo_create_def fifo_lookup_def Let_def)

lemma fifo_create_law: "mq_create_law fifo_mq"
proof -
  have "f_next b \<notin> ran (fifo_lookup b)" for b
    using fifo_lookup_bound by (fastforce simp: ran_def)
  moreover have "fifo_lookup (b\<lparr>f_names := (fifo_lookup b)(nm \<mapsto> f_next b), f_queues := x, f_limits := y,
      f_next := Suc (f_next b)\<rparr>) = (fifo_lookup b)(nm \<mapsto> f_next b)" for b nm x y
    using fifo_lookup_bound [of b]
    by (auto simp: fifo_lookup_def [of "_\<lparr>f_names := _, f_queues := _, f_limits := _, f_next := _\<rparr>"] fun_eq_iff
        split: option.splits) (metis less_SucI)
  ultimately show ?thesis
    by (auto simp: mq_create_law_def fifo_mq_def fifo_create_def Let_def)
qed

lemma fifo_remove_law: "mq_remove_law fifo_mq"
proof -
  have "fifo_lookup (b\<lparr>f_names := (fifo_lookup b)(nm := None)\<rparr>) = (fifo_lookup b)(nm := None)" for b nm
    using fifo_lookup_bound [of b]
    by (auto simp: fifo_lookup_def [of "_\<lparr>f_names := _\<rparr>"] fun_eq_iff split: option.splits)
  then show ?thesis by (auto simp: mq_remove_law_def fifo_mq_def)
qed

lemma fifo_lookup_queues [simp]: "fifo_lookup (b\<lparr>f_queues := x\<rparr>) = fifo_lookup b"
  by (simp add: fifo_lookup_def fun_eq_iff split: option.split)

lemma fifo_mq_laws: "mq_laws fifo_mq"
proof -
  have "mq_open_law fifo_mq" by (simp add: mq_open_law_def fifo_mq_def)
  moreover have "mq_send_law fifo_mq"
    by (simp add: mq_send_law_def mq_full_def mq_changes_def fifo_mq_def fifo_send_def fifo_full_def fifo_enqueue_def)
  moreover have "mq_try_send_law fifo_mq"
    by (simp add: mq_try_send_law_def mq_full_def mq_changes_def fifo_mq_def fifo_try_send_def fifo_full_def fifo_enqueue_def)
  moreover have "mq_receive_law fifo_mq"
    by (simp add: mq_receive_law_def mq_changes_def fifo_mq_def fifo_receive_def split: list.split)
  ultimately show ?thesis
    using fifo_create_law fifo_remove_law by (simp add: mq_laws_def)
qed

section \<open>Message sizes\<close>

text \<open>Every reply the server sends fits the message size of the reply queues, and every request the
  client sends fits that of the request queue, so that no send throws for its size; the flush
  reply, sent with the size of a size reply, is transmitted whole.\<close>

lemma messages_fit_their_queues:
  "list_all (\<lambda>n. n \<le> request_size)
     [writerequest_size, readrequest_size, openrequest_size, closerequest_size, getsizerequest_size, fsyncrequest_size] \<and>
   list_all (\<lambda>n. n \<le> reply_size) [readreply_size, openreply_size, getsizereply_size, fsyncreply_size] \<and>
   fsyncreply_size = getsizereply_size \<and> write_data_at + max_data_size = request_size \<and> read_data_at + max_data_size = reply_size"
  by (simp add: size_defs)

end
