(* ===== verification/Posix_Files.thy ===== *)
theory Posix_Files
  imports Cvbd_Prelude
begin

text \<open>
  What the server uses of the C library's file interface: \<open>open\<close>, \<open>close\<close>, \<open>pread\<close>, \<open>pwrite\<close>,
  \<open>ftruncate\<close>, \<open>fstat\<close>, \<open>fsync\<close> and \<open>errno\<close>. A file is a size and its bytes; a descriptor names
  the path it was opened with (the program never renames or unlinks a file). The field
  \<open>os_script\<close> holds the results the system gives to the next calls: success, failure with an
  error number, or a transfer cut short; an empty script means success from here on. So every
  error path of the program can be driven.
\<close>

datatype sys_result = Sys_ok | Sys_err int | Sys_short nat

record inode =
  file_size :: nat
  file_data :: mem

record os =
  os_files :: "string \<Rightarrow> inode option"
  os_fds :: "int \<Rightarrow> string option"
  os_next_fd :: int
  os_errno :: int
  os_script :: "sys_result list"

definition ENOENT :: int where "ENOENT = 2"
definition EIO :: int where "EIO = 5"
definition EBADF :: int where "EBADF = 9"
definition EINVAL :: int where "EINVAL = 22"

definition next_result :: "os \<Rightarrow> sys_result \<times> os" where
  "next_result s = (case os_script s of [] \<Rightarrow> (Sys_ok, s) | r # rs \<Rightarrow> (r, s\<lparr>os_script := rs\<rparr>))"

definition sys_fail :: "int \<Rightarrow> os \<Rightarrow> int \<times> os" where
  "sys_fail e s = (- 1, s\<lparr>os_errno := e\<rparr>)"

definition new_fd :: "string \<Rightarrow> os \<Rightarrow> int \<times> os" where
  "new_fd path s = (os_next_fd s,
     s\<lparr>os_fds := (os_fds s)(os_next_fd s \<mapsto> path), os_next_fd := os_next_fd s + 1\<rparr>)"

text \<open>\<open>open (path, O_RDWR)\<close>, and with \<open>creat\<close> also \<open>O_CREAT\<close>.\<close>

definition sys_open :: "string \<Rightarrow> bool \<Rightarrow> os \<Rightarrow> int \<times> os" where
  "sys_open path creat s0 =
     (case next_result s0 of
        (Sys_err e, s) \<Rightarrow> sys_fail e s
      | (_, s) \<Rightarrow>
          (if os_files s path \<noteq> None then new_fd path s
           else if creat then new_fd path (s\<lparr>os_files := (os_files s)(path \<mapsto> \<lparr>file_size = 0, file_data = (\<lambda>_. 0)\<rparr>)\<rparr>)
           else sys_fail ENOENT s))"

text \<open>The file a descriptor refers to.\<close>

definition fd_file :: "os \<Rightarrow> int \<Rightarrow> (string \<times> inode) option" where
  "fd_file s fd = do { p \<leftarrow> os_fds s fd; f \<leftarrow> os_files s p; Some (p, f) }"

definition put_file :: "string \<Rightarrow> inode \<Rightarrow> os \<Rightarrow> os" where
  "put_file p f s = s\<lparr>os_files := (os_files s)(p \<mapsto> f)\<rparr>"

text \<open>The bytes of a file, zero past its end.\<close>

definition file_bytes :: "inode \<Rightarrow> mem" where
  "file_bytes f = (\<lambda>i. if i < file_size f then file_data f i else 0)"

definition file_write :: "inode \<Rightarrow> nat \<Rightarrow> mem \<Rightarrow> nat \<Rightarrow> inode" where
  "file_write f off buf n =
     \<lparr>file_size = (if n = 0 then file_size f else max (file_size f) (off + n)),
      file_data = memcpy (file_bytes f) off buf 0 n\<rparr>"

definition file_truncate :: "inode \<Rightarrow> nat \<Rightarrow> inode" where
  "file_truncate f n = \<lparr>file_size = n, file_data = file_bytes f\<rparr>"

text \<open>The number of bytes a transfer of at most \<open>n\<close> bytes moves.\<close>

definition moved :: "sys_result \<Rightarrow> nat \<Rightarrow> nat" where
  "moved r n = (case r of Sys_short k \<Rightarrow> min k n | _ \<Rightarrow> n)"

definition sys_pwrite :: "int \<Rightarrow> mem \<Rightarrow> nat \<Rightarrow> int \<Rightarrow> os \<Rightarrow> int \<times> os" where
  "sys_pwrite fd buf count off s0 =
     (case next_result s0 of
        (Sys_err e, s) \<Rightarrow> sys_fail e s
      | (r, s) \<Rightarrow>
          (case fd_file s fd of
             None \<Rightarrow> sys_fail EBADF s
           | Some (p, f) \<Rightarrow>
               if off < 0 then sys_fail EINVAL s
               else (int (moved r count), put_file p (file_write f (nat off) buf (moved r count)) s)))"

text \<open>\<open>pread\<close> returns its result and the bytes it stores, from the start of the caller's buffer.\<close>

definition sys_pread :: "int \<Rightarrow> nat \<Rightarrow> int \<Rightarrow> os \<Rightarrow> (int \<times> mem) \<times> os" where
  "sys_pread fd count off s0 =
     (case next_result s0 of
        (Sys_err e, s) \<Rightarrow> ((- 1, \<lambda>_. 0), s\<lparr>os_errno := e\<rparr>)
      | (r, s) \<Rightarrow>
          (case fd_file s fd of
             None \<Rightarrow> ((- 1, \<lambda>_. 0), s\<lparr>os_errno := EBADF\<rparr>)
           | Some (p, f) \<Rightarrow>
               if off < 0 then ((- 1, \<lambda>_. 0), s\<lparr>os_errno := EINVAL\<rparr>)
               else ((int (moved r (min count (file_size f - nat off))), \<lambda>i. file_bytes f (nat off + i)), s)))"

definition sys_ftruncate :: "int \<Rightarrow> nat \<Rightarrow> os \<Rightarrow> int \<times> os" where
  "sys_ftruncate fd n s0 =
     (case next_result s0 of
        (Sys_err e, s) \<Rightarrow> sys_fail e s
      | (_, s) \<Rightarrow>
          (case fd_file s fd of
             None \<Rightarrow> sys_fail EBADF s
           | Some (p, f) \<Rightarrow> (0, put_file p (file_truncate f n) s)))"

text \<open>\<open>fstat\<close> returns its result and \<open>st_size\<close>.\<close>

definition sys_fstat :: "int \<Rightarrow> os \<Rightarrow> (int \<times> nat) \<times> os" where
  "sys_fstat fd s0 =
     (case next_result s0 of
        (Sys_err e, s) \<Rightarrow> ((- 1, 0), s\<lparr>os_errno := e\<rparr>)
      | (_, s) \<Rightarrow>
          (case fd_file s fd of
             None \<Rightarrow> ((- 1, 0), s\<lparr>os_errno := EBADF\<rparr>)
           | Some (p, f) \<Rightarrow> ((0, file_size f), s)))"

definition sys_fsync :: "int \<Rightarrow> os \<Rightarrow> int \<times> os" where
  "sys_fsync fd s0 =
     (case next_result s0 of
        (Sys_err e, s) \<Rightarrow> sys_fail e s
      | (_, s) \<Rightarrow> (if fd_file s fd = None then sys_fail EBADF s else (0, s)))"

definition sys_close :: "int \<Rightarrow> os \<Rightarrow> int \<times> os" where
  "sys_close fd s0 =
     (case next_result s0 of
        (Sys_err e, s) \<Rightarrow> sys_fail e (s\<lparr>os_fds := (os_fds s)(fd := None)\<rparr>)
      | (_, s) \<Rightarrow>
          (if os_fds s fd = None then sys_fail EBADF s
           else (0, s\<lparr>os_fds := (os_fds s)(fd := None)\<rparr>)))"

section \<open>Basic facts\<close>

lemmas sys_call_defs =
  sys_open_def sys_pwrite_def sys_pread_def sys_ftruncate_def sys_fstat_def sys_fsync_def sys_close_def
  sys_fail_def new_fd_def put_file_def next_result_def

lemmas sys_call_splits = list.splits sys_result.splits option.splits prod.splits if_splits

text \<open>Descriptors are below the next one, and every descriptor refers to a file.\<close>

definition wf_os :: "os \<Rightarrow> bool" where
  "wf_os s \<longleftrightarrow> 0 \<le> os_next_fd s \<and>
     (\<forall>fd p. os_fds s fd = Some p \<longrightarrow> 0 \<le> fd \<and> fd < os_next_fd s \<and> os_files s p \<noteq> None)"

lemma next_result_frame:
  "next_result s = (r, t) \<Longrightarrow>
   os_files t = os_files s \<and> os_fds t = os_fds s \<and> os_next_fd t = os_next_fd s \<and> os_errno t = os_errno s"
  by (auto simp: next_result_def split: list.splits)

lemma wf_os_next_fd: "wf_os s \<Longrightarrow> os_fds s (os_next_fd s) = None"
  by (cases "os_fds s (os_next_fd s)") (auto simp: wf_os_def)

lemma wf_os_open: "wf_os s \<Longrightarrow> sys_open path creat s = (r, t) \<Longrightarrow> wf_os t"
  unfolding wf_os_def
  by (auto simp: sys_call_defs split: sys_call_splits) force+

text \<open>A successful \<open>open\<close> returns a descriptor that no one held.\<close>

lemma sys_open_fresh:
  assumes "wf_os s" "sys_open path creat s = (r, t)" "0 \<le> r"
  shows "os_fds s r = None" "os_fds t = (os_fds s)(r \<mapsto> path)" "os_files t path \<noteq> None"
  using assms wf_os_next_fd [OF assms(1)] by (auto simp: sys_call_defs split: sys_call_splits)

lemma sys_open_frame: "sys_open path creat s = (r, t) \<Longrightarrow> os_files s p \<noteq> None \<Longrightarrow> os_files t p = os_files s p"
  by (auto simp: sys_call_defs split: sys_call_splits)

lemma sys_open_fds: "sys_open path creat s = (r, t) \<Longrightarrow> r < 0 \<Longrightarrow> wf_os s \<Longrightarrow> os_fds t = os_fds s"
  by (auto simp: wf_os_def sys_call_defs split: sys_call_splits)

text \<open>The calls on a descriptor keep the descriptors, and files that exist.\<close>

lemma sys_pwrite_frame:
  "sys_pwrite fd buf n off s = (r, t) \<Longrightarrow>
   os_fds t = os_fds s \<and> os_next_fd t = os_next_fd s \<and> (os_files s p \<noteq> None \<longrightarrow> os_files t p \<noteq> None)"
  by (auto simp: sys_call_defs split: sys_call_splits)

lemma sys_pread_frame:
  "sys_pread fd n off s = (r, t) \<Longrightarrow>
   os_fds t = os_fds s \<and> os_next_fd t = os_next_fd s \<and> os_files t = os_files s"
  by (auto simp: sys_call_defs split: sys_call_splits)

lemma sys_ftruncate_frame:
  "sys_ftruncate fd n s = (r, t) \<Longrightarrow>
   os_fds t = os_fds s \<and> os_next_fd t = os_next_fd s \<and> (os_files s p \<noteq> None \<longrightarrow> os_files t p \<noteq> None)"
  by (auto simp: sys_call_defs split: sys_call_splits)

lemma sys_fstat_frame:
  "sys_fstat fd s = (r, t) \<Longrightarrow>
   os_fds t = os_fds s \<and> os_next_fd t = os_next_fd s \<and> os_files t = os_files s"
  by (auto simp: sys_call_defs split: sys_call_splits)

lemma sys_fsync_frame:
  "sys_fsync fd s = (r, t) \<Longrightarrow>
   os_fds t = os_fds s \<and> os_next_fd t = os_next_fd s \<and> os_files t = os_files s"
  by (auto simp: sys_call_defs split: sys_call_splits)

lemma sys_close_frame:
  "sys_close fd s = (r, t) \<Longrightarrow>
   os_fds t = (os_fds s)(fd := None) \<and> os_next_fd t = os_next_fd s \<and> os_files t = os_files s"
  by (auto simp: sys_call_defs split: sys_call_splits)

lemma fd_file_iff: "fd_file s fd = Some (p, f) \<longleftrightarrow> os_fds s fd = Some p \<and> os_files s p = Some f"
  by (auto simp: fd_file_def split: Option.bind_splits)

lemma file_write_bytes: "file_bytes (file_write f off buf n) = memcpy (file_bytes f) off buf 0 n"
  by (rule ext) (auto simp: file_bytes_def file_write_def memcpy_def)

lemma file_write_size: "off + n \<le> file_size f \<Longrightarrow> file_size (file_write f off buf n) = file_size f"
  by (simp add: file_write_def)

end
