(* ===== verification/Disk_Spec.thy ===== *)
theory Disk_Spec
  imports Cvbd_Prelude
begin

text \<open>
  The abstract specification of a volume: a disk of a fixed size, an array of bytes that a write
  overwrites and a read returns. The server, the client and the block driver are related to it.
\<close>

record disk =
  d_size :: nat
  d_bytes :: mem

text \<open>Store \<open>n\<close> bytes of \<open>src\<close>, from offset \<open>s\<close> on, at offset \<open>off\<close> of the disk.\<close>

definition disk_write :: "disk \<Rightarrow> nat \<Rightarrow> mem \<Rightarrow> nat \<Rightarrow> nat \<Rightarrow> disk" where
  "disk_write d off src s n = d\<lparr>d_bytes := memcpy (d_bytes d) off src s n\<rparr>"

text \<open>Load \<open>n\<close> bytes at offset \<open>off\<close> of the disk into \<open>dst\<close> at offset \<open>t\<close>.\<close>

definition disk_read :: "disk \<Rightarrow> nat \<Rightarrow> mem \<Rightarrow> nat \<Rightarrow> nat \<Rightarrow> mem" where
  "disk_read d off dst t n = memcpy dst t (d_bytes d) off n"

lemma disk_write_size [simp]: "d_size (disk_write d off src s n) = d_size d"
  by (simp add: disk_write_def)

lemma disk_write_zero [simp]: "disk_write d off src s 0 = d"
  by (simp add: disk_write_def)

lemma disk_read_zero [simp]: "disk_read d off dst t 0 = dst"
  by (simp add: disk_read_def)

text \<open>A transfer may be cut anywhere.\<close>

lemma disk_write_append:
  "disk_write (disk_write d off src s m) (off + m) src (s + m) n = disk_write d off src s (m + n)"
  by (simp add: disk_write_def memcpy_append)

lemma disk_read_append:
  "disk_read d (off + m) (disk_read d off dst t m) (t + m) n = disk_read d off dst t (m + n)"
  by (simp add: disk_read_def memcpy_append)

text \<open>What was written is read back; other bytes are not disturbed.\<close>

lemma disk_read_write:
  "disk_read (disk_write d off src s n) off dst t n = memcpy dst t src s n"
  by (rule ext) (auto simp: disk_read_def disk_write_def memcpy_def)

lemma disk_write_disjoint:
  "off + n \<le> i \<or> i < off \<Longrightarrow> d_bytes (disk_write d off src s n) i = d_bytes d i"
  by (auto simp: disk_write_def mem_simps)

end
