(* ===== verification/Io_Handler.thy ===== *)
theory Io_Handler
  imports Message_Queue Posix_Files Disk_Spec
begin

text \<open>
  \<open>src/server.c\<close>: \<open>VolumeState\<close> and the six operations of \<open>IOHandler\<close>, which the server calls
  with the request it received and the buffer of its reply. The handle of a volume is the address
  of its heap object, cast to an integer and sent to the client; the heap is a partial map from
  addresses, so that a null or dangling handle is undefined behaviour. Shown here: the invariant
  between volumes and file descriptors that every operation keeps, and what each operation does
  on each of its branches.
\<close>

section \<open>State\<close>

record VolumeState =
  vs_volume_name :: string
  vs_volume_id :: nat
  vs_fd :: int
  vs_reply_mq :: mqid

text \<open>The server's surroundings: the queues, the files, its heap and the next free address.\<close>

record 'b world =
  boost :: 'b
  os :: os
  heap :: "u64 \<Rightarrow> VolumeState option"
  brk :: nat

text \<open>A call of a queue operation: a full or empty queue blocks, and no one else runs meanwhile.\<close>

definition mqc :: "('b \<Rightarrow> 'a mq_result \<times> 'b) \<Rightarrow> ('b world, 'a) cmd" where
  "mqc f = (\<lambda>w. case f (boost w) of
       (MQ_ok x, b) \<Rightarrow> (Ret x, w\<lparr>boost := b\<rparr>)
     | (MQ_block, b) \<Rightarrow> (Fail Hang, w\<lparr>boost := b\<rparr>)
     | (MQ_throw e, b) \<Rightarrow> (Fail (Throw e), w\<lparr>boost := b\<rparr>))"

text \<open>\<open>message_queue::remove\<close>, which returns whether the name existed.\<close>

definition mqr :: "('b \<Rightarrow> 'a \<times> 'b) \<Rightarrow> ('b world, 'a) cmd" where
  "mqr f = (\<lambda>w. case f (boost w) of (x, b) \<Rightarrow> (Ret x, w\<lparr>boost := b\<rparr>))"

text \<open>A system call, and \<open>errno\<close>.\<close>

definition sysc :: "(os \<Rightarrow> 'a \<times> os) \<Rightarrow> ('b world, 'a) cmd" where
  "sysc f = (\<lambda>w. case f (os w) of (r, s) \<Rightarrow> (Ret r, w\<lparr>os := s\<rparr>))"

definition errno :: "('b world, int) cmd" where
  "errno = gets (\<lambda>w. os_errno (os w))"

text \<open>\<open>*vol\<close>, \<open>new VolumeState (...)\<close> and \<open>delete vol\<close>.\<close>

definition deref :: "u64 \<Rightarrow> ('b world, VolumeState) cmd" where
  "deref vol = (\<lambda>w. case (if vol = 0 then None else heap w vol) of
       None \<Rightarrow> (Fail Undef, w) | Some vs \<Rightarrow> (Ret vs, w))"

definition new_VolumeState :: "'b boost_mq \<Rightarrow> string \<Rightarrow> nat \<Rightarrow> int \<Rightarrow> string \<Rightarrow> ('b world, u64) cmd" where
  "new_VolumeState M volume_name volume_id fd reply_mq_name =
     cbind (gets brk) (\<lambda>a.
     cbind (if a < 2 ^ 64 then ret () else fail (Throw Bad_alloc)) (\<lambda>_.
     cbind (mqc (mq_open_only M reply_mq_name)) (\<lambda>q.
     cbind (modify (\<lambda>w. w\<lparr>heap := (heap w)(word_of_nat a \<mapsto>
              \<lparr>vs_volume_name = volume_name, vs_volume_id = volume_id, vs_fd = fd, vs_reply_mq = q\<rparr>),
            brk := Suc a\<rparr>)) (\<lambda>_.
     ret (word_of_nat a)))))"

definition delete_VolumeState :: "u64 \<Rightarrow> ('b world, unit) cmd" where
  "delete_VolumeState vol = modify (\<lambda>w. w\<lparr>heap := (heap w)(vol := None)\<rparr>)"

text \<open>A C string of the request, read up to the end of the request buffer at most.\<close>

definition req_cstr :: "mem \<Rightarrow> nat \<Rightarrow> ('b world, string) cmd" where
  "req_cstr req a = (case cstr req a (request_size - a) of None \<Rightarrow> fail Undef | Some xs \<Rightarrow> ret xs)"

section \<open>The operations\<close>

text \<open>\<open>close (VolumeState *)\<close> and \<open>close (CloseRequest *)\<close>.\<close>

definition ioh_close_volume :: "u64 \<Rightarrow> ('b world, unit) cmd" where
  "ioh_close_volume vol =
     (if vol = 0 then ret ()
      else cbind (deref vol) (\<lambda>vs.
           cbind (sysc (sys_close (vs_fd vs))) (\<lambda>_.
           delete_VolumeState vol)))"

definition ioh_close :: "mem \<Rightarrow> ('b world, unit) cmd" where
  "ioh_close req = ioh_close_volume (h_volume (get_header req))"

text \<open>
  The \<open>do { ... } while (0)\<close> of \<open>open\<close>: it leaves \<open>ret\<close> and \<open>vol\<close>, null when the file could not
  be opened.
\<close>

definition volume_path :: "string \<Rightarrow> string" where
  "volume_path volume_name = ''/ssdfs/vdisk0/'' @ volume_name"

definition ioh_open_attach :: "'b boost_mq \<Rightarrow> mem \<Rightarrow> string \<Rightarrow> int \<Rightarrow> ('b world, int \<times> u64) cmd" where
  "ioh_open_attach M req volume_name fd =
     cbind (req_cstr req reply_mq_name_at) (\<lambda>reply_mq_name.
     cbind (new_VolumeState M volume_name 0 fd reply_mq_name) (\<lambda>vol.
     cbind (sysc (sys_ftruncate fd (2 ^ 34))) (\<lambda>r.
     if r < 0 then cbind errno (\<lambda>e. ret (- e, vol)) else ret (fd, vol))))"

definition ioh_open_body :: "'b boost_mq \<Rightarrow> mem \<Rightarrow> ('b world, int \<times> u64) cmd" where
  "ioh_open_body M req =
     cbind (req_cstr req volume_name_at) (\<lambda>volume_name.
     cbind (sysc (sys_open (volume_path volume_name) False)) (\<lambda>r.
     if r < 0 then
       cbind errno (\<lambda>e.
       cbind (assert (e = ENOENT)) (\<lambda>_.
       cbind (sysc (sys_open (volume_path volume_name) True)) (\<lambda>r.
       if r < 0 then cbind errno (\<lambda>e. ret (- e, 0))
       else ioh_open_attach M req volume_name r)))
     else ioh_open_attach M req volume_name r))"

definition ioh_open_reply :: "mem \<Rightarrow> mem \<Rightarrow> int \<Rightarrow> u64 \<Rightarrow> mem" where
  "ioh_open_reply req reply r vol =
     put32 (put64 (put_header reply ((get_header req)\<lparr>h_volume := vol\<rparr>)) 32 vol)
       40 (word_of_int (if r < 0 then r else 0))"

definition ioh_open :: "'b boost_mq \<Rightarrow> mem \<Rightarrow> mem \<Rightarrow> ('b world, mem) cmd" where
  "ioh_open M req reply =
     cbind (ioh_open_body M req) (\<lambda>(r, vol).
     let reply' = ioh_open_reply req reply r vol in
     cbind (if vol \<noteq> 0
            then cbind (deref vol) (\<lambda>vs. mqc (mq_send M (vs_reply_mq vs) (mk_message reply' openreply_size) 0))
            else ret ()) (\<lambda>_.
     cbind (if r < 0 then ioh_close_volume vol else ret ()) (\<lambda>_.
     ret reply')))"

text \<open>\<open>getsize\<close>: \<open>fsync\<close> and \<open>read\<close> share its shape; all three reach for the reply queue at the end.\<close>

definition ioh_getsize :: "'b boost_mq \<Rightarrow> mem \<Rightarrow> mem \<Rightarrow> ('b world, mem) cmd" where
  "ioh_getsize M req reply =
     (let vol = h_volume (get_header req) in
      cbind (if vol = 0 then ret (- ENOENT, 0)
             else cbind (deref vol) (\<lambda>vs. sysc (sys_fstat (vs_fd vs)))) (\<lambda>(r, st_size).
      let reply' = put64 (put_header reply (get_header req)) 32 (if r < 0 then 0 else word_of_nat st_size) in
      cbind (deref vol) (\<lambda>vs.
      cbind (mqc (mq_send M (vs_reply_mq vs) (mk_message reply' getsizereply_size) 0)) (\<lambda>_.
      ret reply'))))"

definition ioh_fsync :: "'b boost_mq \<Rightarrow> mem \<Rightarrow> mem \<Rightarrow> ('b world, mem) cmd" where
  "ioh_fsync M req reply =
     (let vol = h_volume (get_header req) in
      cbind (if vol = 0 then ret (- ENOENT)
             else cbind (deref vol) (\<lambda>vs. sysc (sys_fsync (vs_fd vs)))) (\<lambda>r.
      cbind errno (\<lambda>e.
      let reply' = put32 (put_header reply (get_header req)) 32 (word_of_int (if r < 0 then - e else 0)) in
      cbind (deref vol) (\<lambda>vs.
      cbind (mqc (mq_send M (vs_reply_mq vs) (mk_message reply' getsizereply_size) 0)) (\<lambda>_.
      ret reply')))))"

text \<open>
  \<open>write\<close>. A size over \<open>max_data_size\<close> would read past the request buffer. The comparison in
  the assertion converts the signed result to unsigned.
\<close>

definition ioh_write :: "mem \<Rightarrow> ('b world, unit) cmd" where
  "ioh_write req =
     (let vol = h_volume (get_header req) in
      if vol \<noteq> 0 then
        cbind (deref vol) (\<lambda>vs.
        cbind (defined (unat (req_size req) \<le> max_data_size)) (\<lambda>_.
        cbind (sysc (sys_pwrite (vs_fd vs) (\<lambda>i. req (write_data_at + i)) (unat (req_size req)) (sint (req_offset req)))) (\<lambda>dataSize.
        assert (word_of_int dataSize = req_size req))))
      else ret ())"

text \<open>\<open>read\<close>. Bytes past \<open>max_data_size\<close> would be stored outside the reply buffer.\<close>

definition ioh_read :: "'b boost_mq \<Rightarrow> mem \<Rightarrow> mem \<Rightarrow> ('b world, mem) cmd" where
  "ioh_read M req reply =
     (let vol = h_volume (get_header req) in
      cbind (if vol = 0 then ret (0, reply)
             else cbind (deref vol) (\<lambda>vs.
                  cbind (sysc (sys_pread (vs_fd vs) (unat (req_size req)) (sint (req_offset req)))) (\<lambda>(dataSize, bytes).
                  cbind (defined (nat dataSize \<le> max_data_size)) (\<lambda>_.
                  cbind (assert (word_of_int dataSize = req_size req)) (\<lambda>_.
                  ret (dataSize, memcpy reply read_data_at bytes 0 (nat dataSize))))))) (\<lambda>(dataSize, reply1).
      let reply' = put64 (put_header reply1 (get_header req)) 32 (word_of_int dataSize) in
      cbind (deref vol) (\<lambda>vs.
      cbind (mqc (mq_send M (vs_reply_mq vs) (mk_message reply' readreply_size) 0)) (\<lambda>_.
      ret reply'))))"

section \<open>The invariant between volumes and descriptors\<close>

text \<open>
  Live volumes have non-null addresses the allocator has handed out, each has an open descriptor,
  and no two share one: closing a volume closes no descriptor of another.
\<close>

definition wf_world :: "'b world \<Rightarrow> bool" where
  "wf_world w \<longleftrightarrow> wf_os (os w) \<and> 0 < brk w \<and>
     (\<forall>a vs. heap w a = Some vs \<longrightarrow> a \<noteq> 0 \<and> unat a < brk w \<and> os_fds (os w) (vs_fd vs) \<noteq> None) \<and>
     (\<forall>a b vs vt. heap w a = Some vs \<longrightarrow> heap w b = Some vt \<longrightarrow> vs_fd vs = vs_fd vt \<longrightarrow> a = b)"

lemma wf_worldD:
  assumes "wf_world w"
  shows "wf_os (os w)" "0 < brk w"
    "heap w a = Some vs \<Longrightarrow> a \<noteq> 0" "heap w a = Some vs \<Longrightarrow> unat a < brk w"
    "heap w a = Some vs \<Longrightarrow> \<exists>p. os_fds (os w) (vs_fd vs) = Some p"
    "heap w a = Some vs \<Longrightarrow> heap w b = Some vt \<Longrightarrow> vs_fd vs = vs_fd vt \<Longrightarrow> a = b"
  using assms by (auto simp: wf_world_def)

lemma keeps_mqc [keeps_intros]: "keeps wf_world (mqc f)"
  by (auto simp: keeps_def mqc_def wf_world_def split: prod.splits mq_result.splits)

lemma keeps_errno [keeps_intros]: "keeps P errno"
  by (simp add: errno_def keeps_intros)

lemma keeps_deref [keeps_intros]: "keeps P (deref vol)"
  by (simp add: keeps_def deref_def split: option.splits)

lemma keeps_req_cstr [keeps_intros]: "keeps P (req_cstr req a)"
  by (simp add: keeps_def req_cstr_def cmd_simps split: option.splits)

lemma wf_os_frame:
  assumes "wf_os s" "os_fds t = os_fds s" "os_next_fd t = os_next_fd s"
    "\<And>p. os_files s p \<noteq> None \<Longrightarrow> os_files t p \<noteq> None"
  shows "wf_os t"
  using assms by (simp add: wf_os_def)

lemma keeps_sysc_frame:
  assumes "\<And>s r t. f s = (r, t) \<Longrightarrow> os_fds t = os_fds s \<and> os_next_fd t = os_next_fd s \<and>
     (\<forall>p. os_files s p \<noteq> None \<longrightarrow> os_files t p \<noteq> None)"
  shows "keeps wf_world (sysc f)"
proof (rule keepsI)
  fix w r and w' :: "'b world"
  assume w: "wf_world w" and run: "sysc f w = (r, w')"
  obtain x s where fs: "f (os w) = (x, s)" by fastforce
  with run have w': "w' = w\<lparr>os := s\<rparr>" by (simp add: sysc_def)
  note fr = assms [OF fs]
  then have "wf_os s" using wf_os_frame [of "os w" s] w by (simp add: wf_world_def)
  with w fr show "wf_world w'" by (simp add: w' wf_world_def)
qed

lemma keeps_sys_calls [keeps_intros]:
  "keeps wf_world (sysc (sys_pwrite fd buf n off))" "keeps wf_world (sysc (sys_pread fd n off))"
  "keeps wf_world (sysc (sys_ftruncate fd k))" "keeps wf_world (sysc (sys_fstat fd))"
  "keeps wf_world (sysc (sys_fsync fd))"
  by (rule keeps_sysc_frame;
      frule sys_pwrite_frame sys_pread_frame sys_ftruncate_frame sys_fstat_frame sys_fsync_frame;
      use sys_pwrite_frame sys_ftruncate_frame in auto)+

lemma keeps_sys_open: "keeps wf_world (sysc (sys_open path creat))"
proof (rule keepsI)
  fix w r and w' :: "'b world"
  assume w: "wf_world w" and run: "sysc (sys_open path creat) w = (r, w')"
  obtain x s where fs: "sys_open path creat (os w) = (x, s)" by fastforce
  with run have w': "w' = w\<lparr>os := s\<rparr>" by (simp add: sysc_def)
  have "wf_os s" using wf_os_open [OF wf_worldD(1) [OF w] fs] .
  moreover have "os_fds (os w) fd \<noteq> None \<Longrightarrow> os_fds s fd \<noteq> None" for fd
    using sys_open_fresh [OF wf_worldD(1) [OF w] fs] sys_open_fds [OF fs _ wf_worldD(1) [OF w]]
    by (cases "0 \<le> x") auto
  ultimately show "wf_world w'" using w by (simp add: w' wf_world_def)
qed

lemma ioh_close_volume_run:
  assumes "heap w vol = Some vs" "vol \<noteq> 0"
  shows "\<exists>s. ioh_close_volume vol w = (Ret (), w\<lparr>os := s, heap := (heap w)(vol := None)\<rparr>) \<and>
    os_fds s = (os_fds (os w))(vs_fd vs := None) \<and> os_next_fd s = os_next_fd (os w) \<and> os_files s = os_files (os w)"
proof -
  obtain x s where c: "sys_close (vs_fd vs) (os w) = (x, s)" by fastforce
  with assms sys_close_frame [OF c] show ?thesis
    by (auto simp: ioh_close_volume_def deref_def sysc_def delete_VolumeState_def cmd_simps)
qed

lemma keeps_ioh_close_volume [keeps_intros]: "keeps wf_world (ioh_close_volume vol)"
proof (rule keepsI)
  fix w r and w' :: "'b world"
  assume w: "wf_world w" and run: "ioh_close_volume vol w = (r, w')"
  show "wf_world w'"
  proof (cases "vol \<noteq> 0 \<and> heap w vol \<noteq> None")
    case True
    then obtain vs where vs: "heap w vol = Some vs" "vol \<noteq> 0" by auto
    from ioh_close_volume_run [OF vs] obtain s where
      "w' = w\<lparr>os := s, heap := (heap w)(vol := None)\<rparr>"
      "os_fds s = (os_fds (os w))(vs_fd vs := None)" "os_next_fd s = os_next_fd (os w)" "os_files s = os_files (os w)"
      using run by auto
    with w vs show ?thesis
      by (fastforce simp: wf_world_def wf_os_def split: if_splits)
  next
    case False
    then have "w' = w" using run by (auto simp: ioh_close_volume_def deref_def cmd_simps split: if_splits option.splits)
    with w show ?thesis by simp
  qed
qed

text \<open>A descriptor that is open and belongs to no volume: what \<open>open\<close> holds before it attaches it.\<close>

definition spare_fd :: "int \<Rightarrow> 'b world \<Rightarrow> bool" where
  "spare_fd fd w \<longleftrightarrow> os_fds (os w) fd \<noteq> None \<and> (\<forall>a vs. heap w a = Some vs \<longrightarrow> vs_fd vs \<noteq> fd)"

lemma sys_open_spare:
  assumes "wf_world w" "sysc (sys_open path creat) w = (Ret fd, w')" "0 \<le> fd"
  shows "wf_world w' \<and> spare_fd fd w'"
proof -
  obtain s where fs: "sys_open path creat (os w) = (fd, s)" and w': "w' = w\<lparr>os := s\<rparr>"
    using assms(2) by (auto simp: sysc_def split: prod.splits)
  note fresh = sys_open_fresh [OF wf_worldD(1) [OF assms(1)] fs assms(3)]
  have "vs_fd vs \<noteq> fd" if "heap w a = Some vs" for a vs
    using wf_worldD(5) [OF assms(1) that] fresh(1) by auto
  with fresh(2) have "spare_fd fd w'" by (simp add: w' spare_fd_def)
  moreover have "wf_world w'" using keeps_sys_open assms(1,2) by (rule keepsD)
  ultimately show ?thesis by simp
qed

lemma wf_world_attach:
  assumes w: "wf_world w" "spare_fd (vs_fd v) w" and a: "unat a = brk w" "a \<noteq> 0"
  shows "wf_world (w\<lparr>boost := b, heap := (heap w)(a \<mapsto> v), brk := Suc (brk w)\<rparr>)"
proof -
  have "unat c < Suc (brk w)" if "heap w c = Some vs" for c vs
    using wf_worldD(4) [OF w(1) that] by simp
  moreover have "os_fds (os w) (vs_fd v) \<noteq> None" "heap w c = Some vs \<Longrightarrow> vs_fd vs \<noteq> vs_fd v" for c vs
    using w(2) by (auto simp: spare_fd_def)
  moreover note wf_worldD [OF w(1)]
  ultimately show ?thesis
    unfolding wf_world_def using a by (auto split: if_splits) metis
qed

lemma new_address:
  assumes "wf_world w" "brk w < 2 ^ 64"
  shows "unat (word_of_nat (brk w) :: u64) = brk w" "word_of_nat (brk w) \<noteq> (0 :: u64)"
proof -
  show u: "unat (word_of_nat (brk w) :: u64) = brk w"
    using assms(2) by (simp add: unsigned_of_nat take_bit_eq_mod)
  show "word_of_nat (brk w) \<noteq> (0 :: u64)"
  proof
    assume "word_of_nat (brk w) = (0 :: u64)"
    with u wf_worldD(2) [OF assms(1)] show False by simp
  qed
qed

lemma new_VolumeState_keeps:
  assumes w: "wf_world w" "spare_fd fd w" and run: "new_VolumeState M nm vid fd rq w = (r, w')"
  shows "wf_world w'"
proof (cases "brk w < 2 ^ 64")
  case True
  obtain x b where op: "mq_open_only M rq (boost w) = (x, b)" by fastforce
  have "wf_world (w\<lparr>boost := b\<rparr>)" using w(1) by (simp add: wf_world_def)
  with wf_world_attach [OF w(1) _ new_address [OF w(1) True], of "\<lparr>vs_volume_name = nm, vs_volume_id = vid, vs_fd = fd, vs_reply_mq = y\<rparr>" b for y]
    w(2) run op True show ?thesis
    by (cases x) (auto simp: new_VolumeState_def mqc_def cmd_simps)
next
  case False
  then show ?thesis using run w by (simp add: new_VolumeState_def cmd_simps)
qed

lemma ioh_open_attach_keeps:
  fixes w :: "'b world"
  assumes "wf_world w" "spare_fd fd w"
  shows "wf_world (snd (ioh_open_attach M req nm fd w))"
proof (cases "cstr req reply_mq_name_at (request_size - reply_mq_name_at)")
  case (Some rq)
  obtain r1 w1 where new: "new_VolumeState M nm 0 fd rq w = (r1, w1)" by fastforce
  have k: "keeps (wf_world :: 'b world \<Rightarrow> bool) (cbind (sysc (sys_ftruncate fd (2 ^ 34))) (\<lambda>r.
     if r < 0 then cbind errno (\<lambda>e. ret (- e, vol)) else ret (fd, vol)))" for vol :: u64
    by (intro keeps_intros)
  have "wf_world w1" using new_VolumeState_keeps [OF assms new] .
  then show ?thesis
    using k [unfolded keeps_def] new
    by (cases r1) (simp_all add: ioh_open_attach_def req_cstr_def Some cbind_RetI cbind_FailI)
qed (use assms in \<open>simp add: ioh_open_attach_def req_cstr_def cmd_simps\<close>)

lemma keeps_ioh_open_body [keeps_intros]:
  fixes M :: "'b boost_mq"
  shows "keeps wf_world (ioh_open_body M req)"
  unfolding keeps_def
proof (intro allI impI)
  fix w :: "'b world"
  assume w: "wf_world w"
  have attach: "wf_world (snd (cbind (sysc (sys_open path creat)) (\<lambda>r. if r < 0 then m else ioh_open_attach M req nm r) v))"
    if "wf_world v" "keeps wf_world m" for path creat m nm and v :: "'b world"
  proof -
    obtain r1 v1 where run: "sysc (sys_open path creat) v = (Ret r1, v1)"
      by (cases "sys_open path creat (os v)") (simp add: sysc_def)
    have "wf_world v1" using keepsD [OF keeps_sys_open that(1) run] .
    then show ?thesis
      using that(2) sys_open_spare [OF that(1) run]
      by (auto simp: cbind_RetI run keeps_def intro: ioh_open_attach_keeps)
  qed
  have create: "keeps wf_world (cbind errno (\<lambda>e. cbind (assert (e = ENOENT)) (\<lambda>_.
      cbind (sysc (sys_open path True)) (\<lambda>r. if r < 0 then cbind errno (\<lambda>e. ret (- e, 0))
        else ioh_open_attach M req nm r))))" for path nm
    by (rule keeps_cbind [OF keeps_errno], rule keeps_cbind [OF keeps_assert])
      (simp add: keeps_def [of wf_world "cbind (sysc (sys_open _ _)) _"] attach keeps_intros)
  show "wf_world (snd (ioh_open_body M req w))"
    using w attach [OF w create]
    by (simp add: ioh_open_body_def req_cstr_def fail_run split: option.split)
qed

lemma keeps_case_prod [keeps_intros]: "(\<And>a b. keeps P (f a b)) \<Longrightarrow> keeps P (case x of (a, b) \<Rightarrow> f a b)"
  by (cases x) simp

lemma keeps_Let [keeps_intros]: "keeps P (f x) \<Longrightarrow> keeps P (let y = x in f y)"
  by simp

lemma ioh_keeps:
  "keeps wf_world (ioh_open M req reply)" "keeps wf_world (ioh_close req)"
  "keeps wf_world (ioh_getsize M req reply)" "keeps wf_world (ioh_fsync M req reply)"
  "keeps wf_world (ioh_write req)" "keeps wf_world (ioh_read M req reply)"
  unfolding ioh_open_def ioh_close_def ioh_getsize_def ioh_fsync_def ioh_write_def ioh_read_def
  by (intro keeps_intros)+

section \<open>What the operations do\<close>

text \<open>The relation between a live volume of the server and the disk it stores.\<close>

definition ioh_volume :: "'b boost_mq \<Rightarrow> 'b world \<Rightarrow> u64 \<Rightarrow> mqid \<Rightarrow> disk \<Rightarrow> bool" where
  "ioh_volume M w v q d \<longleftrightarrow> v \<noteq> 0 \<and> mq_laws M \<and>
     os_script (os w) = [] \<and> mq_limits M (boost w) q = (max_queue_size, reply_size) \<and>
     (\<exists>vs p f. heap w v = Some vs \<and> vs_reply_mq vs = q \<and> fd_file (os w) (vs_fd vs) = Some (p, f) \<and>
        d_size d = file_size f \<and> d_bytes d = file_bytes f)"

lemma ioh_volumeE:
  assumes "ioh_volume M w v q d"
  obtains vs p f where "v \<noteq> 0" "mq_laws M" "os_script (os w) = []"
    "mq_limits M (boost w) q = (max_queue_size, reply_size)"
    "heap w v = Some vs" "vs_reply_mq vs = q" "fd_file (os w) (vs_fd vs) = Some (p, f)"
    "d = \<lparr>d_size = file_size f, d_bytes = file_bytes f\<rparr>"
  using assms by (auto simp: ioh_volume_def)

lemma ioh_volume_frame:
  "ioh_volume M w v q d \<Longrightarrow> mq_changes M (boost w) q' ms b \<Longrightarrow> ioh_volume M (w\<lparr>boost := b\<rparr>) v q d"
  by (auto simp: ioh_volume_def mq_changes_def)

text \<open>A send to a queue with room for it.\<close>

lemma mqc_send_run:
  assumes "mq_laws M" "msg_size m \<le> snd (mq_limits M (boost w) q)" "\<not> mq_full M (boost w) q"
  obtains b where "mqc (mq_send M q m 0) w = (Ret (), w\<lparr>boost := b\<rparr>)"
    "mq_changes M (boost w) q (mq_contents M (boost w) q @ [m]) b"
proof -
  from mq_sendE [OF assms] obtain b where "mq_send M q m 0 (boost w) = (MQ_ok (), b)"
    "mq_changes M (boost w) q (mq_contents M (boost w) q @ [m]) b" .
  then show thesis by (intro that [of b]) (simp_all add: mqc_def)
qed

lemma deref_run: "heap w v = Some vs \<Longrightarrow> v \<noteq> 0 \<Longrightarrow> deref v w = (Ret vs, w)"
  by (simp add: deref_def)

lemma fd_file_put: "fd_file s fd = Some (p, f) \<Longrightarrow> fd_file (put_file p g s) fd = Some (p, g)"
  by (auto simp: fd_file_def put_file_def split: Option.bind_splits)

lemma ioh_write_run:
  assumes "ioh_volume M w v q d" "h_volume (get_header req) = v"
    and "0 \<le> sint (req_offset req)" "unat (req_size req) \<le> max_data_size"
    and "nat (sint (req_offset req)) + unat (req_size req) \<le> d_size d"
  shows "\<exists>w'. ioh_write req w = (Ret (), w') \<and> boost w' = boost w \<and>
    ioh_volume M w' v q (disk_write d (nat (sint (req_offset req))) req write_data_at (unat (req_size req)))"
proof -
  from assms(1) obtain vs p f where v: "v \<noteq> 0" "mq_laws M" "os_script (os w) = []"
    "mq_limits M (boost w) q = (max_queue_size, reply_size)"
    "heap w v = Some vs" "vs_reply_mq vs = q" "fd_file (os w) (vs_fd vs) = Some (p, f)"
    "d = \<lparr>d_size = file_size f, d_bytes = file_bytes f\<rparr>" by (rule ioh_volumeE)
  define g where "g = file_write f (nat (sint (req_offset req))) (\<lambda>i. req (write_data_at + i)) (unat (req_size req))"
  have run: "ioh_write req w = (Ret (), w\<lparr>os := put_file p g (os w)\<rparr>)"
    using v assms(2-4)
    by (simp add: ioh_write_def deref_run cmd_simps sysc_def sys_pwrite_def next_result_def moved_def g_def)
  have g: "file_size g = d_size d"
    "file_bytes g = memcpy (d_bytes d) (nat (sint (req_offset req))) req write_data_at (unat (req_size req))"
    using assms(5) v(8)
    by (auto simp: g_def file_write_size file_write_bytes memcpy_def fun_eq_iff)
  have "ioh_volume M (w\<lparr>os := put_file p g (os w)\<rparr>) v q
      (disk_write d (nat (sint (req_offset req))) req write_data_at (unat (req_size req)))"
    using v g fd_file_put [OF v(7), of g]
    by (auto simp: ioh_volume_def disk_write_def put_file_def)
  with run show ?thesis by simp
qed

text \<open>The reply to a read: the request's header, the size, and the bytes of the disk.\<close>

definition is_read_reply :: "mem \<Rightarrow> mem \<Rightarrow> disk \<Rightarrow> bool" where
  "is_read_reply req reply d \<longleftrightarrow>
     get_header reply = get_header req \<and> get64 reply 32 = req_size req \<and>
     (\<forall>i < unat (req_size req). reply (read_data_at + i) = d_bytes d (nat (sint (req_offset req)) + i))"

lemma ioh_read_run:
  assumes "ioh_volume M w v q d" "h_volume (get_header req) = v" "\<not> mq_full M (boost w) q"
    and "0 \<le> sint (req_offset req)" "unat (req_size req) \<le> max_data_size"
    and "nat (sint (req_offset req)) + unat (req_size req) \<le> d_size d"
  shows "\<exists>w' reply'. ioh_read M req reply w = (Ret reply', w') \<and> is_read_reply req reply' d \<and>
    mq_changes M (boost w) q (mq_contents M (boost w) q @ [mk_message reply' readreply_size]) (boost w') \<and>
    ioh_volume M w' v q d"
proof -
  from assms(1) obtain vs p f where v: "v \<noteq> 0" "mq_laws M" "os_script (os w) = []"
    "mq_limits M (boost w) q = (max_queue_size, reply_size)"
    "heap w v = Some vs" "vs_reply_mq vs = q" "fd_file (os w) (vs_fd vs) = Some (p, f)"
    "d = \<lparr>d_size = file_size f, d_bytes = file_bytes f\<rparr>" by (rule ioh_volumeE)
  define n where "n = unat (req_size req)"
  define off where "off = nat (sint (req_offset req))"
  define reply' where "reply' = put64 (put_header (memcpy reply read_data_at (\<lambda>i. file_bytes f (off + i)) 0 n)
    (get_header req)) 32 (req_size req)"
  have "min n (file_size f - off) = n" using assms(6) v(8) by (simp add: n_def off_def)
  then have pread: "sysc (sys_pread (vs_fd vs) n (sint (req_offset req))) w = (Ret (int n, \<lambda>i. file_bytes f (off + i)), w)"
    using v(3,7) assms(4) by (simp add: sysc_def sys_pread_def next_result_def moved_def off_def)
  from mqc_send_run [of M "mk_message reply' readreply_size" w q] v assms(3) obtain b where
    send: "mqc (mq_send M q (mk_message reply' readreply_size) 0) w = (Ret (), w\<lparr>boost := b\<rparr>)"
      "mq_changes M (boost w) q (mq_contents M (boost w) q @ [mk_message reply' readreply_size]) b"
    using reply_fits by auto
  have "ioh_read M req reply w = (Ret reply', w\<lparr>boost := b\<rparr>)"
    using v assms(2,5) pread send(1)
    by (simp add: ioh_read_def deref_run cmd_simps n_def reply'_def Let_def)
  moreover have "is_read_reply req reply' d"
    using v(8) by (simp add: is_read_reply_def reply'_def mem_simps size_defs n_def off_def)
  ultimately show ?thesis using send(2) ioh_volume_frame [OF assms(1) send(2)] by auto
qed

text \<open>The reply to a size query.\<close>

definition is_getsize_reply :: "mem \<Rightarrow> mem \<Rightarrow> disk \<Rightarrow> bool" where
  "is_getsize_reply req reply d \<longleftrightarrow>
     get_header reply = get_header req \<and> get64 reply 32 = word_of_nat (d_size d)"

lemma ioh_getsize_run:
  assumes "ioh_volume M w v q d" "h_volume (get_header req) = v" "\<not> mq_full M (boost w) q"
  shows "\<exists>w' reply'. ioh_getsize M req reply w = (Ret reply', w') \<and> is_getsize_reply req reply' d \<and>
    mq_changes M (boost w) q (mq_contents M (boost w) q @ [mk_message reply' getsizereply_size]) (boost w') \<and>
    ioh_volume M w' v q d"
proof -
  from assms(1) obtain vs p f where v: "v \<noteq> 0" "mq_laws M" "os_script (os w) = []"
    "mq_limits M (boost w) q = (max_queue_size, reply_size)"
    "heap w v = Some vs" "vs_reply_mq vs = q" "fd_file (os w) (vs_fd vs) = Some (p, f)"
    "d = \<lparr>d_size = file_size f, d_bytes = file_bytes f\<rparr>" by (rule ioh_volumeE)
  define reply' where "reply' = put64 (put_header reply (get_header req)) 32 (word_of_nat (file_size f))"
  from mqc_send_run [of M "mk_message reply' getsizereply_size" w q] v assms(3) obtain b where
    send: "mqc (mq_send M q (mk_message reply' getsizereply_size) 0) w = (Ret (), w\<lparr>boost := b\<rparr>)"
      "mq_changes M (boost w) q (mq_contents M (boost w) q @ [mk_message reply' getsizereply_size]) b"
    using reply_fits by auto
  have "ioh_getsize M req reply w = (Ret reply', w\<lparr>boost := b\<rparr>)"
    using v assms(2) send(1)
    by (simp add: ioh_getsize_def deref_run cmd_simps sysc_def sys_fstat_def next_result_def reply'_def Let_def)
  moreover have "is_getsize_reply req reply' d"
    using v(8) by (simp add: is_getsize_reply_def reply'_def mem_simps size_defs)
  ultimately show ?thesis using send(2) ioh_volume_frame [OF assms(1) send(2)] by auto
qed

text \<open>The reply to a flush that succeeded.\<close>

definition is_fsync_reply :: "mem \<Rightarrow> mem \<Rightarrow> bool" where
  "is_fsync_reply req reply \<longleftrightarrow> get_header reply = get_header req \<and> get32 reply 32 = 0"

lemma ioh_fsync_run:
  assumes "ioh_volume M w v q d" "h_volume (get_header req) = v" "\<not> mq_full M (boost w) q"
  shows "\<exists>w' reply'. ioh_fsync M req reply w = (Ret reply', w') \<and> is_fsync_reply req reply' \<and>
    mq_changes M (boost w) q (mq_contents M (boost w) q @ [mk_message reply' getsizereply_size]) (boost w') \<and>
    ioh_volume M w' v q d"
proof -
  from assms(1) obtain vs p f where v: "v \<noteq> 0" "mq_laws M" "os_script (os w) = []"
    "mq_limits M (boost w) q = (max_queue_size, reply_size)"
    "heap w v = Some vs" "vs_reply_mq vs = q" "fd_file (os w) (vs_fd vs) = Some (p, f)"
    "d = \<lparr>d_size = file_size f, d_bytes = file_bytes f\<rparr>" by (rule ioh_volumeE)
  define reply' where "reply' = put32 (put_header reply (get_header req)) 32 0"
  from mqc_send_run [of M "mk_message reply' getsizereply_size" w q] v assms(3) obtain b where
    send: "mqc (mq_send M q (mk_message reply' getsizereply_size) 0) w = (Ret (), w\<lparr>boost := b\<rparr>)"
      "mq_changes M (boost w) q (mq_contents M (boost w) q @ [mk_message reply' getsizereply_size]) b"
    using reply_fits by auto
  have "ioh_fsync M req reply w = (Ret reply', w\<lparr>boost := b\<rparr>)"
    using v assms(2) send(1)
    by (simp add: ioh_fsync_def deref_run cmd_simps sysc_def sys_fsync_def next_result_def errno_def reply'_def Let_def)
  moreover have "is_fsync_reply req reply'"
    by (simp add: is_fsync_reply_def reply'_def mem_simps size_defs)
  ultimately show ?thesis using send(2) ioh_volume_frame [OF assms(1) send(2)] by auto
qed

text \<open>The disk a volume of that name holds: the file cut or grown to 16 GiB, zeros if it is new.\<close>

definition opened_disk :: "os \<Rightarrow> string \<Rightarrow> disk" where
  "opened_disk s nm =
     \<lparr>d_size = 2 ^ 34,
      d_bytes = (\<lambda>i. if i < 2 ^ 34 then (case os_files s (volume_path nm) of None \<Rightarrow> 0 | Some f \<Rightarrow> file_bytes f i) else 0)\<rparr>"

definition is_open_reply :: "mem \<Rightarrow> mem \<Rightarrow> u64 \<Rightarrow> bool" where
  "is_open_reply req reply v \<longleftrightarrow>
     get_header reply = (get_header req)\<lparr>h_volume := v\<rparr> \<and> get64 reply 32 = v \<and> get32 reply 40 = 0"

text \<open>The file after both attempts to open it, with the descriptor that refers to it.\<close>

lemma ioh_open_body_run:
  assumes w: "wf_world w" "os_script (os w) = []"
    and nm: "cstr req volume_name_at (request_size - volume_name_at) = Some nm"
  shows "\<exists>s fd f. ioh_open_body M req w = ioh_open_attach M req nm fd (w\<lparr>os := s\<rparr>) \<and>
    fd = os_next_fd (os w) \<and> os_script s = [] \<and> fd_file s fd = Some (volume_path nm, f) \<and>
    file_bytes f = (case os_files (os w) (volume_path nm) of None \<Rightarrow> (\<lambda>_. 0) | Some g \<Rightarrow> file_bytes g)"
proof (cases "os_files (os w) (volume_path nm)")
  case None
  define s where "s = snd (new_fd (volume_path nm) ((os w)\<lparr>os_errno := ENOENT, os_files :=
    (os_files (os w))(volume_path nm \<mapsto> \<lparr>file_size = 0, file_data = (\<lambda>_. 0)\<rparr>)\<rparr>))"
  have "0 \<le> os_next_fd (os w)" using wf_worldD(1) [OF w(1)] by (simp add: wf_os_def)
  then have "ioh_open_body M req w = ioh_open_attach M req nm (os_next_fd (os w)) (w\<lparr>os := s\<rparr>)"
    using None w(2) nm
    by (simp add: ioh_open_body_def req_cstr_def cbind_run sysc_def sys_open_def next_result_def sys_fail_def
        errno_def gets_run assert_run new_fd_def s_def)
  then show ?thesis
    using None w(2)
    by (intro exI [of _ s] exI [of _ "os_next_fd (os w)"] exI [of _ "\<lparr>file_size = 0, file_data = (\<lambda>_. 0)\<rparr>"])
      (simp add: s_def new_fd_def fd_file_def file_bytes_def)
next
  case (Some f)
  define s where "s = snd (new_fd (volume_path nm) (os w))"
  have "0 \<le> os_next_fd (os w)" using wf_worldD(1) [OF w(1)] by (simp add: wf_os_def)
  then have "ioh_open_body M req w = ioh_open_attach M req nm (os_next_fd (os w)) (w\<lparr>os := s\<rparr>)"
    using Some w(2) nm
    by (simp add: ioh_open_body_def req_cstr_def cbind_run sysc_def sys_open_def next_result_def new_fd_def s_def)
  then show ?thesis
    using Some w(2)
    by (intro exI [of _ s] exI [of _ "os_next_fd (os w)"] exI [of _ f]) (simp add: s_def new_fd_def fd_file_def)
qed

lemma ioh_open_attach_run:
  assumes laws: "mq_laws M" "mq_names M (boost w) rq = Some q" and brk: "brk w < 2 ^ 64" "0 \<le> fd"
    and s: "os_script (os w) = []" "fd_file (os w) fd = Some (p, f)"
    and rq: "cstr req reply_mq_name_at (request_size - reply_mq_name_at) = Some rq"
  shows "ioh_open_attach M req nm fd w = (Ret (fd, word_of_nat (brk w)),
    w\<lparr>os := put_file p (file_truncate f (2 ^ 34)) (os w),
      heap := (heap w)(word_of_nat (brk w) \<mapsto>
        \<lparr>vs_volume_name = nm, vs_volume_id = 0, vs_fd = fd, vs_reply_mq = q\<rparr>), brk := Suc (brk w)\<rparr>)"
  using assms
  by (simp add: ioh_open_attach_def req_cstr_def new_VolumeState_def cmd_simps mqc_def mq_open_run
      sysc_def sys_ftruncate_def next_result_def)

lemma ioh_open_run:
  assumes w: "wf_world w" "os_script (os w) = []" "brk w < 2 ^ 64"
    and laws: "mq_laws M" "mq_names M (boost w) rq = Some q"
      "mq_limits M (boost w) q = (max_queue_size, reply_size)" "\<not> mq_full M (boost w) q"
    and req: "cstr req volume_name_at (request_size - volume_name_at) = Some nm"
      "cstr req reply_mq_name_at (request_size - reply_mq_name_at) = Some rq"
  shows "\<exists>w' reply'. ioh_open M req reply w = (Ret reply', w') \<and> is_open_reply req reply' (word_of_nat (brk w)) \<and>
    mq_changes M (boost w) q (mq_contents M (boost w) q @ [mk_message reply' openreply_size]) (boost w') \<and>
    ioh_volume M w' (word_of_nat (brk w)) q (opened_disk (os w) nm)"
proof -
  from ioh_open_body_run [OF w(1,2) req(1), of M] obtain s fd f where
    s: "ioh_open_body M req w = ioh_open_attach M req nm fd (w\<lparr>os := s\<rparr>)" "fd = os_next_fd (os w)"
      "os_script s = []" "fd_file s fd = Some (volume_path nm, f)"
      "file_bytes f = (case os_files (os w) (volume_path nm) of None \<Rightarrow> (\<lambda>_. 0) | Some g \<Rightarrow> file_bytes g)" by blast
  define v :: u64 where "v = word_of_nat (brk w)"
  have v: "v \<noteq> 0" using new_address [OF w(1,3)] by (simp add: v_def)
  have fd: "0 \<le> fd" using wf_worldD(1) [OF w(1)] by (simp add: wf_os_def s(2))
  define vs where "vs = \<lparr>vs_volume_name = nm, vs_volume_id = 0, vs_fd = fd, vs_reply_mq = q\<rparr>"
  define w1 where "w1 = w\<lparr>os := put_file (volume_path nm) (file_truncate f (2 ^ 34)) s,
    heap := (heap w)(v \<mapsto> vs), brk := Suc (brk w)\<rparr>"
  define reply' where "reply' = ioh_open_reply req reply fd v"
  have bytes: "file_size (file_truncate f (2 ^ 34)) = d_size (opened_disk (os w) nm)"
    "file_bytes (file_truncate f (2 ^ 34)) = d_bytes (opened_disk (os w) nm)"
    using s(5) by (auto simp: opened_disk_def file_truncate_def file_bytes_def [of "\<lparr>file_size = _, file_data = _\<rparr>"]
        fun_eq_iff split: option.splits)
  have body: "ioh_open_body M req w = (Ret (fd, v), w1)"
    using ioh_open_attach_run [of M "w\<lparr>os := s\<rparr>" rq q fd "volume_path nm" f req nm] laws w fd s req
    by (simp add: w1_def vs_def v_def)
  from mqc_send_run [of M "mk_message reply' openreply_size" w1 q] laws obtain b where
    send: "mqc (mq_send M q (mk_message reply' openreply_size) 0) w1 = (Ret (), w1\<lparr>boost := b\<rparr>)"
      "mq_changes M (boost w) q (mq_contents M (boost w) q @ [mk_message reply' openreply_size]) b"
    using reply_fits by (auto simp: w1_def)
  have "ioh_open M req reply w = (Ret reply', w1\<lparr>boost := b\<rparr>)"
    using body v fd send(1)
    by (simp add: ioh_open_def cbind_RetI deref_def w1_def [THEN arg_cong [of _ _ heap], simplified] vs_def
        reply'_def Let_def ret_run)
  moreover have "is_open_reply req reply' v"
    using fd by (simp add: is_open_reply_def reply'_def ioh_open_reply_def mem_simps size_defs)
  moreover have "ioh_volume M (w1\<lparr>boost := b\<rparr>) v q (opened_disk (os w) nm)"
    using v laws s(3) send(2) fd_file_put [OF s(4), of "file_truncate f (2 ^ 34)"] bytes
    by (auto simp: ioh_volume_def w1_def vs_def put_file_def opened_disk_def mq_changes_def)
  ultimately show ?thesis using send(2) by (auto simp: v_def w1_def)
qed

end
