(* ===== verification/Shm_Server.thy ===== *)
theory Shm_Server
  imports Io_Handler
begin

text \<open>
  \<open>src/SharedMemServer.h\<close>: the class template \<open>SharedMemServer<Handler>\<close>. Its constructor creates
  the request queues and starts one thread per queue; a thread runs \<open>handle_requests\<close>, which takes
  requests from its queue and calls the handler's operation for the request's type, until a
  request with \<open>stop\<close> set arrives; the destructor sends such a request. The template parameter is
  the record \<open>handler_ops\<close>; what the server's clients rely on is the locale \<open>storage_handler\<close>,
  interpreted with the operations of \<open>src/server.c\<close>.
\<close>

section \<open>The template parameter\<close>

record 'b handler_ops =
  hd_write :: "mem \<Rightarrow> ('b world, unit) cmd"
  hd_read :: "mem \<Rightarrow> mem \<Rightarrow> ('b world, mem) cmd"
  hd_open :: "mem \<Rightarrow> mem \<Rightarrow> ('b world, mem) cmd"
  hd_close :: "mem \<Rightarrow> ('b world, unit) cmd"
  hd_getsize :: "mem \<Rightarrow> mem \<Rightarrow> ('b world, mem) cmd"
  hd_fsync :: "mem \<Rightarrow> mem \<Rightarrow> ('b world, mem) cmd"

definition IOHandler :: "'b boost_mq \<Rightarrow> 'b handler_ops" where
  "IOHandler M =
     \<lparr>hd_write = ioh_write, hd_read = ioh_read M, hd_open = ioh_open M, hd_close = ioh_close,
      hd_getsize = ioh_getsize M, hd_fsync = ioh_fsync M\<rparr>"

section \<open>The request loop\<close>

text \<open>The chain of tests on \<open>header->type\<close>; the result is the reply buffer. An unknown type is reported.\<close>

definition dispatch :: "'b handler_ops \<Rightarrow> mem \<Rightarrow> mem \<Rightarrow> ('b world, mem) cmd" where
  "dispatch H req reply =
     (let type = h_type (get_header req) in
      if type = type_code REQ_WRITE then cbind (hd_write H req) (\<lambda>_. ret reply)
      else if type = type_code REQ_READ then hd_read H req reply
      else if type = type_code REQ_OPEN then hd_open H req reply
      else if type = type_code REQ_CLOSE then cbind (hd_close H req) (\<lambda>_. ret reply)
      else if type = type_code REQ_GETSIZE then hd_getsize H req reply
      else if type = type_code REQ_FSYNC then hd_fsync H req reply
      else ret reply)"

text \<open>
  A server thread: its two message buffers, and whether it runs, has returned, or has taken the
  process down (an exception that leaves the thread function terminates it).
\<close>

datatype thread_state = Running | Returned | Dead failure

record thread =
  th_request_msg :: mem
  th_reply_msg :: mem
  th_state :: thread_state

text \<open>
  \<open>handle_requests\<close>: at most \<open>fuel\<close> turns of the loop. With an empty queue the thread waits, still
  running.
\<close>

fun handle_requests :: "nat \<Rightarrow> 'b boost_mq \<Rightarrow> 'b handler_ops \<Rightarrow> mqid \<Rightarrow> thread \<Rightarrow> 'b world \<Rightarrow> thread \<times> 'b world" where
  "handle_requests 0 M H q t w = (t, w)"
| "handle_requests (Suc fuel) M H q t w =
     (if th_state t \<noteq> Running then (t, w)
      else case mq_receive M q request_size (boost w) of
        (MQ_block, b) \<Rightarrow> (t, w\<lparr>boost := b\<rparr>)
      | (MQ_throw e, b) \<Rightarrow> (t\<lparr>th_state := Dead (Throw e)\<rparr>, w\<lparr>boost := b\<rparr>)
      | (MQ_ok msg, b) \<Rightarrow>
          (let req = recv_into (th_request_msg t) msg in
           if h_stop (get_header req) then (t\<lparr>th_request_msg := req, th_state := Returned\<rparr>, w\<lparr>boost := b\<rparr>)
           else case dispatch H req (th_reply_msg t) (w\<lparr>boost := b\<rparr>) of
             (Ret reply, w') \<Rightarrow> handle_requests fuel M H q (t\<lparr>th_request_msg := req, th_reply_msg := reply\<rparr>) w'
           | (Fail e, w') \<Rightarrow> (t\<lparr>th_request_msg := req, th_state := Dead e\<rparr>, w')))"

section \<open>The server object\<close>

text \<open>\<open>request_mqs_\<close> holds \<open>unique_ptr\<close>s: \<open>None\<close> is a null one, left by \<open>reset ()\<close>.\<close>

record 'b server =
  sv_request_mqs :: "mqid option list"
  sv_threads :: "thread list"
  sv_world :: "'b world"

text \<open>\<open>str << i << vd_request_mq_name_format\<close>.\<close>

fun show_nat :: "nat \<Rightarrow> string" where
  "show_nat n = (if n < 10 then [char_of (48 + n)] else show_nat (n div 10) @ [char_of (48 + n mod 10)])"

definition request_mq_name :: "nat \<Rightarrow> string" where
  "request_mq_name i = show_nat i @ vd_request_mq_name_format"

text \<open>A thread run, with the queue \<open>request_mqs_.at (index)\<close>; a null pointer there is undefined.\<close>

definition run_thread :: "nat \<Rightarrow> 'b boost_mq \<Rightarrow> 'b handler_ops \<Rightarrow> nat \<Rightarrow> 'b server \<Rightarrow> 'b server" where
  "run_thread fuel M H i s =
     (if i < length (sv_threads s) \<and> i < length (sv_request_mqs s) \<and> th_state (sv_threads s ! i) = Running then
        (case sv_request_mqs s ! i of
           None \<Rightarrow> s\<lparr>sv_threads := (sv_threads s)[i := (sv_threads s ! i)\<lparr>th_state := Dead Undef\<rparr>]\<rparr>
         | Some q \<Rightarrow>
             (case handle_requests fuel M H q (sv_threads s ! i) (sv_world s) of
                (t, w) \<Rightarrow> s\<lparr>sv_threads := (sv_threads s)[i := t], sv_world := w\<rparr>))
      else s)"

text \<open>The threads take turns, each until it waits, returns or dies.\<close>

definition server_run :: "nat \<Rightarrow> 'b boost_mq \<Rightarrow> 'b handler_ops \<Rightarrow> 'b server \<Rightarrow> 'b server" where
  "server_run fuel M H s = fold (run_thread fuel M H) [0..<length (sv_threads s)] s"

text \<open>The constructor. The new message buffers hold whatever was in the memory they got.\<close>

fun create_request_mqs :: "'b boost_mq \<Rightarrow> nat list \<Rightarrow> ('b world, mqid option list) cmd" where
  "create_request_mqs M [] = ret []"
| "create_request_mqs M (i # is) =
     cbind (mqr (mq_remove M (request_mq_name i))) (\<lambda>_.
     cbind (mqc (mq_create_only M (request_mq_name i) max_queue_size request_size)) (\<lambda>q.
     cbind (create_request_mqs M is) (\<lambda>qs.
     ret (Some q # qs))))"

definition SharedMemServer_new :: "'b boost_mq \<Rightarrow> mem \<Rightarrow> nat \<Rightarrow> ('b world, 'b server) cmd" where
  "SharedMemServer_new M stray num_mq =
     cbind (create_request_mqs M [0..<num_mq]) (\<lambda>qs.
     gets (\<lambda>w. \<lparr>sv_request_mqs = qs,
       sv_threads = replicate num_mq \<lparr>th_request_msg = stray, th_reply_msg = stray, th_state = Running\<rparr>,
       sv_world = w\<rparr>))"

text \<open>
  \<open>getStopRequest<Header> ()\<close> points to a \<open>Header\<close> of 32 bytes, but \<open>n\<close> bytes are sent from there. To read
  past the object is undefined (\<open>behind = None\<close>); where the machine lets the read through, the
  message continues with the bytes it finds behind the object (\<open>behind = Some m\<close>).
\<close>

definition stop_message :: "nat \<Rightarrow> mem \<Rightarrow> message" where
  "stop_message n m = mk_message (put_header m (Header_default\<lparr>h_stop := True\<rparr>)) n"

definition stop_request :: "nat \<Rightarrow> mem option \<Rightarrow> ('s, message) cmd" where
  "stop_request n behind =
     (if n \<le> header_size then ret (stop_message n (\<lambda>_. 0))
      else case behind of None \<Rightarrow> fail Undef | Some m \<Rightarrow> ret (stop_message n m))"

lemma stop_request_run:
  "stop_request request_size behind = (case behind of None \<Rightarrow> fail Undef | Some m \<Rightarrow> ret (stop_message request_size m))"
  "stop_request reply_size behind = (case behind of None \<Rightarrow> fail Undef | Some m \<Rightarrow> ret (stop_message reply_size m))"
proof -
  have "\<not> request_size \<le> header_size" "\<not> reply_size \<le> header_size" by (simp_all add: size_defs)
  then show "stop_request request_size behind = (case behind of None \<Rightarrow> fail Undef | Some m \<Rightarrow> ret (stop_message request_size m))"
    "stop_request reply_size behind = (case behind of None \<Rightarrow> fail Undef | Some m \<Rightarrow> ret (stop_message reply_size m))"
    by (simp_all add: stop_request_def)
qed

text \<open>Join a thread: it must have returned once it has run.\<close>

definition join_thread :: "nat \<Rightarrow> 'b boost_mq \<Rightarrow> 'b handler_ops \<Rightarrow> nat \<Rightarrow> ('b server, unit) cmd" where
  "join_thread fuel M H i =
     cbind (modify (run_thread fuel M H i)) (\<lambda>_.
     cbind (gets (\<lambda>s. th_state (sv_threads s ! i))) (\<lambda>st.
     case st of Returned \<Rightarrow> ret () | Running \<Rightarrow> fail Hang | Dead e \<Rightarrow> fail e))"

fun join_threads :: "nat \<Rightarrow> 'b boost_mq \<Rightarrow> 'b handler_ops \<Rightarrow> nat list \<Rightarrow> ('b server, unit) cmd" where
  "join_threads fuel M H [] = ret ()"
| "join_threads fuel M H (i # is) = cbind (join_thread fuel M H i) (\<lambda>_. join_threads fuel M H is)"

definition handle_requests_thread_join :: "nat \<Rightarrow> 'b boost_mq \<Rightarrow> 'b handler_ops \<Rightarrow> ('b server, unit) cmd" where
  "handle_requests_thread_join fuel M H =
     cbind (gets (\<lambda>s. [0..<length (sv_threads s)])) (join_threads fuel M H)"

text \<open>
  The first loop of the destructor, for queue \<open>i\<close>: send the stop request, drop the queue object
  and remove its name. With \<open>early\<close>, the thread of the queue gets to run before the object is
  dropped. Both failures are only reported.
\<close>

definition stop_queue :: "nat \<Rightarrow> 'b boost_mq \<Rightarrow> 'b handler_ops \<Rightarrow> mem option \<Rightarrow> bool \<Rightarrow> nat \<Rightarrow> ('b server, unit) cmd" where
  "stop_queue fuel M H behind early i =
     cbind (gets (\<lambda>s. sv_request_mqs s ! i)) (\<lambda>p.
     case p of None \<Rightarrow> fail Undef
     | Some q \<Rightarrow>
       cbind (stop_request request_size behind) (\<lambda>msg.
       cbind (zoom sv_world (\<lambda>w s. s\<lparr>sv_world := w\<rparr>) (mqc (mq_try_send M q msg 0))) (\<lambda>sent.
       cbind (if early then modify (run_thread fuel M H i) else ret ()) (\<lambda>_.
       cbind (modify (\<lambda>s. s\<lparr>sv_request_mqs := (sv_request_mqs s)[i := None]\<rparr>)) (\<lambda>_.
       cbind (zoom sv_world (\<lambda>w s. s\<lparr>sv_world := w\<rparr>) (mqr (mq_remove M (request_mq_name i)))) (\<lambda>removed.
       ret ()))))))"

fun stop_queues :: "nat \<Rightarrow> 'b boost_mq \<Rightarrow> 'b handler_ops \<Rightarrow> mem option \<Rightarrow> bool \<Rightarrow> nat list \<Rightarrow> ('b server, unit) cmd" where
  "stop_queues fuel M H behind early [] = ret ()"
| "stop_queues fuel M H behind early (i # is) =
     cbind (stop_queue fuel M H behind early i) (\<lambda>_. stop_queues fuel M H behind early is)"

definition SharedMemServer_delete :: "nat \<Rightarrow> 'b boost_mq \<Rightarrow> 'b handler_ops \<Rightarrow> mem option \<Rightarrow> bool \<Rightarrow> ('b server, unit) cmd" where
  "SharedMemServer_delete fuel M H behind early =
     cbind (gets (\<lambda>s. [0..<length (sv_request_mqs s)])) (\<lambda>is.
     cbind (stop_queues fuel M H behind early is) (\<lambda>_.
     handle_requests_thread_join fuel M H))"

text \<open>\<open>main\<close> of \<open>src/server.c\<close>, up to the end of the threads; \<open>return 0\<close> then runs the destructor.\<close>

definition server_main :: "nat \<Rightarrow> 'b boost_mq \<Rightarrow> mem \<Rightarrow> mem option \<Rightarrow> 'b world \<Rightarrow> int outcome \<times> 'b world" where
  "server_main fuel M stray behind =
     cbind (SharedMemServer_new M stray (unat max_queue_num)) (\<lambda>s w.
       case handle_requests_thread_join fuel M (IOHandler M) s of
         (Fail e, s') \<Rightarrow> (Fail e, sv_world s')
       | (Ret _, s') \<Rightarrow>
           (case SharedMemServer_delete fuel M (IOHandler M) behind True s' of
              (Fail e, s'') \<Rightarrow> (Fail e, sv_world s'')
            | (Ret _, s'') \<Rightarrow> (Ret 0, sv_world s'')))"

section \<open>Turns of the loop\<close>

lemma handle_requests_turn:
  assumes "mq_laws M" "th_state t = Running" "snd (mq_limits M (boost w) q) \<le> request_size"
    and "mq_contents M (boost w) q = msg # ms"
  obtains b where "mq_changes M (boost w) q ms b"
    "\<And>fuel. handle_requests (Suc fuel) M H q t w =
       (let req = recv_into (th_request_msg t) msg in
        if h_stop (get_header req) then (t\<lparr>th_request_msg := req, th_state := Returned\<rparr>, w\<lparr>boost := b\<rparr>)
        else case dispatch H req (th_reply_msg t) (w\<lparr>boost := b\<rparr>) of
          (Ret reply, w') \<Rightarrow> handle_requests fuel M H q (t\<lparr>th_request_msg := req, th_reply_msg := reply\<rparr>) w'
        | (Fail e, w') \<Rightarrow> (t\<lparr>th_request_msg := req, th_state := Dead e\<rparr>, w'))"
proof -
  from mq_receiveE [OF assms(1,3,4)] obtain b where
    "mq_receive M q request_size (boost w) = (MQ_ok msg, b)" "mq_changes M (boost w) q ms b" .
  then show thesis using assms(2) by (intro that [of b]) simp_all
qed

lemma handle_requests_wait:
  assumes "mq_laws M" "snd (mq_limits M (boost w) q) \<le> request_size" "mq_contents M (boost w) q = []"
  shows "handle_requests fuel M H q t w = (t, w)"
  using mq_receive_blocks [OF assms] by (cases fuel) simp_all

text \<open>A turn whose handler returns leaves the rest to the remaining fuel.\<close>

lemma handle_requests_next:
  assumes "mq_laws M" "th_state t = Running" "snd (mq_limits M (boost w) q) \<le> request_size"
    and "mq_contents M (boost w) q = msg # ms" "\<not> h_stop (get_header (recv_into (th_request_msg t) msg))"
    and "\<And>b. mq_changes M (boost w) q ms b \<Longrightarrow>
       \<exists>reply w'. dispatch H (recv_into (th_request_msg t) msg) (th_reply_msg t) (w\<lparr>boost := b\<rparr>) = (Ret reply, w') \<and> P b reply w'"
  obtains b reply w' where "mq_changes M (boost w) q ms b" "P b reply w'"
    "\<And>fuel. handle_requests (Suc fuel) M H q t w =
       handle_requests fuel M H q (t\<lparr>th_request_msg := recv_into (th_request_msg t) msg, th_reply_msg := reply\<rparr>) w'"
proof -
  from handle_requests_turn [OF assms(1-4), of H] obtain b where
    b: "mq_changes M (boost w) q ms b"
    and turn: "\<And>fuel. handle_requests (Suc fuel) M H q t w =
       (let req = recv_into (th_request_msg t) msg in
        if h_stop (get_header req) then (t\<lparr>th_request_msg := req, th_state := Returned\<rparr>, w\<lparr>boost := b\<rparr>)
        else case dispatch H req (th_reply_msg t) (w\<lparr>boost := b\<rparr>) of
          (Ret reply, w') \<Rightarrow> handle_requests fuel M H q (t\<lparr>th_request_msg := req, th_reply_msg := reply\<rparr>) w'
        | (Fail e, w') \<Rightarrow> (t\<lparr>th_request_msg := req, th_state := Dead e\<rparr>, w'))" by blast
  from assms(6) [OF b] obtain reply w' where
    "dispatch H (recv_into (th_request_msg t) msg) (th_reply_msg t) (w\<lparr>boost := b\<rparr>) = (Ret reply, w')" "P b reply w'"
    by blast
  with b turn assms(5) show thesis by (intro that [of b reply w']) (simp_all add: Let_def)
qed

section \<open>The contract of a handler\<close>

text \<open>A request is addressed to volume \<open>v\<close> and stays inside disk \<open>d\<close>.\<close>

definition in_range :: "disk \<Rightarrow> mem \<Rightarrow> bool" where
  "in_range d m \<longleftrightarrow> 0 \<le> sint (req_offset m) \<and> unat (req_size m) \<le> max_data_size \<and>
     nat (sint (req_offset m)) + unat (req_size m) \<le> d_size d"

definition addressed :: "RequestType \<Rightarrow> u64 \<Rightarrow> mem \<Rightarrow> bool" where
  "addressed type v m \<longleftrightarrow> \<not> h_stop (get_header m) \<and> h_type (get_header m) = type_code type \<and> h_volume (get_header m) = v"

text \<open>What a request to write does to the disk.\<close>

definition apply_write :: "disk \<Rightarrow> mem \<Rightarrow> disk" where
  "apply_write d m = disk_write d (nat (sint (req_offset m))) m write_data_at (unat (req_size m))"

text \<open>
  \<open>vol M w v q d\<close>: in the world \<open>w\<close>, handle \<open>v\<close> denotes a volume that stores disk \<open>d\<close> and answers
  on queue \<open>q\<close>. The handler's operations act on the disk and answer with the request's header.
\<close>

locale storage_handler =
  fixes H :: "'b boost_mq \<Rightarrow> 'b handler_ops"
    and vol :: "'b boost_mq \<Rightarrow> 'b world \<Rightarrow> u64 \<Rightarrow> mqid \<Rightarrow> disk \<Rightarrow> bool"
  assumes vol_laws: "vol M w v q d \<Longrightarrow> mq_laws M"
    and vol_frame: "vol M w v q d \<Longrightarrow> mq_changes M (boost w) q' ms b \<Longrightarrow> vol M (w\<lparr>boost := b\<rparr>) v q d"
    and vol_limits: "vol M w v q d \<Longrightarrow> mq_limits M (boost w) q = (max_queue_size, reply_size)"
    and write_law: "vol M w v q d \<Longrightarrow> h_volume (get_header m) = v \<Longrightarrow> in_range d m \<Longrightarrow>
      \<exists>w'. hd_write (H M) m w = (Ret (), w') \<and> boost w' = boost w \<and> vol M w' v q (apply_write d m)"
    and read_law: "vol M w v q d \<Longrightarrow> h_volume (get_header m) = v \<Longrightarrow> \<not> mq_full M (boost w) q \<Longrightarrow> in_range d m \<Longrightarrow>
      \<exists>w' r. hd_read (H M) m reply w = (Ret r, w') \<and> is_read_reply m r d \<and>
        mq_changes M (boost w) q (mq_contents M (boost w) q @ [mk_message r readreply_size]) (boost w') \<and> vol M w' v q d"
    and getsize_law: "vol M w v q d \<Longrightarrow> h_volume (get_header m) = v \<Longrightarrow> \<not> mq_full M (boost w) q \<Longrightarrow>
      \<exists>w' r. hd_getsize (H M) m reply w = (Ret r, w') \<and> is_getsize_reply m r d \<and>
        mq_changes M (boost w) q (mq_contents M (boost w) q @ [mk_message r getsizereply_size]) (boost w') \<and> vol M w' v q d"
    and fsync_law: "vol M w v q d \<Longrightarrow> h_volume (get_header m) = v \<Longrightarrow> \<not> mq_full M (boost w) q \<Longrightarrow>
      \<exists>w' r. hd_fsync (H M) m reply w = (Ret r, w') \<and> is_fsync_reply m r \<and>
        mq_changes M (boost w) q (mq_contents M (boost w) q @ [mk_message r getsizereply_size]) (boost w') \<and> vol M w' v q d"

lemma ioh_storage_handler: "storage_handler IOHandler ioh_volume"
proof
  show "mq_laws M" if "ioh_volume M w v q d" for M :: "'b boost_mq" and w v q d
    using that by (simp add: ioh_volume_def)
  show "ioh_volume M (w\<lparr>boost := b\<rparr>) v q d" if "ioh_volume M w v q d" "mq_changes M (boost w) q' ms b"
    for M :: "'b boost_mq" and w v q d q' ms b
    using that by (rule ioh_volume_frame)
  show "mq_limits M (boost w) q = (max_queue_size, reply_size)" if "ioh_volume M w v q d"
    for M :: "'b boost_mq" and w v q d
    using that by (simp add: ioh_volume_def)
qed (simp_all add: IOHandler_def in_range_def apply_write_def ioh_write_run ioh_read_run ioh_getsize_run ioh_fsync_run)

interpretation ioh: storage_handler IOHandler ioh_volume
  by (rule ioh_storage_handler)

section \<open>Serving a queue\<close>

text \<open>A message that asks to write inside the disk \<open>d\<close> of volume \<open>v\<close>, as the client sends it.\<close>

definition write_msg :: "u64 \<Rightarrow> disk \<Rightarrow> message \<Rightarrow> bool" where
  "write_msg v d msg \<longleftrightarrow> msg_size msg = writerequest_size \<and> addressed REQ_WRITE v (msg_bytes msg) \<and> in_range d (msg_bytes msg)"

text \<open>The server reads the header and the fields of a message as they were sent, whatever its buffer held.\<close>

lemma recv_fields [mem_simps]:
  "header_size \<le> msg_size msg \<Longrightarrow> get_header (recv_into buf msg) = get_header (msg_bytes msg)"
  "48 \<le> msg_size msg \<Longrightarrow> req_offset (recv_into buf msg) = req_offset (msg_bytes msg)"
  "48 \<le> msg_size msg \<Longrightarrow> req_size (recv_into buf msg) = req_size (msg_bytes msg)"
  by (simp_all add: recv_into_def mem_simps)

lemma apply_write_recv:
  assumes "msg_size msg = writerequest_size" "unat (req_size (msg_bytes msg)) \<le> max_data_size"
  shows "apply_write d (recv_into buf msg) = apply_write d (msg_bytes msg)"
proof -
  have "recv_into buf msg (write_data_at + i) = msg_bytes msg (write_data_at + i)"
    if "i < unat (req_size (msg_bytes msg))" for i
    using that assms by (simp add: recv_into_def mem_simps size_defs)
  then have "memcpy (d_bytes d) k (recv_into buf msg) write_data_at (unat (req_size (msg_bytes msg))) =
      memcpy (d_bytes d) k (msg_bytes msg) write_data_at (unat (req_size (msg_bytes msg)))" for k
    by (rule memcpy_cong)
  then show ?thesis
    using assms by (simp add: apply_write_def disk_write_def mem_simps size_defs)
qed

lemma apply_write_size [simp]: "d_size (apply_write d m) = d_size d"
  by (simp add: apply_write_def)

lemma write_msg_apply [simp]: "write_msg v (apply_write d m) = write_msg v d"
  by (simp add: write_msg_def in_range_def fun_eq_iff)

lemma mq_changes_trans:
  "mq_changes M b q ms b' \<Longrightarrow> mq_changes M b' q ns b'' \<Longrightarrow> mq_changes M b q ns b''"
  by (simp add: mq_changes_def)

text \<open>The state of a server thread between two requests, with its queue and the disk behind it.\<close>

definition serving :: "('b boost_mq \<Rightarrow> 'b world \<Rightarrow> u64 \<Rightarrow> mqid \<Rightarrow> disk \<Rightarrow> bool) \<Rightarrow>
    'b boost_mq \<Rightarrow> mqid \<Rightarrow> u64 \<Rightarrow> mqid \<Rightarrow> thread \<Rightarrow> 'b world \<Rightarrow> disk \<Rightarrow> bool" where
  "serving vol M q v rq t w d \<longleftrightarrow> vol M w v rq d \<and> th_state t = Running \<and> q \<noteq> rq \<and>
     mq_limits M (boost w) q = (max_queue_size, request_size)"

context storage_handler
begin

lemma serving_turn:
  assumes s: "serving vol M q v rq t w d" and c: "mq_contents M (boost w) q = msg # ms"
    and stop: "\<not> h_stop (get_header (recv_into (th_request_msg t) msg))"
    and d: "\<And>w1. vol M w1 v rq d \<Longrightarrow> mq_limits M (boost w1) = mq_limits M (boost w) \<Longrightarrow>
       mq_contents M (boost w1) = (mq_contents M (boost w))(q := ms) \<Longrightarrow>
       \<exists>r w'. dispatch (H M) (recv_into (th_request_msg t) msg) (th_reply_msg t) w1 = (Ret r, w') \<and> Q r \<and>
         vol M w' v rq d' \<and> mq_changes M (boost w1) rq (mq_contents M (boost w) rq @ out r) (boost w')"
  obtains r t' w' where "\<And>fuel. handle_requests (Suc fuel) M (H M) q t w = handle_requests fuel M (H M) q t' w'"
    "serving vol M q v rq t' w' d'" "Q r" "mq_names M (boost w') = mq_names M (boost w)"
    "mq_limits M (boost w') = mq_limits M (boost w)"
    "mq_contents M (boost w') = (mq_contents M (boost w))(q := ms, rq := mq_contents M (boost w) rq @ out r)"
proof -
  have laws: "mq_laws M" "th_state t = Running" "snd (mq_limits M (boost w) q) \<le> request_size"
    using s vol_laws by (auto simp: serving_def)
  define P where "P b r w' \<longleftrightarrow> vol M w' v rq d' \<and> Q r \<and>
    mq_changes M b rq (mq_contents M (boost w) rq @ out r) (boost w')" for b r w'
  have "\<exists>r w'. dispatch (H M) (recv_into (th_request_msg t) msg) (th_reply_msg t) (w\<lparr>boost := b\<rparr>) = (Ret r, w') \<and> P b r w'"
    if "mq_changes M (boost w) q ms b" for b
    using d [of "w\<lparr>boost := b\<rparr>"] vol_frame [OF _ that] s that by (auto simp: serving_def mq_changes_def P_def)
  from handle_requests_next [OF laws c stop this] obtain b r w' where
    b: "mq_changes M (boost w) q ms b" and P: "P b r w'"
    and run: "\<And>fuel. handle_requests (Suc fuel) M (H M) q t w =
       handle_requests fuel M (H M) q (t\<lparr>th_request_msg := recv_into (th_request_msg t) msg, th_reply_msg := r\<rparr>) w'"
    by blast
  show thesis
  proof (rule that [OF run])
    show "serving vol M q v rq (t\<lparr>th_request_msg := recv_into (th_request_msg t) msg, th_reply_msg := r\<rparr>) w' d'"
      using s P b by (simp add: serving_def mq_changes_def P_def)
  qed (use b P in \<open>auto simp: mq_changes_def P_def\<close>)
qed

text \<open>Requests to write that wait in the queue are applied in their order.\<close>

lemma serve_write:
  assumes "serving vol M q v rq t w d" "mq_contents M (boost w) q = msg # ms" "write_msg v d msg"
  obtains t' w' where "\<And>fuel. handle_requests (Suc fuel) M (H M) q t w = handle_requests fuel M (H M) q t' w'"
    "serving vol M q v rq t' w' (apply_write d (msg_bytes msg))" "mq_changes M (boost w) q ms (boost w')"
proof -
  let ?req = "recv_into (th_request_msg t) msg"
  have req: "get_header ?req = get_header (msg_bytes msg)" "in_range d ?req"
    "apply_write d ?req = apply_write d (msg_bytes msg)"
    using assms(3) by (auto simp: write_msg_def in_range_def mem_simps size_defs apply_write_recv)
  have stop: "\<not> h_stop (get_header ?req)" using assms(3) req(1) by (simp add: write_msg_def addressed_def)
  have d: "\<exists>r w'. dispatch (H M) ?req (th_reply_msg t) w1 = (Ret r, w') \<and> True \<and>
       vol M w' v rq (apply_write d (msg_bytes msg)) \<and>
       mq_changes M (boost w1) rq (mq_contents M (boost w) rq @ []) (boost w')"
    if "vol M w1 v rq d" "mq_limits M (boost w1) = mq_limits M (boost w)"
      "mq_contents M (boost w1) = (mq_contents M (boost w))(q := ms)" for w1
    using write_law [OF that(1) _ req(2)] req assms that
    by (auto simp: dispatch_def write_msg_def addressed_def cmd_simps serving_def mq_changes_def fun_eq_iff)
  show thesis
    by (rule serving_turn [where Q = "\<lambda>_. True" and out = "\<lambda>_. []", OF assms(1,2) stop d], assumption+, rule that)
      (use assms(1) in \<open>auto simp: serving_def mq_changes_def\<close>)
qed

lemma serve_writes:
  assumes "serving vol M q v rq t w d" "mq_contents M (boost w) q = ws @ rest" "\<forall>m \<in> set ws. write_msg v d m"
  shows "\<exists>t' w'. (\<forall>fuel. handle_requests (length ws + fuel) M (H M) q t w = handle_requests fuel M (H M) q t' w') \<and>
    serving vol M q v rq t' w' (foldl (\<lambda>d m. apply_write d (msg_bytes m)) d ws) \<and> mq_changes M (boost w) q rest (boost w')"
  using assms
proof (induction ws arbitrary: t w d)
  case Nil
  then show ?case by (auto intro!: exI [of _ t] exI [of _ w] simp: mq_changes_def fun_eq_iff)
next
  case (Cons m ws)
  from serve_write [of M q v rq t w d m "ws @ rest"] Cons.prems obtain t1 w1 where
    one: "\<And>fuel. handle_requests (Suc fuel) M (H M) q t w = handle_requests fuel M (H M) q t1 w1"
      "serving vol M q v rq t1 w1 (apply_write d (msg_bytes m))" "mq_changes M (boost w) q (ws @ rest) (boost w1)"
    by auto
  from Cons.IH [OF one(2)] one(3) Cons.prems(3) obtain t' w' where
    "\<forall>fuel. handle_requests (length ws + fuel) M (H M) q t1 w1 = handle_requests fuel M (H M) q t' w'"
    "serving vol M q v rq t' w' (foldl (\<lambda>d m. apply_write d (msg_bytes m)) (apply_write d (msg_bytes m)) ws)"
    "mq_changes M (boost w1) q rest (boost w')"
    by (auto simp: mq_changes_def)
  with one mq_changes_trans show ?case by (fastforce simp del: handle_requests.simps)
qed

text \<open>A request that is answered: the reply is the last message of the volume's queue.\<close>

lemma serve_reply:
  assumes s: "serving vol M q v rq t w d" "mq_contents M (boost w) q = msg # ms" "\<not> mq_full M (boost w) rq"
    and stop: "\<not> h_stop (get_header (recv_into (th_request_msg t) msg))"
    and d: "\<And>w1. vol M w1 v rq d \<Longrightarrow> \<not> mq_full M (boost w1) rq \<Longrightarrow>
       \<exists>w' r. dispatch (H M) (recv_into (th_request_msg t) msg) (th_reply_msg t) w1 = (Ret r, w') \<and> Q r \<and>
         mq_changes M (boost w1) rq (mq_contents M (boost w1) rq @ [mk_message r n]) (boost w') \<and> vol M w' v rq d"
  obtains r t' w' where "\<And>fuel. handle_requests (Suc fuel) M (H M) q t w = handle_requests fuel M (H M) q t' w'"
    "serving vol M q v rq t' w' d" "Q r" "mq_names M (boost w') = mq_names M (boost w)"
    "mq_limits M (boost w') = mq_limits M (boost w)"
    "mq_contents M (boost w') = (mq_contents M (boost w))(q := ms, rq := mq_contents M (boost w) rq @ [mk_message r n])"
proof -
  have d': "\<exists>r w'. dispatch (H M) (recv_into (th_request_msg t) msg) (th_reply_msg t) w1 = (Ret r, w') \<and> Q r \<and>
         vol M w' v rq d \<and> mq_changes M (boost w1) rq (mq_contents M (boost w) rq @ [mk_message r n]) (boost w')"
    if "vol M w1 v rq d" "mq_limits M (boost w1) = mq_limits M (boost w)"
      "mq_contents M (boost w1) = (mq_contents M (boost w))(q := ms)" for w1
    using d [of w1] that s by (auto simp: mq_full_def serving_def)
  show thesis
    by (rule serving_turn [where Q = Q and out = "\<lambda>r. [mk_message r n]", OF s(1,2) stop d'], assumption+, rule that)
qed

lemma serve_read:
  assumes "serving vol M q v rq t w d" "mq_contents M (boost w) q = msg # ms" "\<not> mq_full M (boost w) rq"
    and m: "msg_size msg = readrequest_size" "addressed REQ_READ v (msg_bytes msg)" "in_range d (msg_bytes msg)"
  obtains r t' w' where "\<And>fuel. handle_requests (Suc fuel) M (H M) q t w = handle_requests fuel M (H M) q t' w'"
    "serving vol M q v rq t' w' d" "is_read_reply (msg_bytes msg) r d" "mq_names M (boost w') = mq_names M (boost w)"
    "mq_limits M (boost w') = mq_limits M (boost w)"
    "mq_contents M (boost w') = (mq_contents M (boost w))(q := ms, rq := mq_contents M (boost w) rq @ [mk_message r readreply_size])"
proof -
  let ?req = "recv_into (th_request_msg t) msg"
  have req: "get_header ?req = get_header (msg_bytes msg)" "in_range d ?req"
    "is_read_reply ?req r d = is_read_reply (msg_bytes msg) r d" for r
    using m by (auto simp: in_range_def is_read_reply_def mem_simps size_defs)
  show thesis
  proof (rule serve_reply [OF assms(1-3)])
    show "\<not> h_stop (get_header ?req)" using m(2) by (simp add: req addressed_def)
    show "\<exists>w' r. dispatch (H M) ?req (th_reply_msg t) w1 = (Ret r, w') \<and> is_read_reply (msg_bytes msg) r d \<and>
         mq_changes M (boost w1) rq (mq_contents M (boost w1) rq @ [mk_message r readreply_size]) (boost w') \<and> vol M w' v rq d"
      if "vol M w1 v rq d" "\<not> mq_full M (boost w1) rq" for w1
      using read_law [OF that(1) _ that(2) req(2)] m(2) req by (simp add: dispatch_def addressed_def)
  qed (rule that)
qed

lemma serve_getsize:
  assumes "serving vol M q v rq t w d" "mq_contents M (boost w) q = msg # ms" "\<not> mq_full M (boost w) rq"
    and m: "msg_size msg = getsizerequest_size" "addressed REQ_GETSIZE v (msg_bytes msg)"
  obtains r t' w' where "\<And>fuel. handle_requests (Suc fuel) M (H M) q t w = handle_requests fuel M (H M) q t' w'"
    "serving vol M q v rq t' w' d" "is_getsize_reply (msg_bytes msg) r d" "mq_names M (boost w') = mq_names M (boost w)"
    "mq_limits M (boost w') = mq_limits M (boost w)"
    "mq_contents M (boost w') = (mq_contents M (boost w))(q := ms, rq := mq_contents M (boost w) rq @ [mk_message r getsizereply_size])"
proof -
  let ?req = "recv_into (th_request_msg t) msg"
  have req: "get_header ?req = get_header (msg_bytes msg)"
    using m by (simp add: mem_simps size_defs)
  show thesis
  proof (rule serve_reply [OF assms(1-3)])
    show "\<not> h_stop (get_header ?req)" using m(2) by (simp add: req addressed_def)
    show "\<exists>w' r. dispatch (H M) ?req (th_reply_msg t) w1 = (Ret r, w') \<and> is_getsize_reply (msg_bytes msg) r d \<and>
         mq_changes M (boost w1) rq (mq_contents M (boost w1) rq @ [mk_message r getsizereply_size]) (boost w') \<and> vol M w' v rq d"
      if "vol M w1 v rq d" "\<not> mq_full M (boost w1) rq" for w1
      using getsize_law [OF that(1) _ that(2), of ?req] m(2) req by (simp add: dispatch_def addressed_def is_getsize_reply_def)
  qed (rule that)
qed

lemma serve_fsync:
  assumes "serving vol M q v rq t w d" "mq_contents M (boost w) q = msg # ms" "\<not> mq_full M (boost w) rq"
    and m: "msg_size msg = fsyncrequest_size" "addressed REQ_FSYNC v (msg_bytes msg)"
  obtains r t' w' where "\<And>fuel. handle_requests (Suc fuel) M (H M) q t w = handle_requests fuel M (H M) q t' w'"
    "serving vol M q v rq t' w' d" "is_fsync_reply (msg_bytes msg) r" "mq_names M (boost w') = mq_names M (boost w)"
    "mq_limits M (boost w') = mq_limits M (boost w)"
    "mq_contents M (boost w') = (mq_contents M (boost w))(q := ms, rq := mq_contents M (boost w) rq @ [mk_message r getsizereply_size])"
proof -
  let ?req = "recv_into (th_request_msg t) msg"
  have req: "get_header ?req = get_header (msg_bytes msg)"
    using m by (simp add: mem_simps size_defs)
  show thesis
  proof (rule serve_reply [OF assms(1-3)])
    show "\<not> h_stop (get_header ?req)" using m(2) by (simp add: req addressed_def)
    show "\<exists>w' r. dispatch (H M) ?req (th_reply_msg t) w1 = (Ret r, w') \<and> is_fsync_reply (msg_bytes msg) r \<and>
         mq_changes M (boost w1) rq (mq_contents M (boost w1) rq @ [mk_message r getsizereply_size]) (boost w') \<and> vol M w' v rq d"
      if "vol M w1 v rq d" "\<not> mq_full M (boost w1) rq" for w1
      using fsync_law [OF that(1) _ that(2), of ?req] m(2) req by (simp add: dispatch_def addressed_def is_fsync_reply_def)
  qed (rule that)
qed

end

end
