(* ===== verification/Shm_Client_Sync.thy ===== *)
theory Shm_Client_Sync
  imports Shm_Server
begin

text \<open>
  \<open>src/SharedMemClient.cpp\<close> and the class of \<open>src/SharedMemClient.h\<close>: the synchronous client of
  the server, and the C functions the block driver calls. A client holds one request buffer and
  one reply buffer for all its messages. Its calls block: while a call waits for room in the
  request queue or for a reply, the server runs; \<open>peer\<close> is what the server does until it has
  nothing left to do, and a call that still cannot proceed then never returns. The main result is
  that the client refines a disk although writes are not acknowledged: the disk is the server's
  file with the requests that wait in the queue applied to it.
\<close>

section \<open>State\<close>

record client =
  cl_request_mq :: mqid
  cl_reply_mq :: mqid
  cl_request_msg :: mem
  cl_reply_msg :: mem
  cl_volume_name :: string
  cl_volume :: u64

text \<open>
  The client process: the object its handle points to, the counter \<open>id\<close>, \<open>errno\<close>; and the server
  at the other end of the queues.
\<close>

record 'b csys =
  cs_client :: "client option"
  cs_id :: u32
  cs_errno :: int
  cs_server :: "'b server"

abbreviation cs_boost :: "'b csys \<Rightarrow> 'b" where
  "cs_boost s \<equiv> boost (sv_world (cs_server s))"

definition set_boost :: "'b \<Rightarrow> 'b csys \<Rightarrow> 'b csys" where
  "set_boost b s = s\<lparr>cs_server := (cs_server s)\<lparr>sv_world := (sv_world (cs_server s))\<lparr>boost := b\<rparr>\<rparr>\<rparr>"

text \<open>A queue operation that does not wait, and one that does.\<close>

definition on_mq :: "('b \<Rightarrow> 'a \<times> 'b) \<Rightarrow> ('b csys, 'a) cmd" where
  "on_mq f = (\<lambda>s. case f (cs_boost s) of (x, b) \<Rightarrow> (Ret x, set_boost b s))"

definition mq_outcome :: "'a mq_result \<Rightarrow> 'a outcome" where
  "mq_outcome r = (case r of MQ_ok x \<Rightarrow> Ret x | MQ_block \<Rightarrow> Fail Hang | MQ_throw e \<Rightarrow> Fail (Throw e))"

definition try_mq :: "('b \<Rightarrow> 'a mq_result \<times> 'b) \<Rightarrow> ('b csys, 'a) cmd" where
  "try_mq f = (\<lambda>s. case f (cs_boost s) of (r, b) \<Rightarrow> (mq_outcome r, set_boost b s))"

definition wait_mq :: "('b server \<Rightarrow> 'b server) \<Rightarrow> ('b \<Rightarrow> 'a mq_result \<times> 'b) \<Rightarrow> ('b csys, 'a) cmd" where
  "wait_mq peer f = (\<lambda>s. case f (cs_boost s) of
       (MQ_block, b) \<Rightarrow> try_mq f ((set_boost b s)\<lparr>cs_server := peer (cs_server (set_boost b s))\<rparr>)
     | (r, b) \<Rightarrow> (mq_outcome r, set_boost b s))"

text \<open>Use of the object behind the handle; a null handle is undefined behaviour.\<close>

definition this :: "('b csys, client) cmd" where
  "this = (\<lambda>s. case cs_client s of None \<Rightarrow> (Fail Undef, s) | Some c \<Rightarrow> (Ret c, s))"

definition set_request_msg :: "mem \<Rightarrow> ('b csys, unit) cmd" where
  "set_request_msg m = cbind this (\<lambda>c. modify (\<lambda>s. s\<lparr>cs_client := Some (c\<lparr>cl_request_msg := m\<rparr>)\<rparr>))"

definition set_reply_msg :: "mem \<Rightarrow> ('b csys, unit) cmd" where
  "set_reply_msg m = cbind this (\<lambda>c. modify (\<lambda>s. s\<lparr>cs_client := Some (c\<lparr>cl_reply_msg := m\<rparr>)\<rparr>))"

text \<open>
  \<open>header = Header (false, type, ++id, volume_, acb)\<close>. The counter is an \<open>int\<close>, whose overflow after
  \<open>2 ^ 31 - 1\<close> requests is undefined; it wraps here, as it does on the machine. Nothing reads it back.
\<close>

definition put_request_header :: "RequestType \<Rightarrow> u64 \<Rightarrow> ('b csys, unit) cmd" where
  "put_request_header type acb =
     cbind (modify (\<lambda>s. s\<lparr>cs_id := cs_id s + 1\<rparr>)) (\<lambda>_.
     cbind (gets cs_id) (\<lambda>i.
     cbind this (\<lambda>c.
     set_request_msg (put_header (cl_request_msg c) (Header_make False type (scast i) (cl_volume c) acb)))))"

text \<open>\<open>request_mq_->send (request_msg_, n, 0)\<close> and \<open>reply_mq_->receive (reply_msg_, reply_size, ...)\<close>.\<close>

definition send_request :: "'b boost_mq \<Rightarrow> ('b server \<Rightarrow> 'b server) \<Rightarrow> nat \<Rightarrow> ('b csys, unit) cmd" where
  "send_request M peer n =
     cbind this (\<lambda>c. wait_mq peer (mq_send M (cl_request_mq c) (mk_message (cl_request_msg c) n) 0))"

definition receive_reply :: "'b boost_mq \<Rightarrow> ('b server \<Rightarrow> 'b server) \<Rightarrow> ('b csys, mem) cmd" where
  "receive_reply M peer =
     cbind this (\<lambda>c.
     cbind (wait_mq peer (mq_receive M (cl_reply_mq c) reply_size)) (\<lambda>msg.
     cbind (set_reply_msg (recv_into (cl_reply_msg c) msg)) (\<lambda>_.
     ret (recv_into (cl_reply_msg c) msg))))"

section \<open>The class \<open>SharedMemClient\<close>\<close>

text \<open>
  The constructor. The two buffers and \<open>volume_\<close> are not initialised: they hold what was in the
  memory they got.
\<close>

definition client_queue_num :: "string \<Rightarrow> u64" where
  "client_queue_num volume_name = (scast (byte_of_char (last volume_name)) :: u64) mod max_queue_num"

definition SharedMemClient_new :: "'b boost_mq \<Rightarrow> mem \<Rightarrow> u64 \<Rightarrow> string \<Rightarrow> ('b csys, client) cmd" where
  "SharedMemClient_new M stray stray_volume volume_name =
     cbind (assert (0 < length volume_name)) (\<lambda>_.
     cbind (on_mq (mq_remove M volume_name)) (\<lambda>_.
     cbind (try_mq (mq_open_only M (request_mq_name (unat (client_queue_num volume_name))))) (\<lambda>q.
     cbind (try_mq (mq_create_only M volume_name max_queue_size reply_size)) (\<lambda>rq.
     ret \<lparr>cl_request_mq = q, cl_reply_mq = rq, cl_request_msg = stray, cl_reply_msg = stray,
          cl_volume_name = volume_name, cl_volume = stray_volume\<rparr>))))"

definition SharedMemClient_delete :: "'b boost_mq \<Rightarrow> ('b csys, unit) cmd" where
  "SharedMemClient_delete M =
     cbind this (\<lambda>c.
     cbind (on_mq (mq_remove M (cl_volume_name c))) (\<lambda>_.
     modify (\<lambda>s. s\<lparr>cs_client := None\<rparr>)))"

definition send_open :: "'b boost_mq \<Rightarrow> ('b server \<Rightarrow> 'b server) \<Rightarrow> ('b csys, int) cmd" where
  "send_open M peer =
     cbind (put_request_header REQ_OPEN 0) (\<lambda>_.
     cbind this (\<lambda>c.
     cbind (OpenRequest_init (cl_request_msg c) (cl_volume_name c) (cl_volume_name c)) (\<lambda>m.
     cbind (set_request_msg m) (\<lambda>_.
     cbind (send_request M peer openrequest_size) (\<lambda>_.
     cbind (receive_reply M peer) (\<lambda>r.
     cbind (assert (h_type (get_header r) = type_code REQ_OPEN)) (\<lambda>_.
     let err = sint (get32 r 40) in
     cbind (if err = 0
            then cbind this (\<lambda>c. modify (\<lambda>s. s\<lparr>cs_client := Some (c\<lparr>cl_volume := get64 r 32\<rparr>)\<rparr>))
            else ret ()) (\<lambda>_.
     ret err))))))))"

definition send_close :: "'b boost_mq \<Rightarrow> ('b server \<Rightarrow> 'b server) \<Rightarrow> ('b csys, unit) cmd" where
  "send_close M peer =
     cbind (put_request_header REQ_CLOSE 0) (\<lambda>_.
     send_request M peer closerequest_size)"

definition send_getsize :: "'b boost_mq \<Rightarrow> ('b server \<Rightarrow> 'b server) \<Rightarrow> ('b csys, u64) cmd" where
  "send_getsize M peer =
     cbind (put_request_header REQ_GETSIZE 0) (\<lambda>_.
     cbind (send_request M peer getsizerequest_size) (\<lambda>_.
     cbind (receive_reply M peer) (\<lambda>r.
     cbind (assert (h_type (get_header r) = type_code REQ_GETSIZE)) (\<lambda>_.
     ret (get64 r 32)))))"

text \<open>The caller's \<open>message\<close> pointer is a buffer \<open>buf\<close> and an offset \<open>at\<close> into it.\<close>

definition send_write :: "'b boost_mq \<Rightarrow> ('b server \<Rightarrow> 'b server) \<Rightarrow> mem \<Rightarrow> nat \<Rightarrow> u64 \<Rightarrow> u64 \<Rightarrow> ('b csys, unit) cmd" where
  "send_write M peer buf at size_in_bytes offset =
     cbind (assert (unat size_in_bytes \<le> max_data_size)) (\<lambda>_.
     cbind (put_request_header REQ_WRITE 0) (\<lambda>_.
     cbind this (\<lambda>c.
     cbind (set_request_msg
              (memcpy (WriteRequest_init (cl_request_msg c) offset size_in_bytes) write_data_at buf at (unat size_in_bytes))) (\<lambda>_.
     send_request M peer writerequest_size))))"

text \<open>\<open>send_read\<close> returns the caller's buffer as it leaves it.\<close>

definition send_read :: "'b boost_mq \<Rightarrow> ('b server \<Rightarrow> 'b server) \<Rightarrow> mem \<Rightarrow> nat \<Rightarrow> u64 \<Rightarrow> u64 \<Rightarrow> ('b csys, mem) cmd" where
  "send_read M peer buf at size_in_bytes offset =
     cbind (assert (unat size_in_bytes \<le> max_data_size)) (\<lambda>_.
     cbind (put_request_header REQ_READ 0) (\<lambda>_.
     cbind this (\<lambda>c.
     cbind (set_request_msg (ReadRequest_init (cl_request_msg c) offset size_in_bytes)) (\<lambda>_.
     cbind (send_request M peer readrequest_size) (\<lambda>_.
     cbind (receive_reply M peer) (\<lambda>r.
     cbind (assert (h_type (get_header r) = type_code REQ_READ)) (\<lambda>_.
     cbind (assert (size_in_bytes = get64 r 32)) (\<lambda>_.
     ret (memcpy buf at r read_data_at (unat size_in_bytes))))))))))"

section \<open>The C interface\<close>

text \<open>A null \<open>volume_name\<close> makes the conversion to \<open>std::string\<close> undefined; exceptions give a null handle.\<close>

definition shared_mem_make_client :: "'b boost_mq \<Rightarrow> mem \<Rightarrow> u64 \<Rightarrow> string option \<Rightarrow> ('b csys, bool) cmd" where
  "shared_mem_make_client M stray stray_volume volume_name =
     (case volume_name of None \<Rightarrow> fail Undef
      | Some nm \<Rightarrow>
          catch_all
            (cbind (SharedMemClient_new M stray stray_volume nm) (\<lambda>c.
             cbind (modify (\<lambda>s. s\<lparr>cs_client := Some c\<rparr>)) (\<lambda>_. ret True)))
            (cbind (modify (\<lambda>s. s\<lparr>cs_client := None\<rparr>)) (\<lambda>_. ret False)))"

definition shared_mem_destroy_client :: "'b boost_mq \<Rightarrow> ('b csys, unit) cmd" where
  "shared_mem_destroy_client M =
     catch_all (cbind (gets cs_client) (\<lambda>h. if h = None then ret () else SharedMemClient_delete M)) (ret ())"

definition create_volume :: "'b boost_mq \<Rightarrow> ('b server \<Rightarrow> 'b server) \<Rightarrow> ('b csys, int) cmd" where
  "create_volume M peer = catch_all (send_open M peer) (gets (\<lambda>s. - cs_errno s))"

definition release_volume :: "'b boost_mq \<Rightarrow> ('b server \<Rightarrow> 'b server) \<Rightarrow> ('b csys, bool) cmd" where
  "release_volume M peer = catch_all (cbind (send_close M peer) (\<lambda>_. ret True)) (ret False)"

definition getsize_volume :: "'b boost_mq \<Rightarrow> ('b server \<Rightarrow> 'b server) \<Rightarrow> ('b csys, u64) cmd" where
  "getsize_volume M peer = catch_all (send_getsize M peer) (ret 0)"

definition shared_mem_write :: "'b boost_mq \<Rightarrow> ('b server \<Rightarrow> 'b server) \<Rightarrow> mem \<Rightarrow> nat \<Rightarrow> u64 \<Rightarrow> u64 \<Rightarrow> ('b csys, bool) cmd" where
  "shared_mem_write M peer buf at size_in_bytes offset =
     catch_all (cbind (send_write M peer buf at size_in_bytes offset) (\<lambda>_. ret True)) (ret False)"

text \<open>The result is the return value and the caller's buffer.\<close>

definition shared_mem_read :: "'b boost_mq \<Rightarrow> ('b server \<Rightarrow> 'b server) \<Rightarrow> mem \<Rightarrow> nat \<Rightarrow> u64 \<Rightarrow> u64 \<Rightarrow> ('b csys, bool \<times> mem) cmd" where
  "shared_mem_read M peer buf at size_in_bytes offset =
     catch_all (cbind (send_read M peer buf at size_in_bytes offset) (\<lambda>buf'. ret (True, buf'))) (ret (False, buf))"

section \<open>Refinement of a disk\<close>

text \<open>
  The client is connected to a volume: one server thread serves its request queue, its reply
  queue is empty, and the request queue holds requests to write followed by \<open>tail\<close>. The disk
  \<open>d\<close> is what the server stores once it has served the writes. \<open>n\<close> is the number of turns the
  server's loop is given while the client waits; a queue holds at most 32 requests.
\<close>

definition client_rel :: "('b boost_mq \<Rightarrow> 'b world \<Rightarrow> u64 \<Rightarrow> mqid \<Rightarrow> disk \<Rightarrow> bool) \<Rightarrow> 'b boost_mq \<Rightarrow> nat \<Rightarrow>
    'b csys \<Rightarrow> client \<Rightarrow> disk \<Rightarrow> message list \<Rightarrow> bool" where
  "client_rel vol M n s c d tail \<longleftrightarrow> max_queue_size \<le> n \<and> cs_client s = Some c \<and>
     (\<exists>t w d0 ws. cs_server s = \<lparr>sv_request_mqs = [Some (cl_request_mq c)], sv_threads = [t], sv_world = w\<rparr> \<and>
        serving vol M (cl_request_mq c) (cl_volume c) (cl_reply_mq c) t w d0 \<and>
        mq_contents M (boost w) (cl_request_mq c) = ws @ tail \<and> length (ws @ tail) \<le> max_queue_size \<and>
        (\<forall>m \<in> set ws. write_msg (cl_volume c) d0 m) \<and>
        d = foldl (\<lambda>d m. apply_write d (msg_bytes m)) d0 ws \<and>
        mq_contents M (boost w) (cl_reply_mq c) = [])"

lemma client_relE:
  assumes "client_rel vol M n s c d tail"
  obtains t w d0 ws where "max_queue_size \<le> n" "cs_client s = Some c"
    "cs_server s = \<lparr>sv_request_mqs = [Some (cl_request_mq c)], sv_threads = [t], sv_world = w\<rparr>"
    "serving vol M (cl_request_mq c) (cl_volume c) (cl_reply_mq c) t w d0"
    "mq_contents M (boost w) (cl_request_mq c) = ws @ tail" "length (ws @ tail) \<le> max_queue_size"
    "\<forall>m \<in> set ws. write_msg (cl_volume c) d0 m" "d = foldl (\<lambda>d m. apply_write d (msg_bytes m)) d0 ws"
    "mq_contents M (boost w) (cl_reply_mq c) = []"
  using assms unfolding client_rel_def by blast

text \<open>The relation does not depend on the counter, on \<open>errno\<close> or on the client's buffers.\<close>

lemma client_rel_frame:
  assumes "client_rel vol M n s c d tail" "cs_server s' = cs_server s" "cs_client s' = Some c'"
    and "cl_request_mq c' = cl_request_mq c" "cl_reply_mq c' = cl_reply_mq c" "cl_volume c' = cl_volume c"
  shows "client_rel vol M n s' c' d tail"
  using assms unfolding client_rel_def by metis

lemma foldl_apply_write_size [simp]: "d_size (foldl (\<lambda>d m. apply_write d (msg_bytes m)) d ws) = d_size d"
  by (induction ws arbitrary: d) simp_all

lemma write_msg_size: "d_size d = d_size d' \<Longrightarrow> write_msg v d = write_msg v d'"
  by (simp add: write_msg_def in_range_def fun_eq_iff)

text \<open>A request to write at the end of the queue counts as done.\<close>

lemma client_rel_absorb:
  assumes "client_rel vol M n s c d [m]" "write_msg (cl_volume c) d m"
  shows "client_rel vol M n s c (apply_write d (msg_bytes m)) []"
proof -
  from assms(1) obtain t w d0 ws where r: "max_queue_size \<le> n" "cs_client s = Some c"
    "cs_server s = \<lparr>sv_request_mqs = [Some (cl_request_mq c)], sv_threads = [t], sv_world = w\<rparr>"
    "serving vol M (cl_request_mq c) (cl_volume c) (cl_reply_mq c) t w d0"
    "mq_contents M (boost w) (cl_request_mq c) = ws @ [m]" "length (ws @ [m]) \<le> max_queue_size"
    "\<forall>m \<in> set ws. write_msg (cl_volume c) d0 m" "d = foldl (\<lambda>d m. apply_write d (msg_bytes m)) d0 ws"
    "mq_contents M (boost w) (cl_reply_mq c) = []" by (rule client_relE)
  with assms(2) write_msg_size [of d0 d] show ?thesis
    unfolding client_rel_def
    by (intro conjI exI [of _ t] exI [of _ w] exI [of _ d0] exI [of _ "ws @ [m]"]) auto
qed

lemma server_run_single:
  "server_run n M H \<lparr>sv_request_mqs = [Some q], sv_threads = [t], sv_world = w\<rparr> =
    (if th_state t = Running then
       case handle_requests n M H q t w of (t', w') \<Rightarrow> \<lparr>sv_request_mqs = [Some q], sv_threads = [t'], sv_world = w'\<rparr>
     else \<lparr>sv_request_mqs = [Some q], sv_threads = [t], sv_world = w\<rparr>)"
  by (simp add: server_run_def run_thread_def split: prod.split)

lemma set_boost_simps [simp]:
  "cs_client (set_boost b s) = cs_client s" "cs_id (set_boost b s) = cs_id s" "cs_errno (set_boost b s) = cs_errno s"
  "cs_boost (set_boost b s) = b"
  by (simp_all add: set_boost_def)

lemma set_boost_same [simp]: "set_boost (cs_boost s) s = s"
  by (simp add: set_boost_def)

lemma this_run: "cs_client s = Some c \<Longrightarrow> this s = (Ret c, s)"
  by (simp add: this_def)

text \<open>Waiting for an operation that is possible at once, or once the server has run.\<close>

lemma wait_mq_now: "f (cs_boost s) = (MQ_ok x, b) \<Longrightarrow> wait_mq peer f s = (Ret x, set_boost b s)"
  by (simp add: wait_mq_def mq_outcome_def)

lemma wait_mq_later:
  "f (cs_boost s) = (MQ_block, cs_boost s) \<Longrightarrow> f (boost (sv_world (peer (cs_server s)))) = (MQ_ok x, b) \<Longrightarrow>
   wait_mq peer f s = (Ret x, set_boost b (s\<lparr>cs_server := peer (cs_server s)\<rparr>))"
  by (simp add: wait_mq_def try_mq_def mq_outcome_def)

context storage_handler
begin

abbreviation peer :: "nat \<Rightarrow> 'b boost_mq \<Rightarrow> 'b server \<Rightarrow> 'b server" where
  "peer n M \<equiv> server_run n M (H M)"

text \<open>While the client waits, the server works off the writes in the queue.\<close>

lemma server_drains:
  assumes rel: "client_rel vol M n s c d []"
  obtains t w where "peer n M (cs_server s) = \<lparr>sv_request_mqs = [Some (cl_request_mq c)], sv_threads = [t], sv_world = w\<rparr>"
    "serving vol M (cl_request_mq c) (cl_volume c) (cl_reply_mq c) t w d"
    "mq_changes M (cs_boost s) (cl_request_mq c) [] (boost w)"
proof -
  let ?q = "cl_request_mq c"
  from rel obtain t w d0 ws where r: "max_queue_size \<le> n"
    "cs_server s = \<lparr>sv_request_mqs = [Some ?q], sv_threads = [t], sv_world = w\<rparr>"
    "serving vol M ?q (cl_volume c) (cl_reply_mq c) t w d0"
    "mq_contents M (boost w) ?q = ws @ []" "length (ws @ []) \<le> max_queue_size"
    "\<forall>m \<in> set ws. write_msg (cl_volume c) d0 m" "d = foldl (\<lambda>d m. apply_write d (msg_bytes m)) d0 ws" by (rule client_relE)
  from serve_writes [OF r(3,4,6)] obtain t' w' where
    served: "\<And>fuel. handle_requests (length ws + fuel) M (H M) ?q t w = handle_requests fuel M (H M) ?q t' w'"
      "serving vol M ?q (cl_volume c) (cl_reply_mq c) t' w' d" "mq_changes M (boost w) ?q [] (boost w')"
    using r(7) by auto
  have "handle_requests (n - length ws) M (H M) ?q t' w' = (t', w')"
    using served(2,3) vol_laws by (intro handle_requests_wait) (auto simp: serving_def mq_changes_def)
  then have "handle_requests n M (H M) ?q t w = (t', w')" using served(1) [of "n - length ws"] r(1,5) by simp
  then have "peer n M (cs_server s) = \<lparr>sv_request_mqs = [Some ?q], sv_threads = [t'], sv_world = w'\<rparr>"
    using r(3) by (simp add: r(2) server_run_single serving_def)
  from that [OF this served(2)] served(3) r(2) show thesis by simp
qed

lemma send_message:
  assumes rel: "client_rel vol M n s c d []" and m: "msg_size m \<le> request_size"
  shows "\<exists>s'. wait_mq (peer n M) (mq_send M (cl_request_mq c) m 0) s = (Ret (), s') \<and>
    client_rel vol M n s' c d [m] \<and> cs_id s' = cs_id s \<and> cs_errno s' = cs_errno s"
proof -
  let ?q = "cl_request_mq c"
  from rel obtain t w d0 ws where r: "max_queue_size \<le> n" "cs_client s = Some c"
    "cs_server s = \<lparr>sv_request_mqs = [Some ?q], sv_threads = [t], sv_world = w\<rparr>"
    "serving vol M ?q (cl_volume c) (cl_reply_mq c) t w d0"
    "mq_contents M (boost w) ?q = ws @ []" "length (ws @ []) \<le> max_queue_size"
    "\<forall>m \<in> set ws. write_msg (cl_volume c) d0 m" "d = foldl (\<lambda>d m. apply_write d (msg_bytes m)) d0 ws"
    "mq_contents M (boost w) (cl_reply_mq c) = []" by (rule client_relE)
  have laws: "mq_laws M" "msg_size m \<le> snd (mq_limits M (boost w) ?q)"
    using r(4) m vol_laws by (auto simp: serving_def)
  show ?thesis
  proof (cases "mq_full M (boost w) ?q")
    case False
    from mq_sendE [OF laws False] obtain b where
      send: "mq_send M ?q m 0 (boost w) = (MQ_ok (), b)" "mq_changes M (boost w) ?q (mq_contents M (boost w) ?q @ [m]) b" .
    have "client_rel vol M n (set_boost b s) c d [m]"
      using r send(2) False vol_frame [of M w "cl_volume c" "cl_reply_mq c" d0 ?q]
      unfolding client_rel_def
      by (intro conjI exI [of _ t] exI [of _ "w\<lparr>boost := b\<rparr>"] exI [of _ d0] exI [of _ ws])
        (auto simp: set_boost_def serving_def mq_changes_def mq_full_def)
    moreover have "wait_mq (peer n M) (mq_send M ?q m 0) s = (Ret (), set_boost b s)"
      using send(1) r(3) by (intro wait_mq_now) simp
    ultimately show ?thesis by simp
  next
    case True
    obtain t' w' where run: "peer n M (cs_server s) = \<lparr>sv_request_mqs = [Some ?q], sv_threads = [t'], sv_world = w'\<rparr>"
      and served: "serving vol M ?q (cl_volume c) (cl_reply_mq c) t' w' d" "mq_changes M (boost w) ?q [] (boost w')"
      using server_drains [OF rel] r(3) by auto
    have laws': "msg_size m \<le> snd (mq_limits M (boost w') ?q)" "\<not> mq_full M (boost w') ?q"
      using served m by (auto simp: serving_def mq_full_def mq_changes_def size_defs)
    from mq_sendE [OF laws(1) laws'] obtain b where
      send: "mq_send M ?q m 0 (boost w') = (MQ_ok (), b)" "mq_changes M (boost w') ?q (mq_contents M (boost w') ?q @ [m]) b" .
    define s' where "s' = set_boost b (s\<lparr>cs_server := peer n M (cs_server s)\<rparr>)"
    have "wait_mq (peer n M) (mq_send M ?q m 0) s = (Ret (), s')"
      unfolding s'_def using mq_send_blocks [OF laws True] send(1) r(3) run by (intro wait_mq_later) simp_all
    moreover have "client_rel vol M n s' c d [m]"
      using r(1,2,9) send(2) served vol_frame [of M w' "cl_volume c" "cl_reply_mq c" d ?q] run
      unfolding client_rel_def
      by (intro conjI exI [of _ t'] exI [of _ "w'\<lparr>boost := b\<rparr>"] exI [of _ d] exI [of _ "[]"])
        (auto simp: s'_def set_boost_def serving_def mq_changes_def size_defs)
    ultimately show ?thesis by (simp add: s'_def)
  qed
qed

text \<open>
  A request that waits behind the writes is answered once the server has run: the writes are
  done, the request queue is empty and the reply is the only message of the reply queue.
\<close>

lemma server_answers:
  assumes rel: "client_rel vol M n s c d [m]"
    and serve: "\<And>t w. serving vol M (cl_request_mq c) (cl_volume c) (cl_reply_mq c) t w d \<Longrightarrow>
      mq_contents M (boost w) (cl_request_mq c) = [m] \<Longrightarrow> \<not> mq_full M (boost w) (cl_reply_mq c) \<Longrightarrow>
      \<exists>r t' w'. (\<forall>fuel. handle_requests (Suc fuel) M (H M) (cl_request_mq c) t w = handle_requests fuel M (H M) (cl_request_mq c) t' w') \<and>
        serving vol M (cl_request_mq c) (cl_volume c) (cl_reply_mq c) t' w' d \<and> Q r \<and>
        mq_contents M (boost w') = (mq_contents M (boost w))(cl_request_mq c := [],
          cl_reply_mq c := mq_contents M (boost w) (cl_reply_mq c) @ [mk_message r k])"
  obtains t w r where "peer n M (cs_server s) = \<lparr>sv_request_mqs = [Some (cl_request_mq c)], sv_threads = [t], sv_world = w\<rparr>"
    "serving vol M (cl_request_mq c) (cl_volume c) (cl_reply_mq c) t w d" "Q r"
    "mq_contents M (boost w) (cl_request_mq c) = []" "mq_contents M (boost w) (cl_reply_mq c) = [mk_message r k]"
proof -
  let ?q = "cl_request_mq c" and ?rq = "cl_reply_mq c"
  from rel obtain t w d0 ws where r: "max_queue_size \<le> n" "cs_client s = Some c"
    "cs_server s = \<lparr>sv_request_mqs = [Some ?q], sv_threads = [t], sv_world = w\<rparr>"
    "serving vol M ?q (cl_volume c) ?rq t w d0"
    "mq_contents M (boost w) ?q = ws @ [m]" "length (ws @ [m]) \<le> max_queue_size"
    "\<forall>m \<in> set ws. write_msg (cl_volume c) d0 m" "d = foldl (\<lambda>d m. apply_write d (msg_bytes m)) d0 ws"
    "mq_contents M (boost w) ?rq = []" by (rule client_relE)
  have laws: "mq_laws M" "mq_limits M (boost w) ?rq = (max_queue_size, reply_size)"
    using r(4) vol_laws vol_limits by (auto simp: serving_def)
  from serve_writes [OF r(4,5,7)] obtain t1 w1 where
    one: "\<And>fuel. handle_requests (length ws + fuel) M (H M) ?q t w = handle_requests fuel M (H M) ?q t1 w1"
      "serving vol M ?q (cl_volume c) ?rq t1 w1 d" "mq_changes M (boost w) ?q [m] (boost w1)"
    using r(8) by auto
  have "\<not> mq_full M (boost w1) ?rq" "mq_contents M (boost w1) ?q = [m]" "mq_contents M (boost w1) ?rq = []"
    using one(2,3) laws r(9) by (auto simp: mq_full_def mq_changes_def serving_def size_defs)
  with serve [OF one(2)] obtain x t2 w2 where
    two: "\<And>fuel. handle_requests (Suc fuel) M (H M) ?q t1 w1 = handle_requests fuel M (H M) ?q t2 w2"
      "serving vol M ?q (cl_volume c) ?rq t2 w2 d" "Q x"
      "mq_contents M (boost w2) = (mq_contents M (boost w1))(?q := [], ?rq := [mk_message x k])" by auto
  have fuel: "n = length ws + Suc (n - length ws - 1)" using r(1,6) by simp
  have "handle_requests n M (H M) ?q t w = (t2, w2)"
    using two(2,4) laws(1)
    by (subst fuel) (simp only: one(1) two(1), simp add: handle_requests_wait serving_def)
  then have "peer n M (cs_server s) = \<lparr>sv_request_mqs = [Some ?q], sv_threads = [t2], sv_world = w2\<rparr>"
    using r(4) by (simp add: r(3) server_run_single serving_def)
  then show thesis using two(2-4) by (intro that [of t2 w2 x]) (auto simp: serving_def)
qed

lemma receive_message:
  assumes rel: "client_rel vol M n s c d [m]"
    and serve: "\<And>t w. serving vol M (cl_request_mq c) (cl_volume c) (cl_reply_mq c) t w d \<Longrightarrow>
      mq_contents M (boost w) (cl_request_mq c) = [m] \<Longrightarrow> \<not> mq_full M (boost w) (cl_reply_mq c) \<Longrightarrow>
      \<exists>r t' w'. (\<forall>fuel. handle_requests (Suc fuel) M (H M) (cl_request_mq c) t w = handle_requests fuel M (H M) (cl_request_mq c) t' w') \<and>
        serving vol M (cl_request_mq c) (cl_volume c) (cl_reply_mq c) t' w' d \<and> Q r \<and>
        mq_contents M (boost w') = (mq_contents M (boost w))(cl_request_mq c := [],
          cl_reply_mq c := mq_contents M (boost w) (cl_reply_mq c) @ [mk_message r k])"
  shows "\<exists>s' r. wait_mq (peer n M) (mq_receive M (cl_reply_mq c) reply_size) s = (Ret (mk_message r k), s') \<and> Q r \<and>
    client_rel vol M n s' c d [] \<and> cs_id s' = cs_id s \<and> cs_errno s' = cs_errno s"
proof -
  let ?q = "cl_request_mq c" and ?rq = "cl_reply_mq c"
  obtain t2 w2 x where run: "peer n M (cs_server s) = \<lparr>sv_request_mqs = [Some ?q], sv_threads = [t2], sv_world = w2\<rparr>"
    and two: "serving vol M ?q (cl_volume c) ?rq t2 w2 d" "Q x"
      "mq_contents M (boost w2) ?q = []" "mq_contents M (boost w2) ?rq = [mk_message x k]"
    using server_answers [OF rel serve] by blast
  from rel obtain t w d0 where r: "max_queue_size \<le> n" "cs_client s = Some c"
    "cs_server s = \<lparr>sv_request_mqs = [Some ?q], sv_threads = [t], sv_world = w\<rparr>"
    "serving vol M ?q (cl_volume c) ?rq t w d0" "mq_contents M (boost w) ?rq = []" by (rule client_relE)
  have laws: "mq_laws M" "mq_limits M (boost w) ?rq = (max_queue_size, reply_size)"
    "snd (mq_limits M (boost w2) ?rq) \<le> reply_size"
    using r(4) two(1) vol_laws vol_limits by (auto simp: serving_def)
  from mq_receiveE [OF laws(1,3) two(4)] obtain b where
    recv: "mq_receive M ?rq reply_size (boost w2) = (MQ_ok (mk_message x k), b)" "mq_changes M (boost w2) ?rq [] b" .
  define s' where "s' = set_boost b (s\<lparr>cs_server := peer n M (cs_server s)\<rparr>)"
  have "wait_mq (peer n M) (mq_receive M ?rq reply_size) s = (Ret (mk_message x k), s')"
    unfolding s'_def using mq_receive_blocks [OF laws(1) _ r(5), of reply_size] laws(2) recv(1) r(3) run
    by (intro wait_mq_later) simp_all
  moreover have "client_rel vol M n s' c d []"
    using r(1,2) recv(2) two vol_frame [of M w2 "cl_volume c" ?rq d ?rq] run
    unfolding client_rel_def
    by (intro conjI exI [of _ t2] exI [of _ "w2\<lparr>boost := b\<rparr>"] exI [of _ d] exI [of _ "[]"])
      (auto simp: s'_def set_boost_def serving_def mq_changes_def)
  ultimately show ?thesis using two(2) by (auto simp: s'_def)
qed

lemma put_header_rel:
  assumes "client_rel vol M n s c d []"
  shows "\<exists>s' c'. put_request_header type acb s = (Ret (), s') \<and> client_rel vol M n s' c' d [] \<and>
    cs_id s' = cs_id s + 1 \<and> cl_request_mq c' = cl_request_mq c \<and> cl_reply_mq c' = cl_reply_mq c \<and> cl_volume c' = cl_volume c \<and>
    cl_request_msg c' = put_header (cl_request_msg c) (Header_make False type (scast (cs_id s + 1)) (cl_volume c) acb)"
proof -
  have c: "cs_client s = Some c" using assms by (rule client_relE)
  let ?m = "put_header (cl_request_msg c) (Header_make False type (scast (cs_id s + 1)) (cl_volume c) acb)"
  let ?s = "s\<lparr>cs_id := cs_id s + 1, cs_client := Some (c\<lparr>cl_request_msg := ?m\<rparr>)\<rparr>"
  have "put_request_header type acb s = (Ret (), ?s)"
    using c by (simp add: put_request_header_def set_request_msg_def this_def cmd_simps)
  moreover have "client_rel vol M n ?s (c\<lparr>cl_request_msg := ?m\<rparr>) d []"
    by (rule client_rel_frame [OF assms]) simp_all
  ultimately show ?thesis by (intro exI [of _ ?s] exI [of _ "c\<lparr>cl_request_msg := ?m\<rparr>"]) simp
qed

lemma set_request_msg_rel:
  assumes "client_rel vol M n s c d []"
  shows "set_request_msg m s = (Ret (), s\<lparr>cs_client := Some (c\<lparr>cl_request_msg := m\<rparr>)\<rparr>)"
    and "client_rel vol M n (s\<lparr>cs_client := Some (c\<lparr>cl_request_msg := m\<rparr>)\<rparr>) (c\<lparr>cl_request_msg := m\<rparr>) d []"
proof -
  have "cs_client s = Some c" using assms by (rule client_relE)
  then show "set_request_msg m s = (Ret (), s\<lparr>cs_client := Some (c\<lparr>cl_request_msg := m\<rparr>)\<rparr>)"
    by (simp add: set_request_msg_def this_def cmd_simps)
qed (rule client_rel_frame [OF assms], simp_all)

lemma send_write_refines:
  assumes rel: "client_rel vol M n s c d []"
    and range: "unat sz \<le> max_data_size" "0 \<le> sint off" "nat (sint off) + unat sz \<le> d_size d"
  shows "\<exists>s' c'. send_write M (peer n M) buf at sz off s = (Ret (), s') \<and>
    client_rel vol M n s' c' (disk_write d (nat (sint off)) buf at (unat sz)) [] \<and> cs_id s' = cs_id s + 1 \<and>
    cl_request_mq c' = cl_request_mq c \<and> cl_reply_mq c' = cl_reply_mq c \<and> cl_volume c' = cl_volume c"
proof -
  from put_header_rel [OF rel, of REQ_WRITE 0] obtain s1 c1 where
    one: "put_request_header REQ_WRITE 0 s = (Ret (), s1)" "client_rel vol M n s1 c1 d []" "cs_id s1 = cs_id s + 1"
      "cl_volume c1 = cl_volume c"
      "cl_request_msg c1 = put_header (cl_request_msg c) (Header_make False REQ_WRITE (scast (cs_id s + 1)) (cl_volume c) 0)"
      "cl_request_mq c1 = cl_request_mq c" "cl_reply_mq c1 = cl_reply_mq c"
    by blast
  define m where "m = memcpy (WriteRequest_init (cl_request_msg c1) off sz) write_data_at buf at (unat sz)"
  define c2 where "c2 = c1\<lparr>cl_request_msg := m\<rparr>"
  define s2 where "s2 = s1\<lparr>cs_client := Some c2\<rparr>"
  note two = set_request_msg_rel [OF one(2), of m, folded c2_def, folded s2_def]
  have c1: "cs_client s1 = Some c1" using one(2) by (rule client_relE)
  let ?msg = "mk_message m writerequest_size"
  from send_message [OF two(2), of ?msg] obtain s3 where
    three: "wait_mq (peer n M) (mq_send M (cl_request_mq c2) ?msg 0) s2 = (Ret (), s3)"
      "client_rel vol M n s3 c2 d [?msg]" "cs_id s3 = cs_id s2"
    using request_fits by auto
  have m: "get_header m = Header_make False REQ_WRITE (scast (cs_id s + 1)) (cl_volume c) 0" "req_offset m = off" "req_size m = sz"
    by (simp_all add: m_def one(5) mem_simps size_defs)
  have data: "msg_bytes ?msg (write_data_at + i) = buf (at + i)" if "i < unat sz" for i
    using that range(1) by (simp add: mk_message_def m_def mem_simps size_defs)
  have fields: "get_header (msg_bytes ?msg) = get_header m" "req_offset (msg_bytes ?msg) = off" "req_size (msg_bytes ?msg) = sz"
    by (simp_all add: mk_message_def m mem_simps size_defs)
  have "write_msg (cl_volume c2) d ?msg"
    using range one(4) by (simp add: write_msg_def addressed_def in_range_def fields m Header_make_def c2_def)
  then have "client_rel vol M n s3 c2 (apply_write d (msg_bytes ?msg)) []"
    by (rule client_rel_absorb [OF three(2)])
  moreover have "memcpy (d_bytes d) k (msg_bytes ?msg) write_data_at (unat sz) = memcpy (d_bytes d) k buf at (unat sz)" for k
    by (rule memcpy_cong) (rule data)
  then have "apply_write d (msg_bytes ?msg) = disk_write d (nat (sint off)) buf at (unat sz)"
    by (simp add: apply_write_def disk_write_def fields)
  moreover have "send_write M (peer n M) buf at sz off s = (Ret (), s3)"
    using range(1) one(1) c1 two(1) three(1)
    by (simp add: send_write_def send_request_def cbind_run assert_run this_def flip: m_def)
      (simp add: s2_def c2_def)
  ultimately show ?thesis
    using one(3,4,6,7) three(3) by (intro exI [of _ s3] exI [of _ c2]) (simp add: s2_def c2_def)
qed

lemma receive_reply_rel:
  assumes rel: "client_rel vol M n s c d [m]"
    and serve: "\<And>t w. serving vol M (cl_request_mq c) (cl_volume c) (cl_reply_mq c) t w d \<Longrightarrow>
      mq_contents M (boost w) (cl_request_mq c) = [m] \<Longrightarrow> \<not> mq_full M (boost w) (cl_reply_mq c) \<Longrightarrow>
      \<exists>r t' w'. (\<forall>fuel. handle_requests (Suc fuel) M (H M) (cl_request_mq c) t w = handle_requests fuel M (H M) (cl_request_mq c) t' w') \<and>
        serving vol M (cl_request_mq c) (cl_volume c) (cl_reply_mq c) t' w' d \<and> Q r \<and>
        mq_contents M (boost w') = (mq_contents M (boost w))(cl_request_mq c := [],
          cl_reply_mq c := mq_contents M (boost w) (cl_reply_mq c) @ [mk_message r k])"
  shows "\<exists>s' r c'. receive_reply M (peer n M) s = (Ret (memcpy (cl_reply_msg c) 0 r 0 k), s') \<and> Q r \<and>
    client_rel vol M n s' c' d [] \<and> cs_id s' = cs_id s"
proof -
  from receive_message [OF rel serve] obtain s1 r where
    one: "wait_mq (peer n M) (mq_receive M (cl_reply_mq c) reply_size) s = (Ret (mk_message r k), s1)" "Q r"
      "client_rel vol M n s1 c d []" "cs_id s1 = cs_id s" by blast
  have c: "cs_client s = Some c" "cs_client s1 = Some c" using rel one(3) by (auto elim: client_relE)
  let ?m = "memcpy (cl_reply_msg c) 0 r 0 k"
  let ?s = "s1\<lparr>cs_client := Some (c\<lparr>cl_reply_msg := ?m\<rparr>)\<rparr>"
  have "receive_reply M (peer n M) s = (Ret ?m, ?s)"
    using one(1) c by (simp add: receive_reply_def set_reply_msg_def this_def cmd_simps recv_mk_message)
  moreover have "client_rel vol M n ?s (c\<lparr>cl_reply_msg := ?m\<rparr>) d []"
    by (rule client_rel_frame [OF one(3)]) simp_all
  ultimately show ?thesis using one(2,4) by auto
qed

lemma send_read_refines:
  assumes rel: "client_rel vol M n s c d []"
    and range: "unat sz \<le> max_data_size" "0 \<le> sint off" "nat (sint off) + unat sz \<le> d_size d"
  shows "\<exists>s' c'. send_read M (peer n M) buf at sz off s = (Ret (disk_read d (nat (sint off)) buf at (unat sz)), s') \<and>
    client_rel vol M n s' c' d [] \<and> cs_id s' = cs_id s + 1"
proof -
  from put_header_rel [OF rel, of REQ_READ 0] obtain s1 c1 where
    one: "put_request_header REQ_READ 0 s = (Ret (), s1)" "client_rel vol M n s1 c1 d []" "cs_id s1 = cs_id s + 1"
      "cl_volume c1 = cl_volume c"
      "cl_request_msg c1 = put_header (cl_request_msg c) (Header_make False REQ_READ (scast (cs_id s + 1)) (cl_volume c) 0)"
    by blast
  define m where "m = ReadRequest_init (cl_request_msg c1) off sz"
  define c2 where "c2 = c1\<lparr>cl_request_msg := m\<rparr>"
  define s2 where "s2 = s1\<lparr>cs_client := Some c2\<rparr>"
  note two = set_request_msg_rel [OF one(2), of m, folded c2_def, folded s2_def]
  have c1: "cs_client s1 = Some c1" using one(2) by (rule client_relE)
  let ?msg = "mk_message m readrequest_size"
  from send_message [OF two(2), of ?msg] obtain s3 where
    three: "wait_mq (peer n M) (mq_send M (cl_request_mq c2) ?msg 0) s2 = (Ret (), s3)"
      "client_rel vol M n s3 c2 d [?msg]" "cs_id s3 = cs_id s2"
    using request_fits by auto
  have fields: "get_header (msg_bytes ?msg) = Header_make False REQ_READ (scast (cs_id s + 1)) (cl_volume c) 0"
    "req_offset (msg_bytes ?msg) = off" "req_size (msg_bytes ?msg) = sz"
    by (simp_all add: mk_message_def m_def one(5) mem_simps size_defs)
  have msg: "addressed REQ_READ (cl_volume c2) (msg_bytes ?msg)" "in_range d (msg_bytes ?msg)"
    using range one(4) by (simp_all add: addressed_def in_range_def fields Header_make_def c2_def)
  have "\<exists>r t' w'. (\<forall>fuel. handle_requests (Suc fuel) M (H M) (cl_request_mq c2) t w = handle_requests fuel M (H M) (cl_request_mq c2) t' w') \<and>
        serving vol M (cl_request_mq c2) (cl_volume c2) (cl_reply_mq c2) t' w' d \<and> is_read_reply (msg_bytes ?msg) r d \<and>
        mq_contents M (boost w') = (mq_contents M (boost w))(cl_request_mq c2 := [],
          cl_reply_mq c2 := mq_contents M (boost w) (cl_reply_mq c2) @ [mk_message r readreply_size])"
    if "serving vol M (cl_request_mq c2) (cl_volume c2) (cl_reply_mq c2) t w d"
      "mq_contents M (boost w) (cl_request_mq c2) = [?msg]" "\<not> mq_full M (boost w) (cl_reply_mq c2)" for t w
    by (rule serve_read [OF that _ msg]) (simp, blast)
  from receive_reply_rel [OF three(2) this] obtain s4 r c4 where
    four: "receive_reply M (peer n M) s3 = (Ret (memcpy (cl_reply_msg c2) 0 r 0 readreply_size), s4)"
      "is_read_reply (msg_bytes ?msg) r d" "client_rel vol M n s4 c4 d []" "cs_id s4 = cs_id s3" by blast
  let ?r = "memcpy (cl_reply_msg c2) 0 r 0 readreply_size"
  have r: "h_type (get_header ?r) = type_code REQ_READ" "get64 ?r 32 = sz"
    using four(2) [unfolded is_read_reply_def fields] by (simp_all add: Header_make_def mem_simps size_defs)
  have "?r (read_data_at + i) = d_bytes d (nat (sint off) + i)" if "i < unat sz" for i
    using that four(2) [unfolded is_read_reply_def fields] range(1) by (simp add: mem_simps size_defs)
  then have "memcpy buf at ?r read_data_at (unat sz) = disk_read d (nat (sint off)) buf at (unat sz)"
    unfolding disk_read_def by (rule memcpy_cong)
  moreover have "send_read M (peer n M) buf at sz off s = (Ret (memcpy buf at ?r read_data_at (unat sz)), s4)"
    using range(1) one(1) c1 two(1) three(1) four(1) r
    by (simp add: send_read_def send_request_def cbind_run assert_run ret_run this_def flip: m_def)
      (simp add: s2_def c2_def cbind_run assert_run ret_run)
  ultimately show ?thesis using four(3,4) one(3) three(3) by (auto simp: s2_def)
qed

lemma send_getsize_refines:
  assumes rel: "client_rel vol M n s c d []"
  shows "\<exists>s' c'. send_getsize M (peer n M) s = (Ret (word_of_nat (d_size d)), s') \<and>
    client_rel vol M n s' c' d [] \<and> cs_id s' = cs_id s + 1"
proof -
  from put_header_rel [OF rel, of REQ_GETSIZE 0] obtain s1 c1 where
    one: "put_request_header REQ_GETSIZE 0 s = (Ret (), s1)" "client_rel vol M n s1 c1 d []" "cs_id s1 = cs_id s + 1"
      "cl_volume c1 = cl_volume c"
      "cl_request_msg c1 = put_header (cl_request_msg c) (Header_make False REQ_GETSIZE (scast (cs_id s + 1)) (cl_volume c) 0)"
    by blast
  have c1: "cs_client s1 = Some c1" using one(2) by (rule client_relE)
  let ?msg = "mk_message (cl_request_msg c1) getsizerequest_size"
  from send_message [OF one(2), of ?msg] obtain s3 where
    three: "wait_mq (peer n M) (mq_send M (cl_request_mq c1) ?msg 0) s1 = (Ret (), s3)"
      "client_rel vol M n s3 c1 d [?msg]" "cs_id s3 = cs_id s1"
    using request_fits by auto
  have fields: "get_header (msg_bytes ?msg) = Header_make False REQ_GETSIZE (scast (cs_id s + 1)) (cl_volume c) 0"
    by (simp add: mk_message_def one(5) mem_simps size_defs)
  have msg: "addressed REQ_GETSIZE (cl_volume c1) (msg_bytes ?msg)"
    using one(4) by (simp add: addressed_def fields Header_make_def)
  have "\<exists>r t' w'. (\<forall>fuel. handle_requests (Suc fuel) M (H M) (cl_request_mq c1) t w = handle_requests fuel M (H M) (cl_request_mq c1) t' w') \<and>
        serving vol M (cl_request_mq c1) (cl_volume c1) (cl_reply_mq c1) t' w' d \<and> is_getsize_reply (msg_bytes ?msg) r d \<and>
        mq_contents M (boost w') = (mq_contents M (boost w))(cl_request_mq c1 := [],
          cl_reply_mq c1 := mq_contents M (boost w) (cl_reply_mq c1) @ [mk_message r getsizereply_size])"
    if "serving vol M (cl_request_mq c1) (cl_volume c1) (cl_reply_mq c1) t w d"
      "mq_contents M (boost w) (cl_request_mq c1) = [?msg]" "\<not> mq_full M (boost w) (cl_reply_mq c1)" for t w
    by (rule serve_getsize [OF that _ msg]) (simp, blast)
  from receive_reply_rel [OF three(2) this] obtain s4 r c4 where
    four: "receive_reply M (peer n M) s3 = (Ret (memcpy (cl_reply_msg c1) 0 r 0 getsizereply_size), s4)"
      "is_getsize_reply (msg_bytes ?msg) r d" "client_rel vol M n s4 c4 d []" "cs_id s4 = cs_id s3" by blast
  let ?r = "memcpy (cl_reply_msg c1) 0 r 0 getsizereply_size"
  have "h_type (get_header ?r) = type_code REQ_GETSIZE" "get64 ?r 32 = word_of_nat (d_size d)"
    using four(2) [unfolded is_getsize_reply_def fields] by (simp_all add: Header_make_def mem_simps size_defs)
  then have "send_getsize M (peer n M) s = (Ret (word_of_nat (d_size d)), s4)"
    using one(1) c1 three(1) four(1)
    by (simp add: send_getsize_def send_request_def cbind_run assert_run ret_run this_def)
  with four(3,4) one(3) three(3) show ?thesis by auto
qed

end

section \<open>The contract of the C interface\<close>

text \<open>A connected client with no request under way, over a disk.\<close>

definition connected :: "('b boost_mq \<Rightarrow> 'b world \<Rightarrow> u64 \<Rightarrow> mqid \<Rightarrow> disk \<Rightarrow> bool) \<Rightarrow> 'b boost_mq \<Rightarrow> nat \<Rightarrow>
    'b csys \<Rightarrow> disk \<Rightarrow> bool" where
  "connected vol M n s d \<longleftrightarrow> (\<exists>c. client_rel vol M n s c d [])"

text \<open>
  What the block driver relies on: reads and writes of at most \<open>max_data_size\<close> bytes inside the
  disk succeed and act on it, and the size query returns its size. \<open>env\<close> stands for the
  parameters of the environment.
\<close>

locale block_store =
  fixes rd :: "'env \<Rightarrow> mem \<Rightarrow> nat \<Rightarrow> u64 \<Rightarrow> u64 \<Rightarrow> ('s, bool \<times> mem) cmd"
    and wr :: "'env \<Rightarrow> mem \<Rightarrow> nat \<Rightarrow> u64 \<Rightarrow> u64 \<Rightarrow> ('s, bool) cmd"
    and len :: "'env \<Rightarrow> ('s, u64) cmd"
    and stores :: "'env \<Rightarrow> 's \<Rightarrow> disk \<Rightarrow> bool"
  assumes wr_law: "stores env s d \<Longrightarrow> unat sz \<le> max_data_size \<Longrightarrow> 0 \<le> sint off \<Longrightarrow> nat (sint off) + unat sz \<le> d_size d \<Longrightarrow>
      \<exists>s'. wr env buf at sz off s = (Ret True, s') \<and> stores env s' (disk_write d (nat (sint off)) buf at (unat sz))"
    and rd_law: "stores env s d \<Longrightarrow> unat sz \<le> max_data_size \<Longrightarrow> 0 \<le> sint off \<Longrightarrow> nat (sint off) + unat sz \<le> d_size d \<Longrightarrow>
      \<exists>s'. rd env buf at sz off s = (Ret (True, disk_read d (nat (sint off)) buf at (unat sz)), s') \<and> stores env s' d"
    and len_law: "stores env s d \<Longrightarrow> \<exists>s'. len env s = (Ret (word_of_nat (d_size d)), s') \<and> stores env s' d"

text \<open>Any server with a handler that keeps its contract gives the client that contract.\<close>

sublocale storage_handler \<subseteq> store: block_store
  "\<lambda>(M, n). shared_mem_read M (server_run n M (H M))" "\<lambda>(M, n). shared_mem_write M (server_run n M (H M))"
  "\<lambda>(M, n). getsize_volume M (server_run n M (H M))" "\<lambda>(M, n). connected vol M n"
proof (unfold_locales, goal_cases)
  case (1 env s d sz off buf at)
  then obtain M n c where env: "env = (M, n)" "client_rel vol M n s c d []" by (cases env) (auto simp: connected_def)
  from send_write_refines [OF env(2) 1(2-4), of buf at] show ?case
    by (auto simp: env(1) shared_mem_write_def catch_all_run cbind_run ret_run connected_def)
next
  case (2 env s d sz off buf at)
  then obtain M n c where env: "env = (M, n)" "client_rel vol M n s c d []" by (cases env) (auto simp: connected_def)
  from send_read_refines [OF env(2) 2(2-4), of buf at] show ?case
    by (auto simp: env(1) shared_mem_read_def catch_all_run cbind_run ret_run connected_def)
next
  case (3 env s d)
  then obtain M n c where env: "env = (M, n)" "client_rel vol M n s c d []" by (cases env) (auto simp: connected_def)
  from send_getsize_refines [OF env(2)] show ?case
    by (auto simp: env(1) getsize_volume_def catch_all_run connected_def)
qed

end
