(* ===== verification/Volume_Properties.thy ===== *)
theory Volume_Properties
  imports Io_Handler
begin

text \<open>
  The properties of the operations of \<open>src/server.c\<close>, with a sample state that shows that their
  hypotheses can hold: the invariant every operation keeps, reads after writes, isolation between
  volumes, and each way an operation fails.
\<close>

section \<open>A sample state\<close>

text \<open>
  A server with one open volume: handle 1, descriptor 3, a file of 16 GiB of zeros, reply queue 2;
  queue 0 is the request queue. It shows that the hypotheses of the properties can hold.
\<close>

definition sample_path :: string where
  "sample_path = volume_path ''vol''"

definition sample_boost :: fifo where
  "sample_boost = \<lparr>f_names = [''vol'' \<mapsto> 2], f_queues = (\<lambda>_. []),
     f_limits = (\<lambda>q. if q = 2 then (max_queue_size, reply_size) else (max_queue_size, request_size)), f_next = 3\<rparr>"

definition sample_os :: os where
  "sample_os = \<lparr>os_files = [sample_path \<mapsto> \<lparr>file_size = 2 ^ 34, file_data = (\<lambda>_. 0)\<rparr>], os_fds = [3 \<mapsto> sample_path],
     os_next_fd = 4, os_errno = 0, os_script = []\<rparr>"

definition sample_world :: "fifo world" where
  "sample_world = \<lparr>boost = sample_boost, os = sample_os,
     heap = [1 \<mapsto> \<lparr>vs_volume_name = ''vol'', vs_volume_id = 0, vs_fd = 3, vs_reply_mq = 2\<rparr>], brk = 2\<rparr>"

definition sample_disk :: disk where
  "sample_disk = \<lparr>d_size = 2 ^ 34, d_bytes = (\<lambda>_. 0)\<rparr>"

lemmas sample_defs = sample_world_def sample_os_def sample_boost_def sample_disk_def

lemma sample_wf: "wf_world sample_world"
  by (auto simp: wf_world_def wf_os_def sample_defs split: if_splits)

lemma sample_mq:
  "mq_contents fifo_mq sample_boost q = []" "mq_limits fifo_mq sample_boost 2 = (max_queue_size, reply_size)"
  "mq_limits fifo_mq sample_boost 0 = (max_queue_size, request_size)" "\<not> mq_full fifo_mq sample_boost 2"
  "mq_names fifo_mq sample_boost ''vol'' = Some 2"
  by (simp_all add: fifo_mq_def sample_boost_def mq_full_def size_defs fifo_lookup_def)

lemma sample_volume: "ioh_volume fifo_mq sample_world 1 2 sample_disk"
  by (simp add: ioh_volume_def fifo_mq_laws sample_mq fd_file_def file_bytes_def
      sample_world_def sample_os_def sample_disk_def fun_eq_iff)

text \<open>The path of the file behind a volume.\<close>

definition volume_file :: "'b world \<Rightarrow> u64 \<Rightarrow> string option" where
  "volume_file w v = (case heap w v of None \<Rightarrow> None | Some vs \<Rightarrow> os_fds (os w) (vs_fd vs))"

text \<open>A request of type \<open>ty\<close> for volume 1: four bytes of value 7 at offset 4096.\<close>

definition sample_request :: "RequestType \<Rightarrow> mem" where
  "sample_request ty = memcpy (WriteRequest_init (put_header (\<lambda>_. 0) (Header_make False ty 1 1 0)) 4096 4) write_data_at (\<lambda>_. 7) 0 4"

lemma sample_request_fields:
  "h_volume (get_header (sample_request ty)) = 1" "h_type (get_header (sample_request ty)) = type_code ty"
  "\<not> h_stop (get_header (sample_request ty))"
  "req_offset (sample_request ty) = 4096" "req_size (sample_request ty) = 4"
  by (simp_all add: sample_request_def mem_simps Header_make_def size_defs)

text \<open>The sample state with a second volume, of another name: handle 2, descriptor 4.\<close>

definition sample_pair :: "fifo world" where
  "sample_pair = sample_world\<lparr>
     os := sample_os\<lparr>os_files := (os_files sample_os)(volume_path ''two'' \<mapsto> \<lparr>file_size = 2 ^ 34, file_data = (\<lambda>_. 0)\<rparr>),
       os_fds := (os_fds sample_os)(4 \<mapsto> volume_path ''two''), os_next_fd := 5\<rparr>,
     heap := (heap sample_world)(2 \<mapsto> \<lparr>vs_volume_name = ''two'', vs_volume_id = 0, vs_fd = 4, vs_reply_mq = 2\<rparr>), brk := 3\<rparr>"

lemma sample_pair_volumes:
  "ioh_volume fifo_mq sample_pair 1 2 sample_disk" "ioh_volume fifo_mq sample_pair 2 2 sample_disk"
  "volume_file sample_pair 2 \<noteq> volume_file sample_pair 1" "wf_world sample_pair"
proof -
  have path: "volume_path ''two'' \<noteq> sample_path" by (simp add: sample_path_def volume_path_def)
  show "ioh_volume fifo_mq sample_pair 1 2 sample_disk" "ioh_volume fifo_mq sample_pair 2 2 sample_disk"
    using path by (simp_all add: ioh_volume_def fifo_mq_laws sample_mq fd_file_def file_bytes_def
      sample_pair_def sample_world_def sample_os_def sample_disk_def fun_eq_iff)
  show "volume_file sample_pair 2 \<noteq> volume_file sample_pair 1" "wf_world sample_pair"
    using path by (auto simp: volume_file_def wf_world_def wf_os_def sample_pair_def sample_defs split: if_splits)
qed

text \<open>A request to open the volume of name \<open>nm\<close>.\<close>

definition sample_open :: "string \<Rightarrow> mem" where
  "sample_open nm = open_request (put_header (\<lambda>_. 0) (Header_make False REQ_OPEN 1 0 0)) nm"

lemma sample_open_names:
  assumes "nul_free nm" "length nm < path_max"
  shows "cstr (sample_open nm) volume_name_at (request_size - volume_name_at) = Some nm"
    and "cstr (sample_open nm) reply_mq_name_at (request_size - reply_mq_name_at) = Some nm"
  using open_request_names [OF assms, of "put_header (\<lambda>_. 0) (Header_make False REQ_OPEN 1 0 0)" "sample_open nm"]
  by (simp_all add: sample_open_def mem_simps size_defs)

lemma sample_names:
  "nul_free ''vol''" "nul_free ''new''" "length ''vol'' < path_max" "length ''new'' < path_max"
  by (simp_all add: nul_free_def byte_of_char_def size_defs)

lemmas sample_vol = sample_open_names [OF sample_names(1,3)]

section \<open>Auxiliary facts\<close>

lemma ioh_volume_other:
  assumes u: "ioh_volume M w u p e" "volume_file w u \<noteq> Some path"
  shows "ioh_volume M (w\<lparr>os := put_file path g (os w)\<rparr>) u p e"
proof -
  from u(1) obtain vs path' f where v: "u \<noteq> 0" "mq_laws M" "os_script (os w) = []"
    "mq_limits M (boost w) p = (max_queue_size, reply_size)"
    "heap w u = Some vs" "vs_reply_mq vs = p" "fd_file (os w) (vs_fd vs) = Some (path', f)"
    "e = \<lparr>d_size = file_size f, d_bytes = file_bytes f\<rparr>" by (rule ioh_volumeE)
  moreover from v u(2) have "path' \<noteq> path" by (auto simp: volume_file_def fd_file_iff)
  ultimately show ?thesis
    by (auto simp: ioh_volume_def put_file_def fd_file_iff intro!: exI [of _ path'])
qed

lemma minus_one_not_size:
  assumes "unat (n :: u64) \<le> max_data_size"
  shows "word_of_int (- 1) \<noteq> n"
proof
  assume "word_of_int (- 1) = n"
  with assms have "unat (- 1 :: u64) \<le> max_data_size" by simp
  moreover have "unat (- 1 :: u64) = 2 ^ 64 - 1" by (simp add: unsigned_minus_1_eq_mask mask_eq_exp_minus_1)
  ultimately show False by (simp add: size_defs)
qed

lemma short_not_size:
  assumes "i < unat (n :: u64)"
  shows "word_of_nat i \<noteq> n"
proof
  assume "word_of_nat i = n"
  moreover have "unat n < 2 ^ 64" using unsigned_less [of n] by simp
  ultimately have "unat n = i" using assms by (auto simp: unat_of_nat)
  with assms show False by simp
qed

lemma sys_pwrite_cut:
  assumes "os_script s = x # xs" "x = Sys_err e \<or> x = Sys_short k \<and> k < n"
  shows "fst (sys_pwrite fd buf n off s) = - 1 \<or> (\<exists>i < n. fst (sys_pwrite fd buf n off s) = int i)"
  using assms by (cases "off < 0") (auto simp: sys_pwrite_def next_result_def sys_fail_def moved_def split: option.split)

lemma sys_pread_cut:
  assumes "os_script s = x # xs" "x = Sys_err e \<or> x = Sys_short k \<and> k < n"
  shows "fst (fst (sys_pread fd n off s)) = - 1 \<or> (\<exists>i < n. fst (fst (sys_pread fd n off s)) = int i)"
  using assms by (cases "off < 0") (auto simp: sys_pread_def next_result_def moved_def split: option.split)

section \<open>Properties\<close>

text \<open>C23. Whatever an operation of the handler is asked, and however it ends (normally, with
  an exception, a failed assertion or undefined behaviour), it keeps the invariant between volumes
  and descriptors: every live volume has an open descriptor of its own.\<close>

theorem ioh_operations_keep_wf_world:
  assumes "wf_world w"
  shows "wf_world (snd (ioh_open M req reply w)) \<and> wf_world (snd (ioh_close req w)) \<and>
    wf_world (snd (ioh_getsize M req reply w)) \<and> wf_world (snd (ioh_fsync M req reply w)) \<and>
    wf_world (snd (ioh_write req w)) \<and> wf_world (snd (ioh_read M req reply w))"
  using assms by (intro conjI ioh_keeps [unfolded keeps_def, rule_format])

theorem ioh_operations_keep_wf_world_witness:
  "wf_world sample_world \<and> wf_world (snd (ioh_open fifo_mq (\<lambda>_. 0) (\<lambda>_. 0) sample_world))"
  using sample_wf ioh_operations_keep_wf_world [OF sample_wf, of fifo_mq "\<lambda>_. 0" "\<lambda>_. 0"] by blast

text \<open>C26. A request to write followed by a request to read the same range of the same
  volume: both return, the reply carries the read's header and exactly the bytes of the write, and
  it is the only message sent.\<close>

theorem ioh_read_after_write:
  assumes "ioh_volume M w v q d" "\<not> mq_full M (boost w) q"
    and "h_volume (get_header wreq) = v" "0 \<le> sint (req_offset wreq)" "unat (req_size wreq) \<le> max_data_size"
      "nat (sint (req_offset wreq)) + unat (req_size wreq) \<le> d_size d"
    and "h_volume (get_header rreq) = v" "req_offset rreq = req_offset wreq" "req_size rreq = req_size wreq"
  shows "\<exists>w1 w2 r. ioh_write wreq w = (Ret (), w1) \<and> ioh_read M rreq reply w1 = (Ret r, w2) \<and>
    mq_contents M (boost w2) = (mq_contents M (boost w))(q := mq_contents M (boost w) q @ [mk_message r readreply_size]) \<and>
    get_header r = get_header rreq \<and> (\<forall>i < unat (req_size rreq). r (read_data_at + i) = wreq (write_data_at + i))"
proof -
  from ioh_write_run [OF assms(1,3-6)] obtain w1 where
    one: "ioh_write wreq w = (Ret (), w1)" "boost w1 = boost w"
      "ioh_volume M w1 v q (disk_write d (nat (sint (req_offset wreq))) wreq write_data_at (unat (req_size wreq)))" by blast
  from ioh_read_run [OF one(3) assms(7), of reply] obtain w2 r where
    two: "ioh_read M rreq reply w1 = (Ret r, w2)"
      "is_read_reply rreq r (disk_write d (nat (sint (req_offset wreq))) wreq write_data_at (unat (req_size wreq)))"
      "mq_changes M (boost w1) q (mq_contents M (boost w1) q @ [mk_message r readreply_size]) (boost w2)"
    using assms(2,4-6,8,9) one(2) by auto
  then have "r (read_data_at + i) = wreq (write_data_at + i)" if "i < unat (req_size rreq)" for i
    using that assms(8,9) by (simp add: is_read_reply_def disk_write_def mem_simps)
  with one two show ?thesis by (auto simp: is_read_reply_def mq_changes_def)
qed

theorem ioh_read_after_write_witness:
  "\<exists>w1 w2 r. ioh_write (sample_request REQ_WRITE) sample_world = (Ret (), w1) \<and>
    ioh_read fifo_mq (sample_request REQ_READ) (\<lambda>_. 0) w1 = (Ret r, w2) \<and> r read_data_at = 7"
proof -
  have "\<exists>w1 w2 r. ioh_write (sample_request REQ_WRITE) sample_world = (Ret (), w1) \<and>
    ioh_read fifo_mq (sample_request REQ_READ) (\<lambda>_. 0) w1 = (Ret r, w2) \<and>
    mq_contents fifo_mq (boost w2) = (mq_contents fifo_mq (boost sample_world))(2 := mq_contents fifo_mq (boost sample_world) 2 @ [mk_message r readreply_size]) \<and>
    get_header r = get_header (sample_request REQ_READ) \<and>
    (\<forall>i < unat (req_size (sample_request REQ_READ)). r (read_data_at + i) = sample_request REQ_WRITE (write_data_at + i))"
    by (rule ioh_read_after_write [OF sample_volume])
      (simp_all add: sample_request_fields sample_mq sample_disk_def size_defs, simp add: sample_world_def sample_mq)
  then obtain w1 w2 r where r: "ioh_write (sample_request REQ_WRITE) sample_world = (Ret (), w1)"
    "ioh_read fifo_mq (sample_request REQ_READ) (\<lambda>_. 0) w1 = (Ret r, w2)"
    "\<forall>i < unat (req_size (sample_request REQ_READ)). r (read_data_at + i) = sample_request REQ_WRITE (write_data_at + i)"
    by blast
  have "r (read_data_at + 0) = sample_request REQ_WRITE (write_data_at + 0)" using r(3) [rule_format, of 0] by (simp add: sample_request_fields)
  then have "r read_data_at = 7" by (simp add: sample_request_def mem_simps)
  with r show ?thesis by blast
qed

text \<open>A write to one volume changes its disk as specified and leaves the disk of every
  volume that is backed by another file as it was.\<close>

lemma ioh_write_isolated:
  assumes "ioh_volume M w v q d" "ioh_volume M w u p e" "volume_file w u \<noteq> volume_file w v"
    and "h_volume (get_header req) = v" "0 \<le> sint (req_offset req)" "unat (req_size req) \<le> max_data_size"
      "nat (sint (req_offset req)) + unat (req_size req) \<le> d_size d"
  shows "\<exists>w'. ioh_write req w = (Ret (), w') \<and> ioh_volume M w' u p e \<and>
    ioh_volume M w' v q (disk_write d (nat (sint (req_offset req))) req write_data_at (unat (req_size req)))"
proof -
  from ioh_write_run [OF assms(1,4-7)] obtain w' where
    w': "ioh_write req w = (Ret (), w')"
      "ioh_volume M w' v q (disk_write d (nat (sint (req_offset req))) req write_data_at (unat (req_size req)))" by blast
  from assms(1) obtain vs path f where v: "v \<noteq> 0" "os_script (os w) = []" "heap w v = Some vs"
    "fd_file (os w) (vs_fd vs) = Some (path, f)" by (rule ioh_volumeE)
  then have "\<exists>g. w' = w\<lparr>os := put_file path g (os w)\<rparr>"
    using w'(1) assms(4-6)
    by (auto simp: ioh_write_def deref_run cmd_simps sysc_def sys_pwrite_def next_result_def moved_def)
  moreover have "volume_file w v = Some path"
    using v(3,4) by (auto simp: volume_file_def fd_file_iff)
  ultimately show ?thesis using w' ioh_volume_other [OF assms(2)] assms(3) by auto
qed

lemma ioh_write_isolated_witness:
  "\<exists>w'. ioh_write (sample_request REQ_WRITE) sample_pair = (Ret (), w') \<and> ioh_volume fifo_mq w' 2 2 sample_disk"
proof -
  have "\<exists>w'. ioh_write (sample_request REQ_WRITE) sample_pair = (Ret (), w') \<and> ioh_volume fifo_mq w' 2 2 sample_disk \<and>
    ioh_volume fifo_mq w' 1 2 (disk_write sample_disk (nat (sint (req_offset (sample_request REQ_WRITE))))
      (sample_request REQ_WRITE) write_data_at (unat (req_size (sample_request REQ_WRITE))))"
    by (rule ioh_write_isolated [OF sample_pair_volumes(1-3)])
      (simp_all add: sample_request_fields sample_disk_def size_defs)
  then show ?thesis by blast
qed

text \<open>Closing a volume frees its object and its descriptor and leaves every other volume
  working on its disk.\<close>

lemma ioh_close_isolated:
  assumes "wf_world w" "ioh_volume M w v q d" "ioh_volume M w u p e" "u \<noteq> v" "h_volume (get_header req) = v"
  shows "\<exists>w'. ioh_close req w = (Ret (), w') \<and> heap w' v = None \<and> os_fds (os w') (vs_fd (the (heap w v))) = None \<and>
    ioh_volume M w' u p e"
proof -
  from assms(2) obtain vs path f where v: "v \<noteq> 0" "os_script (os w) = []" "heap w v = Some vs"
    "fd_file (os w) (vs_fd vs) = Some (path, f)" by (rule ioh_volumeE)
  from assms(3) obtain vu path' f' where u: "heap w u = Some vu" "fd_file (os w) (vs_fd vu) = Some (path', f')"
    by (rule ioh_volumeE)
  have "vs_fd vu \<noteq> vs_fd vs" using wf_worldD(6) [OF assms(1) u(1) v(3)] assms(4) by blast
  moreover have "os_fds (os w) (vs_fd vs) \<noteq> None" using v(4) by (auto simp: fd_file_iff)
  ultimately show ?thesis
    using assms(3-5) v u
    by (auto simp: ioh_close_def ioh_close_volume_def deref_run cmd_simps sysc_def sys_close_def next_result_def
        delete_VolumeState_def ioh_volume_def fd_file_iff)
qed

lemma ioh_close_isolated_witness:
  "\<exists>w'. ioh_close (sample_request REQ_CLOSE) sample_pair = (Ret (), w') \<and> heap w' 1 = None \<and>
    ioh_volume fifo_mq w' 2 2 sample_disk"
  using ioh_close_isolated [OF sample_pair_volumes(4,1,2) _ sample_request_fields(1), of REQ_CLOSE] by auto

text \<open>C34. A request with a null handle: writes and closes are ignored, while reads, size
  queries and flushes reach for the reply queue of the volume they do not have, which is undefined
  behaviour.\<close>

theorem ioh_null_handle:
  assumes "h_volume (get_header req) = 0"
  shows "ioh_write req w = (Ret (), w) \<and> ioh_close req w = (Ret (), w) \<and>
    fst (ioh_read M req reply w) = Fail Undef \<and> fst (ioh_getsize M req reply w) = Fail Undef \<and>
    fst (ioh_fsync M req reply w) = Fail Undef"
  using assms
  by (simp add: ioh_write_def ioh_close_def ioh_close_volume_def ioh_read_def ioh_getsize_def ioh_fsync_def
      deref_def errno_def cmd_simps Let_def)

theorem ioh_null_handle_witness:
  "h_volume (get_header (\<lambda>_. 0)) = 0 \<and> ioh_write (\<lambda>_. 0) sample_world = (Ret (), sample_world) \<and>
    fst (ioh_read fifo_mq (\<lambda>_. 0) (\<lambda>_. 0) sample_world) = Fail Undef"
proof -
  have "h_volume (get_header (\<lambda>_. 0)) = 0" by (simp add: get_header_def get64_def)
  with ioh_null_handle [OF this, of sample_world fifo_mq "\<lambda>_. 0"] show ?thesis by blast
qed

text \<open>C35. After a volume is closed its handle dangles: every operation that uses it again is
  undefined behaviour.\<close>

theorem ioh_use_after_close:
  assumes "heap w v = Some vs" "v \<noteq> 0" "h_volume (get_header creq) = v" "h_volume (get_header req) = v"
  shows "\<exists>w'. ioh_close creq w = (Ret (), w') \<and>
    fst (ioh_write req w') = Fail Undef \<and> fst (ioh_close req w') = Fail Undef \<and>
    fst (ioh_read M req reply w') = Fail Undef \<and> fst (ioh_getsize M req reply w') = Fail Undef \<and>
    fst (ioh_fsync M req reply w') = Fail Undef"
proof -
  from ioh_close_volume_run [OF assms(1,2)] obtain s where
    c: "ioh_close_volume v w = (Ret (), w\<lparr>os := s, heap := (heap w)(v := None)\<rparr>)" by blast
  then show ?thesis
    using assms(2-4)
    by (simp add: ioh_write_def ioh_close_def c) (simp add: ioh_close_volume_def ioh_read_def ioh_getsize_def ioh_fsync_def
      deref_def errno_def cmd_simps Let_def)
qed

theorem ioh_use_after_close_witness:
  "\<exists>w'. ioh_close (sample_request REQ_CLOSE) sample_world = (Ret (), w') \<and>
    fst (ioh_read fifo_mq (sample_request REQ_READ) (\<lambda>_. 0) w') = Fail Undef"
proof -
  obtain vs where "heap sample_world 1 = Some vs" by (simp add: sample_world_def)
  from ioh_use_after_close [OF this _ sample_request_fields(1) sample_request_fields(1), of REQ_CLOSE REQ_READ fifo_mq "\<lambda>_. 0"]
  show ?thesis by auto
qed

text \<open>C33. When the system fails a transfer or cuts it short, reads and writes of the handler
  fail their assertion; the client gets no error reply.\<close>

theorem ioh_failed_transfer_aborts:
  assumes "heap w v = Some vs" "v \<noteq> 0" "h_volume (get_header req) = v" "unat (req_size req) \<le> max_data_size"
    and "os_script (os w) = x # xs" "x = Sys_err e \<or> x = Sys_short k \<and> k < unat (req_size req)"
  shows "fst (ioh_write req w) = Fail Abort \<and> fst (ioh_read M req reply w) = Fail Abort"
proof -
  let ?n = "unat (req_size req)"
  have bad: "word_of_int j \<noteq> req_size req \<and> nat j \<le> max_data_size" if "j = - 1 \<or> (\<exists>i < ?n. j = int i)" for j
    using that minus_one_not_size [OF assms(4)] short_not_size assms(4) by auto
  obtain j s where "sys_pwrite (vs_fd vs) (\<lambda>i. req (write_data_at + i)) ?n (sint (req_offset req)) (os w) = (j, s)" by fastforce
  moreover from this bad [of j] sys_pwrite_cut [OF assms(5,6)] have "word_of_int j \<noteq> req_size req" by (metis fst_conv)
  ultimately have "fst (ioh_write req w) = Fail Abort"
    using assms(1-4) by (simp add: ioh_write_def deref_run cmd_simps sysc_def)
  moreover obtain j m s where "sys_pread (vs_fd vs) ?n (sint (req_offset req)) (os w) = ((j, m), s)" by (metis surj_pair)
  moreover from this bad [of j] sys_pread_cut [OF assms(5,6)] have "word_of_int j \<noteq> req_size req \<and> nat j \<le> max_data_size"
    by (metis fst_conv)
  ultimately show ?thesis
    using assms(1-3) by (simp add: ioh_read_def deref_run cmd_simps sysc_def)
qed

theorem ioh_failed_transfer_aborts_witness:
  "fst (ioh_write (sample_request REQ_WRITE) (sample_world\<lparr>os := sample_os\<lparr>os_script := [Sys_short 3]\<rparr>\<rparr>)) = Fail Abort"
proof -
  let ?w = "sample_world\<lparr>os := sample_os\<lparr>os_script := [Sys_short 3]\<rparr>\<rparr>"
  obtain vs where vs: "heap ?w 1 = Some vs" by (simp add: sample_world_def)
  have "fst (ioh_write (sample_request REQ_WRITE) ?w) = Fail Abort \<and>
      fst (ioh_read fifo_mq (sample_request REQ_WRITE) (\<lambda>_. 0) ?w) = Fail Abort"
    by (rule ioh_failed_transfer_aborts [OF vs, of _ "Sys_short 3" "[]" 0 3])
      (simp_all add: sample_request_fields size_defs)
  then show ?thesis by blast
qed

text \<open>A size query or a flush blocks for ever when the reply queue of the volume is full
  and nobody empties it.\<close>

lemma ioh_full_reply_queue_blocks:
  assumes "ioh_volume M w v q d" "mq_full M (boost w) q" "h_volume (get_header req) = v"
  shows "fst (ioh_getsize M req reply w) = Fail Hang \<and> fst (ioh_fsync M req reply w) = Fail Hang"
proof -
  from assms(1) obtain vs p f where v: "v \<noteq> 0" "mq_laws M" "os_script (os w) = []"
    "mq_limits M (boost w) q = (max_queue_size, reply_size)"
    "heap w v = Some vs" "vs_reply_mq vs = q" "fd_file (os w) (vs_fd vs) = Some (p, f)" by (rule ioh_volumeE)
  have "mqc (mq_send M q (mk_message r getsizereply_size) 0) w = (Fail Hang, w)" for r
    using mq_send_blocks [OF v(2) _ assms(2), of "mk_message r getsizereply_size"] v(4) reply_fits by (simp add: mqc_def)
  then show ?thesis
    using v assms(3)
    by (simp add: ioh_getsize_def ioh_fsync_def deref_run cmd_simps sysc_def sys_fstat_def sys_fsync_def next_result_def
        errno_def Let_def)
qed

lemma ioh_full_reply_queue_blocks_witness:
  "fst (ioh_getsize fifo_mq (sample_request REQ_GETSIZE) (\<lambda>_. 0)
     (sample_world\<lparr>boost := sample_boost\<lparr>f_queues := (\<lambda>_. replicate 32 \<lparr>msg_bytes = (\<lambda>_. 0), msg_size = 0\<rparr>)\<rparr>\<rparr>)) = Fail Hang"
proof -
  let ?w = "sample_world\<lparr>boost := sample_boost\<lparr>f_queues := (\<lambda>_. replicate 32 \<lparr>msg_bytes = (\<lambda>_. 0), msg_size = 0\<rparr>)\<rparr>\<rparr>"
  have "ioh_volume fifo_mq ?w 1 2 sample_disk"
    using sample_volume by (simp add: ioh_volume_def fifo_mq_def sample_world_def)
  moreover have "mq_full fifo_mq (boost ?w) 2" by (simp add: mq_full_def fifo_mq_def sample_boost_def size_defs)
  ultimately show ?thesis using ioh_full_reply_queue_blocks sample_request_fields(1) by blast
qed

text \<open>An existing file that the system refuses to open, for a reason other than its
  absence, takes the server down.\<close>

lemma ioh_open_refused_aborts:
  assumes "cstr req volume_name_at (request_size - volume_name_at) = Some nm"
    and "os_script (os w) = Sys_err e # xs" "e \<noteq> ENOENT"
  shows "fst (ioh_open M req reply w) = Fail Abort"
  using assms
  by (simp add: ioh_open_def ioh_open_body_def req_cstr_def cmd_simps sysc_def sys_open_def next_result_def sys_fail_def errno_def)

lemma ioh_open_refused_aborts_witness:
  "fst (ioh_open fifo_mq (sample_open ''vol'') (\<lambda>_. 0) (sample_world\<lparr>os := sample_os\<lparr>os_script := [Sys_err EIO]\<rparr>\<rparr>)) = Fail Abort"
  by (rule ioh_open_refused_aborts [OF sample_vol(1), where e = EIO and xs = "[]"])
    (simp_all add: EIO_def ENOENT_def)

text \<open>When the file cannot be created either, the handler returns with the negated error
  in its reply buffer, no volume and no descriptor, but sends no message at all.\<close>

lemma ioh_open_failed_create_is_silent:
  assumes "cstr req volume_name_at (request_size - volume_name_at) = Some nm"
    and "os_files (os w) (volume_path nm) = None" "os_script (os w) = Sys_ok # Sys_err e # xs" "0 < e"
  shows "\<exists>r w'. ioh_open M req reply w = (Ret r, w') \<and> boost w' = boost w \<and> heap w' = heap w \<and> os_fds (os w') = os_fds (os w) \<and>
    get32 r 40 = word_of_int (- e)"
  using assms
  by (simp add: ioh_open_def ioh_open_body_def req_cstr_def cmd_simps sysc_def sys_open_def next_result_def sys_fail_def
      errno_def ioh_close_volume_def ioh_open_reply_def mem_simps Let_def)

lemma ioh_open_failed_create_is_silent_witness:
  "\<exists>r w'. ioh_open fifo_mq (sample_open ''new'') (\<lambda>_. 0) (sample_world\<lparr>os := sample_os\<lparr>os_script := [Sys_ok, Sys_err EIO]\<rparr>\<rparr>) = (Ret r, w') \<and>
    boost w' = boost sample_world"
proof -
  have "os_files sample_os (volume_path ''new'') = None" by (simp add: sample_os_def sample_path_def volume_path_def)
  with ioh_open_failed_create_is_silent [OF sample_open_names(1) [OF sample_names(2,4)],
      of "sample_world\<lparr>os := sample_os\<lparr>os_script := [Sys_ok, Sys_err EIO]\<rparr>\<rparr>" EIO "[]" fifo_mq "\<lambda>_. 0"]
  show ?thesis by (auto simp: EIO_def)
qed

text \<open>When the file is open but cannot be resized, the error is reported: the reply with
  the negated error is sent, and the volume object and its descriptor are gone again.\<close>

lemma ioh_open_failed_truncate_reports:
  assumes w: "wf_world w" "os_files (os w) (volume_path nm) = Some f" "os_script (os w) = [Sys_ok, Sys_err e]" "brk w < 2 ^ 64"
      "0 < e" "e < 2 ^ 31"
    and laws: "mq_laws M" "mq_names M (boost w) rq = Some q"
      "mq_limits M (boost w) q = (max_queue_size, reply_size)" "\<not> mq_full M (boost w) q"
    and req: "cstr req volume_name_at (request_size - volume_name_at) = Some nm"
      "cstr req reply_mq_name_at (request_size - reply_mq_name_at) = Some rq"
  shows "\<exists>r w'. ioh_open M req reply w = (Ret r, w') \<and> sint (get32 r 40) = - e \<and>
    mq_contents M (boost w') q = mq_contents M (boost w) q @ [mk_message r openreply_size] \<and>
    heap w' (word_of_nat (brk w)) = None \<and> os_fds (os w') (os_next_fd (os w)) = None \<and> os_files (os w') = os_files (os w)"
proof -
  define v :: u64 where "v = word_of_nat (brk w)"
  define fd where "fd = os_next_fd (os w)"
  have v: "v \<noteq> 0" using new_address [OF w(1,4)] by (simp add: v_def)
  have fd: "0 \<le> fd" using wf_worldD(1) [OF w(1)] by (simp add: wf_os_def fd_def)
  define vs where "vs = \<lparr>vs_volume_name = nm, vs_volume_id = 0, vs_fd = fd, vs_reply_mq = q\<rparr>"
  define w1 where "w1 = w\<lparr>os := (os w)\<lparr>os_fds := (os_fds (os w))(fd \<mapsto> volume_path nm), os_next_fd := fd + 1,
      os_errno := e, os_script := []\<rparr>, heap := (heap w)(v \<mapsto> vs), brk := Suc (brk w)\<rparr>"
  define r where "r = ioh_open_reply req reply (- e) v"
  have body: "ioh_open_body M req w = (Ret (- e, v), w1)"
    using w fd laws req
    by (simp add: ioh_open_body_def ioh_open_attach_def req_cstr_def new_VolumeState_def cmd_simps mqc_def mq_open_run
        sysc_def sys_open_def new_fd_def sys_ftruncate_def next_result_def sys_fail_def errno_def w1_def vs_def v_def
        flip: fd_def)
  from mqc_send_run [of M "mk_message r openreply_size" w1 q] laws obtain b where
    send: "mqc (mq_send M q (mk_message r openreply_size) 0) w1 = (Ret (), w1\<lparr>boost := b\<rparr>)"
      "mq_changes M (boost w) q (mq_contents M (boost w) q @ [mk_message r openreply_size]) b"
    using reply_fits by (auto simp: w1_def)
  have vs: "heap (w1\<lparr>boost := b\<rparr>) v = Some vs" "heap w1 v = Some vs" by (simp_all add: w1_def)
  from ioh_close_volume_run [OF vs(1) v] obtain s where
    close: "ioh_close_volume v (w1\<lparr>boost := b\<rparr>) = (Ret (), w1\<lparr>boost := b, os := s, heap := (heap w1)(v := None)\<rparr>)"
      "os_fds s = (os_fds (os w1))(fd := None)" "os_files s = os_files (os w1)" by (auto simp: vs_def)
  have "ioh_open M req reply w = (Ret r, w1\<lparr>boost := b, os := s, heap := (heap w1)(v := None)\<rparr>)"
    using body v send(1) close(1) w(5) deref_run [OF vs(2) v] by (simp add: ioh_open_def cbind_run ret_run vs_def flip: r_def)
  moreover have "sint (word_of_int (- e) :: u32) = - e"
    using w(5,6) by (subst sint_sbintrunc', intro signed_take_bit_int_eq_self) simp_all
  then have "sint (get32 r 40) = - e" using w(5) by (simp add: r_def ioh_open_reply_def mem_simps)
  ultimately show ?thesis
    using send(2) close by (simp add: w1_def mq_changes_def flip: v_def fd_def)
qed

lemma ioh_open_failed_truncate_reports_witness:
  "\<exists>r w'. ioh_open fifo_mq (sample_open ''vol'') (\<lambda>_. 0) (sample_world\<lparr>os := sample_os\<lparr>os_script := [Sys_ok, Sys_err EIO]\<rparr>\<rparr>) = (Ret r, w') \<and>
    sint (get32 r 40) = - EIO \<and> heap w' 2 = None"
proof -
  let ?w = "sample_world\<lparr>os := sample_os\<lparr>os_script := [Sys_ok, Sys_err EIO]\<rparr>\<rparr>"
  have "wf_world ?w" by (auto simp: wf_world_def wf_os_def sample_defs split: if_splits)
  moreover have "os_files (os ?w) (volume_path ''vol'') = Some \<lparr>file_size = 2 ^ 34, file_data = (\<lambda>_. 0)\<rparr>"
    by (simp add: sample_os_def sample_path_def)
  ultimately have "\<exists>r w'. ioh_open fifo_mq (sample_open ''vol'') (\<lambda>_. 0) ?w = (Ret r, w') \<and> sint (get32 r 40) = - EIO \<and>
    mq_contents fifo_mq (boost w') 2 = mq_contents fifo_mq (boost ?w) 2 @ [mk_message r openreply_size] \<and>
    heap w' (word_of_nat (brk ?w)) = None \<and> os_fds (os w') (os_next_fd (os ?w)) = None \<and> os_files (os w') = os_files (os ?w)"
    by (rule ioh_open_failed_truncate_reports [where rq = "''vol''", OF _ _ _ _ _ _ fifo_mq_laws _ _ _ sample_vol])
      (simp_all add: EIO_def sample_mq sample_world_def)
  then show ?thesis by (auto simp: sample_world_def)
qed

text \<open>C25. A successful open: the reply carries a handle that no live volume had, is sent to
  the queue the request names, and the handle denotes a volume that stores the file's contents cut
  or extended with zeros to 16 GiB.\<close>

theorem ioh_open_yields_volume:
  assumes w: "wf_world w" "os_script (os w) = []" "brk w < 2 ^ 64"
    and laws: "mq_laws M" "mq_names M (boost w) rq = Some q"
      "mq_limits M (boost w) q = (max_queue_size, reply_size)" "\<not> mq_full M (boost w) q"
    and req: "cstr req volume_name_at (request_size - volume_name_at) = Some nm"
      "cstr req reply_mq_name_at (request_size - reply_mq_name_at) = Some rq"
  shows "\<exists>w' r v. ioh_open M req reply w = (Ret r, w') \<and> heap w v = None \<and> is_open_reply req r v \<and>
    mq_contents M (boost w') q = mq_contents M (boost w) q @ [mk_message r openreply_size] \<and>
    wf_world w' \<and> ioh_volume M w' v q (opened_disk (os w) nm)"
proof -
  have "heap w (word_of_nat (brk w)) = None"
    using wf_worldD(4) [OF w(1), of "word_of_nat (brk w)"] new_address [OF w(1,3)] by (cases "heap w (word_of_nat (brk w))") auto
  moreover from ioh_open_run [OF w laws req, of reply] obtain w' r where
    "ioh_open M req reply w = (Ret r, w')" "is_open_reply req r (word_of_nat (brk w))"
    "mq_changes M (boost w) q (mq_contents M (boost w) q @ [mk_message r openreply_size]) (boost w')"
    "ioh_volume M w' (word_of_nat (brk w)) q (opened_disk (os w) nm)" by blast
  moreover from this(1) have "wf_world w'" using keepsD [OF ioh_keeps(1) w(1)] by blast
  ultimately show ?thesis by (auto simp: mq_changes_def)
qed

theorem ioh_open_yields_volume_witness:
  "\<exists>w' r v. ioh_open fifo_mq (sample_open ''vol'') (\<lambda>_. 0) sample_world = (Ret r, w') \<and>
    ioh_volume fifo_mq w' v 2 (opened_disk sample_os ''vol'')"
proof -
  have "\<exists>w' r v. ioh_open fifo_mq (sample_open ''vol'') (\<lambda>_. 0) sample_world = (Ret r, w') \<and> heap sample_world v = None \<and>
    is_open_reply (sample_open ''vol'') r v \<and>
    mq_contents fifo_mq (boost w') 2 = mq_contents fifo_mq (boost sample_world) 2 @ [mk_message r openreply_size] \<and>
    wf_world w' \<and> ioh_volume fifo_mq w' v 2 (opened_disk (os sample_world) ''vol'')"
    by (rule ioh_open_yields_volume [OF sample_wf _ _ fifo_mq_laws _ _ _ sample_vol])
      (simp_all add: sample_mq sample_world_def sample_os_def)
  then show ?thesis by (auto simp: sample_world_def)
qed

end
