(* ===== verification/Open_Session.thy ===== *)
theory Open_Session
  imports Shm_Client_Sync Volume_Properties
begin

text \<open>
  How a session starts: the client's constructor and \<open>send_open\<close> of \<open>src/SharedMemClient.cpp\<close> against
  a server that waits for requests, with \<open>IOHandler::open\<close> of \<open>src/server.c\<close> at the other end. The
  main result is that a client that gets its reply queue ends up connected to the disk the file of
  the volume holds, the state from which reads and writes refine that disk. It needs a message
  buffer that was zero where it was allocated, because \<open>OpenRequest::init\<close> copies the names
  without their NUL.
\<close>

section \<open>A server that waits for requests\<close>

definition idle_server :: "'b boost_mq \<Rightarrow> 'b server \<Rightarrow> bool" where
  "idle_server M sv \<longleftrightarrow> mq_laws M \<and>
     (\<exists>q t w. sv = \<lparr>sv_request_mqs = [Some q], sv_threads = [t], sv_world = w\<rparr> \<and> th_state t = Running \<and>
        mq_names M (boost w) (request_mq_name 0) = Some q \<and> mq_contents M (boost w) q = [] \<and>
        mq_limits M (boost w) q = (max_queue_size, request_size) \<and>
        wf_world w \<and> os_script (os w) = [] \<and> brk w < 2 ^ 64)"

lemma idle_serverE:
  assumes "idle_server M sv"
  obtains q t w where "mq_laws M" "sv = \<lparr>sv_request_mqs = [Some q], sv_threads = [t], sv_world = w\<rparr>" "th_state t = Running"
    "mq_names M (boost w) (request_mq_name 0) = Some q" "mq_contents M (boost w) q = []"
    "mq_limits M (boost w) q = (max_queue_size, request_size)" "wf_world w" "os_script (os w) = []" "brk w < 2 ^ 64"
  using assms unfolding idle_server_def by blast

text \<open>A name that can be sent: it fits its member with a NUL, and is not the server's own queue.\<close>

definition good_name :: "string \<Rightarrow> bool" where
  "good_name nm \<longleftrightarrow> nm \<noteq> [] \<and> nul_free nm \<and> length nm < path_max \<and> nm \<noteq> request_mq_name 0"

text \<open>Boost gives a client of volume \<open>nm\<close> its reply queue.\<close>

definition gets_reply_queue :: "'b boost_mq \<Rightarrow> string \<Rightarrow> 'b server \<Rightarrow> bool" where
  "gets_reply_queue M nm sv \<longleftrightarrow> mq_creates M nm max_queue_size reply_size (boost (sv_world sv))"

section \<open>Serving a request to open\<close>

text \<open>One turn of the server's loop on a request to open.\<close>

lemma serve_open:
  fixes M :: "'b boost_mq" and w :: "'b world"
  assumes laws: "mq_laws M" and t: "th_state t = Running" and w: "wf_world w" "os_script (os w) = []" "brk w < 2 ^ 64"
    and q: "mq_limits M (boost w) q = (max_queue_size, request_size)" "mq_contents M (boost w) q = [msg]" "q \<noteq> rq"
    and rq: "mq_names M (boost w) nm = Some rq" "mq_limits M (boost w) rq = (max_queue_size, reply_size)"
      "mq_contents M (boost w) rq = []"
    and msg: "msg = mk_message (open_request m nm) openrequest_size" "addressed REQ_OPEN v0 m"
    and nm: "nul_free nm" "length nm < path_max" "m (volume_name_at + length nm) = 0" "m (reply_mq_name_at + length nm) = 0"
  obtains t' w' r where "\<And>fuel. handle_requests (Suc fuel) M (IOHandler M) q t w = handle_requests fuel M (IOHandler M) q t' w'"
    "serving ioh_volume M q (word_of_nat (brk w)) rq t' w' (opened_disk (os w) nm)" "is_open_reply m r (word_of_nat (brk w))"
    "mq_contents M (boost w') q = []" "mq_contents M (boost w') rq = [mk_message r openreply_size]"
proof -
  let ?req = "recv_into (th_request_msg t) msg"
  have bytes: "?req i = open_request m nm i" if "i < openrequest_size" for i
    using that by (simp add: msg(1) mem_simps)
  have hd: "get_header ?req = get_header m"
    by (rule get_header_cong) (simp add: bytes open_request_def mem_simps size_defs)
  note names = open_request_names [OF nm bytes]
  define P where "P b r w' \<longleftrightarrow> is_open_reply m r (word_of_nat (brk w)) \<and>
    mq_changes M b rq [mk_message r openreply_size] (boost w') \<and>
    ioh_volume M w' (word_of_nat (brk w)) rq (opened_disk (os w) nm)" for b r w'
  have open_law: "\<exists>r w'. dispatch (IOHandler M) ?req (th_reply_msg t) (w\<lparr>boost := b\<rparr>) = (Ret r, w') \<and> P b r w'"
    if "mq_changes M (boost w) q [] b" for b
  proof -
    have b: "mq_names M b = mq_names M (boost w)" "mq_limits M b = mq_limits M (boost w)" "mq_contents M b rq = []"
      using that q(3) rq(3) by (simp_all add: mq_changes_def)
    have "wf_world (w\<lparr>boost := b\<rparr>)" using w(1) by (simp add: wf_world_def)
    from ioh_open_run [OF this _ _ laws _ _ _ names, of rq "th_reply_msg t"] b rq w(2,3)
    obtain w' r where "ioh_open M ?req (th_reply_msg t) (w\<lparr>boost := b\<rparr>) = (Ret r, w')"
      "is_open_reply ?req r (word_of_nat (brk w))" "mq_changes M b rq [mk_message r openreply_size] (boost w')"
      "ioh_volume M w' (word_of_nat (brk w)) rq (opened_disk (os w) nm)"
      by (auto simp: mq_full_def size_defs)
    then show ?thesis
      using msg(2) hd by (auto simp: dispatch_def addressed_def IOHandler_def P_def is_open_reply_def)
  qed
  have "\<not> h_stop (get_header ?req)" using msg(2) hd by (simp add: addressed_def)
  from handle_requests_next [OF laws t _ q(2) this open_law] q(1) obtain b r w' where
    b: "mq_changes M (boost w) q [] b" and P: "P b r w'"
    and run: "\<And>fuel. handle_requests (Suc fuel) M (IOHandler M) q t w =
      handle_requests fuel M (IOHandler M) q (t\<lparr>th_request_msg := ?req, th_reply_msg := r\<rparr>) w'" by auto
  show thesis
    by (rule that [OF run]) (use P b q t in \<open>auto simp: P_def serving_def mq_changes_def\<close>)
qed

section \<open>The client's side\<close>

lemma wait_open_reply:
  fixes M :: "'b boost_mq" and s :: "'b csys" and w :: "'b world"
  assumes sv: "cs_server s = \<lparr>sv_request_mqs = [Some q], sv_threads = [t], sv_world = w\<rparr>" and n: "max_queue_size \<le> n"
    and laws: "mq_laws M" and t: "th_state t = Running" and w: "wf_world w" "os_script (os w) = []" "brk w < 2 ^ 64"
    and q: "mq_limits M (boost w) q = (max_queue_size, request_size)" "mq_contents M (boost w) q = [msg]" "q \<noteq> rq"
    and rq: "mq_names M (boost w) nm = Some rq" "mq_limits M (boost w) rq = (max_queue_size, reply_size)"
      "mq_contents M (boost w) rq = []"
    and msg: "msg = mk_message (open_request m nm) openrequest_size" "addressed REQ_OPEN v0 m"
    and nm: "nul_free nm" "length nm < path_max" "m (volume_name_at + length nm) = 0" "m (reply_mq_name_at + length nm) = 0"
  obtains r s' t' w' where
    "wait_mq (server_run n M (IOHandler M)) (mq_receive M rq reply_size) s = (Ret (mk_message r openreply_size), s')"
    "is_open_reply m r (word_of_nat (brk w))" "cs_client s' = cs_client s"
    "cs_server s' = \<lparr>sv_request_mqs = [Some q], sv_threads = [t'], sv_world = w'\<rparr>"
    "serving ioh_volume M q (word_of_nat (brk w)) rq t' w' (opened_disk (os w) nm)"
    "mq_contents M (boost w') q = []" "mq_contents M (boost w') rq = []"
proof -
  let ?peer = "server_run n M (IOHandler M)"
  from serve_open [OF laws t w q rq msg nm] obtain t' w' r where
    serve: "\<And>fuel. handle_requests (Suc fuel) M (IOHandler M) q t w = handle_requests fuel M (IOHandler M) q t' w'"
      "serving ioh_volume M q (word_of_nat (brk w)) rq t' w' (opened_disk (os w) nm)" "is_open_reply m r (word_of_nat (brk w))"
      "mq_contents M (boost w') q = []" "mq_contents M (boost w') rq = [mk_message r openreply_size]"
    by blast
  have "handle_requests n M (IOHandler M) q t w = (t', w')"
    using serve(1) [of "n - 1"] laws serve(2,4) n
    by (simp add: size_defs handle_requests_wait serving_def del: handle_requests.simps)
  then have run: "?peer (cs_server s) = \<lparr>sv_request_mqs = [Some q], sv_threads = [t'], sv_world = w'\<rparr>"
    using t by (simp add: sv server_run_single)
  have "snd (mq_limits M (boost w') rq) \<le> reply_size" using serve(2) by (simp add: serving_def ioh_volume_def)
  from mq_receiveE [OF laws this serve(5)] obtain b where
    recv: "mq_receive M rq reply_size (boost w') = (MQ_ok (mk_message r openreply_size), b)" "mq_changes M (boost w') rq [] b" .
  have "wait_mq ?peer (mq_receive M rq reply_size) s =
      (Ret (mk_message r openreply_size), set_boost b (s\<lparr>cs_server := ?peer (cs_server s)\<rparr>))"
    using mq_receive_blocks [OF laws _ rq(3), of reply_size] rq(2) recv(1) run by (intro wait_mq_later) (simp_all add: sv)
  then show thesis
    using serve(2-4) recv(2) run ioh_volume_frame [of M w' "word_of_nat (brk w)" rq "opened_disk (os w) nm" rq "[]" b]
    by (intro that [of r "set_boost b (s\<lparr>cs_server := ?peer (cs_server s)\<rparr>)" t' "w'\<lparr>boost := b\<rparr>"]) (auto simp: set_boost_def serving_def mq_changes_def)
qed

text \<open>\<open>send_open\<close> up to the wait for the reply: the request is in the queue.\<close>

lemma open_message_sent:
  fixes M :: "'b boost_mq" and s :: "'b csys" and w :: "'b world"
  assumes laws: "mq_laws M"
    and s: "cs_server s = \<lparr>sv_request_mqs = [Some q], sv_threads = [t], sv_world = w\<rparr>" "cs_client s = Some c"
      "cl_request_mq c = q" "cl_volume_name c = nm"
    and q: "mq_limits M (boost w) q = (max_queue_size, request_size)" "mq_contents M (boost w) q = []"
    and nm: "nul_free nm" "length nm < path_max"
    and m: "m = put_header (cl_request_msg c) (Header_make False REQ_OPEN (scast (cs_id s + 1)) (cl_volume c) 0)"
  obtains s2 b where "mq_changes M (boost w) q [mk_message (open_request m nm) openrequest_size] b"
    "cs_server s2 = \<lparr>sv_request_mqs = [Some q], sv_threads = [t], sv_world = w\<lparr>boost := b\<rparr>\<rparr>"
    "cs_client s2 = Some (c\<lparr>cl_request_msg := open_request m nm\<rparr>)"
    "cbind (put_request_header REQ_OPEN 0) (\<lambda>_.
     cbind this (\<lambda>c.
     cbind (OpenRequest_init (cl_request_msg c) (cl_volume_name c) (cl_volume_name c)) (\<lambda>m.
     cbind (set_request_msg m) (\<lambda>_.
     send_request M peer openrequest_size)))) s = (Ret (), s2)"
proof -
  define c1 where "c1 = c\<lparr>cl_request_msg := open_request m nm\<rparr>"
  define s1 where "s1 = s\<lparr>cs_id := cs_id s + 1, cs_client := Some c1\<rparr>"
  define msg where "msg = mk_message (open_request m nm) openrequest_size"
  have "msg_size msg \<le> snd (mq_limits M (boost w) q)" "\<not> mq_full M (boost w) q"
    using q by (simp_all add: msg_def mq_full_def size_defs)
  from mq_sendE [OF laws this] obtain b where
    send: "mq_send M q msg 0 (boost w) = (MQ_ok (), b)" "mq_changes M (boost w) q [msg] b" using q by auto
  have sent: "send_request M peer openrequest_size s1 = (Ret (), set_boost b s1)"
    unfolding send_request_def using send(1) s
    by (simp add: cbind_run this_def s1_def c1_def msg_def wait_mq_now)
  have "strlen nm \<le> path_max" using nm by (simp add: strlen_nul_free)
  then have "cbind (put_request_header REQ_OPEN 0) (\<lambda>_.
     cbind this (\<lambda>c.
     cbind (OpenRequest_init (cl_request_msg c) (cl_volume_name c) (cl_volume_name c)) (\<lambda>m.
     cbind (set_request_msg m) (\<lambda>_.
     send_request M peer openrequest_size)))) s = (Ret (), set_boost b s1)"
    using sent s
    by (simp add: put_request_header_def set_request_msg_def this_def modify_run gets_run ret_run
        cbind_run OpenRequest_init_run s1_def c1_def flip: m)
  with send(2) s show thesis
    by (intro that [of b "set_boost b s1"]) (simp_all add: set_boost_def s1_def c1_def msg_def)
qed

lemma send_open_prefix:
  fixes M :: "'b boost_mq" and s :: "'b csys" and w :: "'b world"
  assumes laws: "mq_laws M"
    and s: "cs_server s = \<lparr>sv_request_mqs = [Some q], sv_threads = [t], sv_world = w\<rparr>" "cs_client s = Some c"
      "cl_request_mq c = q" "cl_volume_name c = nm"
    and q: "mq_limits M (boost w) q = (max_queue_size, request_size)" "mq_contents M (boost w) q = []"
    and nm: "nul_free nm" "length nm < path_max"
    and m: "m = put_header (cl_request_msg c) (Header_make False REQ_OPEN (scast (cs_id s + 1)) (cl_volume c) 0)"
  obtains s2 b where "mq_changes M (boost w) q [mk_message (open_request m nm) openrequest_size] b"
    "cs_server s2 = \<lparr>sv_request_mqs = [Some q], sv_threads = [t], sv_world = w\<lparr>boost := b\<rparr>\<rparr>"
    "cs_client s2 = Some (c\<lparr>cl_request_msg := open_request m nm\<rparr>)"
    "\<And>e s3. receive_reply M peer s2 = (Fail e, s3) \<Longrightarrow> send_open M peer s = (Fail e, s3)"
    "\<And>r s3 c3. receive_reply M peer s2 = (Ret r, s3) \<Longrightarrow> cs_client s3 = Some c3 \<Longrightarrow>
       h_type (get_header r) = type_code REQ_OPEN \<Longrightarrow> get32 r 40 = 0 \<Longrightarrow>
       send_open M peer s = (Ret 0, s3\<lparr>cs_client := Some (c3\<lparr>cl_volume := get64 r 32\<rparr>)\<rparr>)"
proof -
  let ?send = "cbind (put_request_header REQ_OPEN 0) (\<lambda>_.
     cbind this (\<lambda>c.
     cbind (OpenRequest_init (cl_request_msg c) (cl_volume_name c) (cl_volume_name c)) (\<lambda>m.
     cbind (set_request_msg m) (\<lambda>_.
     send_request M peer openrequest_size))))"
  obtain s2 b where b: "mq_changes M (boost w) q [mk_message (open_request m nm) openrequest_size] b"
    "cs_server s2 = \<lparr>sv_request_mqs = [Some q], sv_threads = [t], sv_world = w\<lparr>boost := b\<rparr>\<rparr>"
    "cs_client s2 = Some (c\<lparr>cl_request_msg := open_request m nm\<rparr>)"
    and sent: "?send s = (Ret (), s2)"
    by (rule open_message_sent [OF laws s q nm m, of peer])
  have run: "send_open M peer s =
     cbind (receive_reply M peer) (\<lambda>r.
     cbind (assert (h_type (get_header r) = type_code REQ_OPEN)) (\<lambda>_.
     let err = sint (get32 r 40) in
     cbind (if err = 0
            then cbind this (\<lambda>c. modify (\<lambda>s. s\<lparr>cs_client := Some (c\<lparr>cl_volume := get64 r 32\<rparr>)\<rparr>))
            else ret ()) (\<lambda>_.
     ret err))) s2"
    unfolding send_open_def using sent [THEN cbind_RetI [where m = ?send]] by (simp only: cbind_assoc)
  show thesis
  proof (rule that [OF b])
    show "send_open M peer s = (Fail e, s3)" if "receive_reply M peer s2 = (Fail e, s3)" for e s3
      using that run by (simp add: cbind_FailI)
    show "send_open M peer s = (Ret 0, s3\<lparr>cs_client := Some (c3\<lparr>cl_volume := get64 r 32\<rparr>)\<rparr>)"
      if "receive_reply M peer s2 = (Ret r, s3)" "cs_client s3 = Some c3"
        "h_type (get_header r) = type_code REQ_OPEN" "get32 r 40 = 0" for r s3 c3
      using that run by (simp add: cmd_simps this_def)
  qed
qed

lemma send_open_connects:
  fixes M :: "'b boost_mq" and s :: "'b csys" and w :: "'b world"
  assumes laws: "mq_laws M" "max_queue_size \<le> n" and t: "th_state t = Running"
    and w: "wf_world w" "os_script (os w) = []" "brk w < 2 ^ 64"
    and s: "cs_server s = \<lparr>sv_request_mqs = [Some q], sv_threads = [t], sv_world = w\<rparr>" "cs_client s = Some c"
      "cl_request_mq c = q" "cl_reply_mq c = rq" "cl_volume_name c = nm"
    and q: "mq_limits M (boost w) q = (max_queue_size, request_size)" "mq_contents M (boost w) q = []" "q \<noteq> rq"
    and rq: "mq_names M (boost w) nm = Some rq" "mq_limits M (boost w) rq = (max_queue_size, reply_size)"
      "mq_contents M (boost w) rq = []"
    and nm: "nul_free nm" "length nm < path_max" "\<And>i. volume_name_at \<le> i \<Longrightarrow> cl_request_msg c i = 0"
  shows "\<exists>s'. send_open M (server_run n M (IOHandler M)) s = (Ret 0, s') \<and> connected ioh_volume M n s' (opened_disk (os w) nm)"
proof -
  let ?peer = "server_run n M (IOHandler M)"
  define m where "m = put_header (cl_request_msg c) (Header_make False REQ_OPEN (scast (cs_id s + 1)) (cl_volume c) 0)"
  define c1 where "c1 = c\<lparr>cl_request_msg := open_request m nm\<rparr>"
  have m: "m (volume_name_at + length nm) = 0" "m (reply_mq_name_at + length nm) = 0" "addressed REQ_OPEN (cl_volume c) m"
    using nm by (simp_all add: m_def mem_simps size_defs addressed_def Header_make_def)
  obtain s2 b where
    b: "mq_changes M (boost w) q [mk_message (open_request m nm) openrequest_size] b"
    and s2: "cs_server s2 = \<lparr>sv_request_mqs = [Some q], sv_threads = [t], sv_world = w\<lparr>boost := b\<rparr>\<rparr>" "cs_client s2 = Some c1"
    and run: "\<And>r s3 c3. receive_reply M ?peer s2 = (Ret r, s3) \<Longrightarrow> cs_client s3 = Some c3 \<Longrightarrow>
       h_type (get_header r) = type_code REQ_OPEN \<Longrightarrow> get32 r 40 = 0 \<Longrightarrow>
       send_open M ?peer s = (Ret 0, s3\<lparr>cs_client := Some (c3\<lparr>cl_volume := get64 r 32\<rparr>)\<rparr>)"
    by (rule send_open_prefix [OF laws(1) s(1-3,5) q(1,2) nm(1,2) m_def], fold c1_def, rule that)
  have w1: "wf_world (w\<lparr>boost := b\<rparr>)" using w(1) by (simp add: wf_world_def)
  obtain r s3 t' w' where
    wait: "wait_mq ?peer (mq_receive M rq reply_size) s2 = (Ret (mk_message r openreply_size), s3)"
      "is_open_reply m r (word_of_nat (brk w))" "cs_client s3 = cs_client s2"
    and sv: "cs_server s3 = \<lparr>sv_request_mqs = [Some q], sv_threads = [t'], sv_world = w'\<rparr>"
      "serving ioh_volume M q (word_of_nat (brk w)) rq t' w' (opened_disk (os w) nm)"
      "mq_contents M (boost w') q = []" "mq_contents M (boost w') rq = []"
    by (rule wait_open_reply [OF s2(1) laws(2,1) t w1 _ _ _ _ _ _ _ _ refl m(3) nm(1,2) m(1,2), of rq])
      (use w b q rq in \<open>auto simp: mq_changes_def\<close>)
  define r' where "r' = memcpy (cl_reply_msg c) 0 r 0 openreply_size"
  have r': "h_type (get_header r') = type_code REQ_OPEN" "get32 r' 40 = 0" "get64 r' 32 = word_of_nat (brk w)"
    using wait(2) [unfolded is_open_reply_def] by (simp_all add: r'_def m_def Header_make_def mem_simps size_defs)
  let ?c2 = "c1\<lparr>cl_reply_msg := r'\<rparr>" and ?c3 = "c1\<lparr>cl_reply_msg := r', cl_volume := word_of_nat (brk w)\<rparr>"
  have "receive_reply M ?peer s2 = (Ret r', s3\<lparr>cs_client := Some ?c2\<rparr>)"
    using wait(1,3) s s2 by (simp add: receive_reply_def set_reply_msg_def this_def cmd_simps c1_def r'_def recv_mk_message)
  from run [OF this _ r'(1,2), of ?c2] r'(3) have "send_open M ?peer s = (Ret 0, s3\<lparr>cs_client := Some ?c3\<rparr>)" by simp
  moreover have "client_rel ioh_volume M n (s3\<lparr>cs_client := Some ?c3\<rparr>) ?c3 (opened_disk (os w) nm) []"
    using laws(2) s(3,4) sv unfolding client_rel_def
    by (intro conjI exI [of _ t'] exI [of _ w'] exI [of _ "opened_disk (os w) nm"] exI [of _ "[]"]) (auto simp: c1_def)
  ultimately show ?thesis by (auto simp: connected_def)
qed

section \<open>A whole session start\<close>

text \<open>The constructor finds the server's queue and makes a fresh, empty one for the replies.\<close>

lemma client_queue_num_0: "client_queue_num nm = 0"
  by (simp add: client_queue_num_def max_queue_num_def)

lemma make_client_run:
  fixes M :: "'b boost_mq" and s :: "'b csys" and w :: "'b world"
  assumes laws: "mq_laws M" and nm: "nm \<noteq> []" "nm \<noteq> request_mq_name 0"
    and sv: "cs_server s = \<lparr>sv_request_mqs = qs, sv_threads = ts, sv_world = w\<rparr>"
      "mq_names M (boost w) (request_mq_name 0) = Some q"
  shows "(\<not> gets_reply_queue M nm (cs_server s) \<and> (\<exists>s'. shared_mem_make_client M stray v (Some nm) s = (Ret False, s'))) \<or>
    (gets_reply_queue M nm (cs_server s) \<and> (\<exists>rq b. shared_mem_make_client M stray v (Some nm) s = (Ret True, s\<lparr>
        cs_client := Some \<lparr>cl_request_mq = q, cl_reply_mq = rq, cl_request_msg = stray, cl_reply_msg = stray,
          cl_volume_name = nm, cl_volume = v\<rparr>,
        cs_server := \<lparr>sv_request_mqs = qs, sv_threads = ts, sv_world = w\<lparr>boost := b\<rparr>\<rparr>\<rparr>) \<and>
      q \<noteq> rq \<and> mq_names M b nm = Some rq \<and> mq_contents M b = (mq_contents M (boost w))(rq := []) \<and>
      mq_names M b = (mq_names M (boost w))(nm \<mapsto> rq) \<and>
      mq_limits M b = (mq_limits M (boost w))(rq := (max_queue_size, reply_size))))"
proof -
  obtain x b1 where rm: "mq_remove M nm (boost w) = (x, b1)"
    and b1: "mq_names M b1 = (mq_names M (boost w))(nm := None)" "mq_contents M b1 = mq_contents M (boost w)"
      "mq_limits M b1 = mq_limits M (boost w)" by (rule mq_removeE [OF laws])
  then have op: "mq_open_only M (request_mq_name 0) b1 = (MQ_ok q, b1)"
    using mq_open_run [OF laws] sv(2) nm(2) by simp
  have q: "q \<in> ran (mq_names M b1)" using b1(1) sv(2) nm(2) by (auto simp: ran_def)
  note run = shared_mem_make_client_def SharedMemClient_new_def catch_all_run cbind_run ret_run assert_run modify_run
    on_mq_def try_mq_def mq_outcome_def set_boost_def client_queue_num_0
    gets_reply_queue_def mq_creates_def
  from laws show ?thesis
  proof (cases rule: mq_createE [where nm = nm and k = max_queue_size and n = reply_size and b = b1])
    case (created rq b2)
    moreover from created(3) q have "q \<noteq> rq" by auto
    ultimately show ?thesis
      using b1 op rm sv(1) nm(1) by (intro disjI2 conjI exI [of _ rq] exI [of _ b2]) (simp_all add: run)
  next
    case (thrown e)
    with op rm sv(1) nm(1) show ?thesis by (intro disjI1) (simp add: run)
  qed
qed

text \<open>Both calls \<open>cvbd_open\<close> makes of the client, against a server that waits for requests.\<close>

lemma session_start:
  fixes M :: "'b boost_mq" and s :: "'b csys"
  assumes sv: "idle_server M (cs_server s)" and n: "max_queue_size \<le> n" and nm: "good_name nm"
    and stray: "\<forall>i \<ge> volume_name_at. stray i = 0"
  shows "(\<not> gets_reply_queue M nm (cs_server s) \<and> (\<exists>s'. shared_mem_make_client M stray v (Some nm) s = (Ret False, s'))) \<or>
    (gets_reply_queue M nm (cs_server s) \<and> (\<exists>s' s''. shared_mem_make_client M stray v (Some nm) s = (Ret True, s') \<and>
       create_volume M (server_run n M (IOHandler M)) s' = (Ret 0, s'') \<and>
       connected ioh_volume M n s'' (opened_disk (os (sv_world (cs_server s))) nm)))"
proof -
  from sv obtain q t w where i: "mq_laws M"
    "cs_server s = \<lparr>sv_request_mqs = [Some q], sv_threads = [t], sv_world = w\<rparr>" "th_state t = Running"
    "mq_names M (boost w) (request_mq_name 0) = Some q" "mq_contents M (boost w) q = []"
    "mq_limits M (boost w) q = (max_queue_size, request_size)" "wf_world w" "os_script (os w) = []" "brk w < 2 ^ 64"
    by (rule idle_serverE)
  have nm': "nm \<noteq> []" "nm \<noteq> request_mq_name 0" "nul_free nm" "length nm < path_max" using nm by (auto simp: good_name_def)
  from make_client_run [OF i(1) nm'(1,2) i(2,4), of stray v] show ?thesis
  proof (elim disjE exE conjE, goal_cases)
    case (2 rq b)
    let ?c = "\<lparr>cl_request_mq = q, cl_reply_mq = rq, cl_request_msg = stray, cl_reply_msg = stray,
      cl_volume_name = nm, cl_volume = v\<rparr>"
    let ?s = "s\<lparr>cs_client := Some ?c, cs_server := \<lparr>sv_request_mqs = [Some q], sv_threads = [t], sv_world = w\<lparr>boost := b\<rparr>\<rparr>\<rparr>"
    have "wf_world (w\<lparr>boost := b\<rparr>)" using i(7) by (simp add: wf_world_def)
    then have "\<exists>s'. send_open M (server_run n M (IOHandler M)) ?s = (Ret 0, s') \<and>
        connected ioh_volume M n s' (opened_disk (os (w\<lparr>boost := b\<rparr>)) nm)"
      by (rule send_open_connects [OF i(1) n i(3), of _ ?s q ?c rq nm]) (use 2 i nm' stray in auto)
    with 2 show ?thesis by (auto simp: create_volume_def catch_all_run i(2))
  qed blast
qed

section \<open>A sample client\<close>

text \<open>A client of the sample volume, with the server thread waiting.\<close>

definition sample_thread :: thread where
  "sample_thread = \<lparr>th_request_msg = (\<lambda>_. 0), th_reply_msg = (\<lambda>_. 0), th_state = Running\<rparr>"

definition sample_client :: client where
  "sample_client = \<lparr>cl_request_mq = 0, cl_reply_mq = 2, cl_request_msg = (\<lambda>_. 0), cl_reply_msg = (\<lambda>_. 0),
     cl_volume_name = ''vol'', cl_volume = 1\<rparr>"

definition sample_csys :: "fifo csys" where
  "sample_csys = \<lparr>cs_client = Some sample_client, cs_id = 0, cs_errno = 0,
     cs_server = \<lparr>sv_request_mqs = [Some 0], sv_threads = [sample_thread], sv_world = sample_world\<rparr>\<rparr>"

lemma sample_world_boost [simp]: "boost sample_world = sample_boost" and sample_world_os [simp]: "os sample_world = sample_os"
  by (simp_all add: sample_world_def)

lemma sample_connected: "connected ioh_volume fifo_mq 32 sample_csys sample_disk"
  unfolding connected_def client_rel_def
  by (intro exI [of _ sample_client] conjI exI [of _ sample_thread] exI [of _ sample_world] exI [of _ sample_disk] exI [of _ "[]"])
    (simp_all add: sample_csys_def sample_client_def sample_thread_def serving_def sample_volume sample_mq size_defs)

text \<open>The same server with no volume's queue and no client yet.\<close>

definition sample_idle_csys :: "fifo csys" where
  "sample_idle_csys = sample_csys\<lparr>cs_client := None, cs_server := \<lparr>sv_request_mqs = [Some 0], sv_threads = [sample_thread],
     sv_world = sample_world\<lparr>boost := sample_boost\<lparr>f_names := [request_mq_name 0 \<mapsto> 0]\<rparr>\<rparr>\<rparr>\<rparr>"

lemma sample_idle_server: "idle_server fifo_mq (cs_server sample_idle_csys)"
proof -
  have "wf_world (sample_world\<lparr>boost := b\<rparr>)" for b using sample_wf by (simp add: wf_world_def)
  moreover have "os_script sample_os = []" "brk sample_world < 2 ^ 64" by (simp_all add: sample_os_def sample_world_def)
  ultimately show ?thesis
    unfolding idle_server_def
    by (intro conjI fifo_mq_laws exI [of _ 0] exI [of _ sample_thread]
        exI [of _ "sample_world\<lparr>boost := sample_boost\<lparr>f_names := [request_mq_name 0 \<mapsto> 0]\<rparr>\<rparr>"])
      (simp_all add: sample_idle_csys_def sample_thread_def fifo_mq_def fifo_lookup_def sample_boost_def)
qed

lemma sample_gets_reply_queue: "gets_reply_queue fifo_mq nm sv"
  by (simp add: gets_reply_queue_def fifo_creates)

lemma sample_good_name: "good_name ''vol''"
  using sample_names by (simp add: good_name_def request_mq_name_def vd_request_mq_name_format_def)

section \<open>A request to open that is never answered\<close>

text \<open>The server's turn on a request to open whose file cannot be created: no queue but its own changes.\<close>

lemma ioh_open_silent:
  assumes "cstr req volume_name_at (request_size - volume_name_at) = Some nm" "os_files (os w) (volume_path nm) = None"
    and "os_script (os w) = Sys_ok # Sys_err e # xs" "0 < e"
  shows "\<exists>r w'. ioh_open M req reply w = (Ret r, w') \<and> boost w' = boost w"
  using assms
  by (simp add: ioh_open_def ioh_open_body_def req_cstr_def cmd_simps sysc_def sys_open_def next_result_def sys_fail_def
      errno_def ioh_close_volume_def Let_def)

lemma serve_silent_open:
  fixes M :: "'b boost_mq" and w :: "'b world"
  assumes laws: "mq_laws M" and t: "th_state t = Running"
    and q: "mq_limits M (boost w) q = (max_queue_size, request_size)" "mq_contents M (boost w) q = [msg]" "q \<noteq> rq"
    and msg: "msg = mk_message (open_request m nm) openrequest_size" "addressed REQ_OPEN v0 m"
    and nm: "nul_free nm" "length nm < path_max" "m (volume_name_at + length nm) = 0" "m (reply_mq_name_at + length nm) = 0"
    and no_file: "os_files (os w) (volume_path nm) = None" "os_script (os w) = [Sys_ok, Sys_err e]" "0 < e"
  shows "\<exists>t' w'. handle_requests fuel M (IOHandler M) q t w = (t', w') \<and> mq_limits M (boost w') = mq_limits M (boost w) \<and>
    mq_contents M (boost w') rq = mq_contents M (boost w) rq"
proof (cases fuel)
  case (Suc k)
  let ?req = "recv_into (th_request_msg t) msg"
  have bytes: "?req i = open_request m nm i" if "i < openrequest_size" for i
    using that by (simp add: msg(1) mem_simps)
  have hd: "get_header ?req = get_header m"
    by (rule get_header_cong) (simp add: bytes open_request_def mem_simps size_defs)
  note names = open_request_names [OF nm bytes]
  have d: "\<exists>r w'. dispatch (IOHandler M) ?req (th_reply_msg t) (w\<lparr>boost := b\<rparr>) = (Ret r, w') \<and> boost w' = b" for b
    using ioh_open_silent [OF names(1), of "w\<lparr>boost := b\<rparr>" e "[]" M "th_reply_msg t"] no_file msg(2) hd
    by (simp add: dispatch_def addressed_def IOHandler_def)
  have stop: "\<not> h_stop (get_header ?req)" using msg(2) hd by (simp add: addressed_def)
  have lim: "snd (mq_limits M (boost w) q) \<le> request_size" using q(1) by simp
  obtain b r w' where b: "mq_changes M (boost w) q [] b" "boost w' = b"
    and run: "\<And>fuel. handle_requests (Suc fuel) M (IOHandler M) q t w =
      handle_requests fuel M (IOHandler M) q (t\<lparr>th_request_msg := ?req, th_reply_msg := r\<rparr>) w'"
    by (rule handle_requests_next [where P = "\<lambda>b r w'. boost w' = b", OF laws t lim q(2) stop d], rule that)
  have "handle_requests k M (IOHandler M) q (t\<lparr>th_request_msg := ?req, th_reply_msg := r\<rparr>) w' =
      (t\<lparr>th_request_msg := ?req, th_reply_msg := r\<rparr>, w')"
    using b q(1) by (intro handle_requests_wait [OF laws]) (simp_all add: mq_changes_def)
  with run [of k] Suc b q(3) show ?thesis by (simp add: mq_changes_def del: handle_requests.simps)
qed simp

text \<open>C27. A client whose volume's file cannot be created waits for ever: the server sends no reply to a
  failed creation, so \<open>create_volume\<close> does not return, however long the server runs.\<close>

theorem open_failure_hangs_client:
  fixes M :: "'b boost_mq" and s :: "'b csys" and w :: "'b world"
  assumes laws: "mq_laws M" and t: "th_state t = Running"
    and s: "cs_server s = \<lparr>sv_request_mqs = [Some q], sv_threads = [t], sv_world = w\<rparr>" "cs_client s = Some c"
      "cl_request_mq c = q" "cl_reply_mq c = rq" "cl_volume_name c = nm"
    and q: "mq_limits M (boost w) q = (max_queue_size, request_size)" "mq_contents M (boost w) q = []" "q \<noteq> rq"
    and rq: "mq_limits M (boost w) rq = (max_queue_size, reply_size)" "mq_contents M (boost w) rq = []"
    and nm: "nul_free nm" "length nm < path_max" "\<forall>i \<ge> volume_name_at. cl_request_msg c i = 0"
    and no_file: "os_files (os w) (volume_path nm) = None" "os_script (os w) = [Sys_ok, Sys_err e]" "0 < e"
  shows "fst (create_volume M (server_run n M (IOHandler M)) s) = Fail Hang"
proof -
  let ?peer = "server_run n M (IOHandler M)"
  define m where "m = put_header (cl_request_msg c) (Header_make False REQ_OPEN (scast (cs_id s + 1)) (cl_volume c) 0)"
  have m: "m (volume_name_at + length nm) = 0" "m (reply_mq_name_at + length nm) = 0" "addressed REQ_OPEN (cl_volume c) m"
    using nm by (simp_all add: m_def mem_simps size_defs addressed_def Header_make_def)
  obtain s2 b where b: "mq_changes M (boost w) q [mk_message (open_request m nm) openrequest_size] b"
    and s2: "cs_server s2 = \<lparr>sv_request_mqs = [Some q], sv_threads = [t], sv_world = w\<lparr>boost := b\<rparr>\<rparr>"
      "cs_client s2 = Some (c\<lparr>cl_request_msg := open_request m nm\<rparr>)"
    and run: "\<And>e s3. receive_reply M ?peer s2 = (Fail e, s3) \<Longrightarrow> send_open M ?peer s = (Fail e, s3)"
    by (rule send_open_prefix [OF laws s(1-3,5) q(1,2) nm(1,2) m_def], rule that)
  obtain t' w' where served: "handle_requests n M (IOHandler M) q t (w\<lparr>boost := b\<rparr>) = (t', w')"
    "mq_limits M (boost w') = mq_limits M b" "mq_contents M (boost w') rq = mq_contents M b rq"
    using serve_silent_open [OF laws t _ _ q(3) refl m(3) nm(1,2) m(1,2), of "w\<lparr>boost := b\<rparr>" e n] b q no_file
    by (auto simp: mq_changes_def)
  then have peer: "?peer (cs_server s2) = \<lparr>sv_request_mqs = [Some q], sv_threads = [t'], sv_world = w'\<rparr>"
    using t by (simp add: s2 server_run_single)
  have "mq_receive M rq reply_size b = (MQ_block, b)" "mq_receive M rq reply_size (boost w') = (MQ_block, boost w')"
    using served b q(3) rq by (auto intro!: mq_receive_blocks [OF laws] simp: mq_changes_def)
  then have "fst (wait_mq ?peer (mq_receive M rq reply_size) s2) = Fail Hang"
    using peer by (simp add: wait_mq_def try_mq_def mq_outcome_def s2 set_boost_def)
  then obtain s3 where "receive_reply M ?peer s2 = (Fail Hang, s3)"
    using s s2 by (cases "wait_mq ?peer (mq_receive M rq reply_size) s2") (simp add: receive_reply_def this_def cbind_run)
  from run [OF this] show ?thesis by (simp add: create_volume_def catch_all_run)
qed

theorem open_failure_hangs_client_witness:
  "fst (create_volume fifo_mq (server_run 32 fifo_mq (IOHandler fifo_mq)) (sample_csys\<lparr>
      cs_client := Some (sample_client\<lparr>cl_volume_name := ''new''\<rparr>),
      cs_server := \<lparr>sv_request_mqs = [Some 0], sv_threads = [sample_thread],
        sv_world = sample_world\<lparr>os := sample_os\<lparr>os_script := [Sys_ok, Sys_err EIO]\<rparr>\<rparr>\<rparr>\<rparr>)) = Fail Hang"
  by (rule open_failure_hangs_client [where t = sample_thread and q = 0 and rq = 2 and nm = "''new''" and e = EIO and
        c = "sample_client\<lparr>cl_volume_name := ''new''\<rparr>" and w = "sample_world\<lparr>os := sample_os\<lparr>os_script := [Sys_ok, Sys_err EIO]\<rparr>\<rparr>",
        OF fifo_mq_laws _ _ _ _ _ _ _ _ _ _ _ sample_names(2,4)])
    (simp_all add: sample_thread_def sample_client_def sample_mq EIO_def,
     simp add: sample_os_def sample_path_def volume_path_def)

end
