(* ===== verification/Io_Vectors.thy ===== *)
theory Io_Vectors
  imports Cvbd_Prelude
begin

text \<open>
  \<open>iov_from_buf\<close> and \<open>iov_to_buf\<close> of \<open>src/SharedMemClientASync.cpp\<close>: copies between a contiguous buffer
  and the pieces of guest memory an I/O vector lists. The vector's pieces are address ranges of
  one memory, so that overlapping pieces alias as they do in the program; the buffer of the
  message is another object. The main results relate both loops to the flat list of addresses the
  vector stands for.
\<close>

section \<open>Definitions\<close>

record iovec =
  iov_base :: nat
  iov_len :: nat

text \<open>
  The loop of \<open>iov_from_buf\<close>, over the remaining elements, with \<open>offset\<close>, \<open>done\<close> and the memory; it
  returns the offset and the count it ends with.
\<close>

fun iov_from_loop :: "iovec list \<Rightarrow> nat \<Rightarrow> nat \<Rightarrow> mem \<Rightarrow> nat \<Rightarrow> mem \<Rightarrow> nat \<times> nat \<times> mem" where
  "iov_from_loop [] offset dn buf bytes g = (offset, dn, g)"
| "iov_from_loop (v # vs) offset dn buf bytes g =
     (if offset \<noteq> 0 \<or> dn < bytes then
        if offset < iov_len v then
          (let len = min (iov_len v - offset) (bytes - dn) in
           iov_from_loop vs 0 (dn + len) buf bytes (memcpy g (iov_base v + offset) buf dn len))
        else iov_from_loop vs (offset - iov_len v) dn buf bytes g
      else (offset, dn, g))"

fun iov_to_loop :: "iovec list \<Rightarrow> nat \<Rightarrow> nat \<Rightarrow> mem \<Rightarrow> nat \<Rightarrow> mem \<Rightarrow> nat \<times> nat \<times> mem" where
  "iov_to_loop [] offset dn buf bytes g = (offset, dn, buf)"
| "iov_to_loop (v # vs) offset dn buf bytes g =
     (if offset \<noteq> 0 \<or> dn < bytes then
        if offset < iov_len v then
          (let len = min (iov_len v - offset) (bytes - dn) in
           iov_to_loop vs 0 (dn + len) (memcpy buf dn g (iov_base v + offset) len) bytes g)
        else iov_to_loop vs (offset - iov_len v) dn buf bytes g
      else (offset, dn, buf))"

text \<open>The functions, with the assertion on the offset; the state is the guest's memory.\<close>

definition iov_from_buf :: "iovec list \<Rightarrow> nat \<Rightarrow> mem \<Rightarrow> nat \<Rightarrow> (mem, nat) cmd" where
  "iov_from_buf iov offset buf bytes =
     (\<lambda>g. case iov_from_loop iov offset 0 buf bytes g of
        (off, dn, g') \<Rightarrow> (if off = 0 then Ret dn else Fail Abort, g'))"

text \<open>\<open>iov_to_buf\<close> returns the count and the filled buffer.\<close>

definition iov_to_buf :: "iovec list \<Rightarrow> nat \<Rightarrow> mem \<Rightarrow> nat \<Rightarrow> (mem, nat \<times> mem) cmd" where
  "iov_to_buf iov offset buf bytes =
     (\<lambda>g. case iov_to_loop iov offset 0 buf bytes g of
        (off, dn, buf') \<Rightarrow> (if off = 0 then Ret (dn, buf') else Fail Abort, g))"

section \<open>The addresses of a vector\<close>

definition iov_addrs :: "iovec list \<Rightarrow> nat list" where
  "iov_addrs iov = concat (map (\<lambda>v. [iov_base v ..< iov_base v + iov_len v]) iov)"

definition iov_size :: "iovec list \<Rightarrow> nat" where
  "iov_size iov = sum_list (map iov_len iov)"

lemma iov_addrs_simps [simp]:
  "iov_addrs [] = []" "iov_addrs (v # vs) = [iov_base v ..< iov_base v + iov_len v] @ iov_addrs vs"
  by (simp_all add: iov_addrs_def)

lemma iov_size_simps [simp]: "iov_size [] = 0" "iov_size (v # vs) = iov_len v + iov_size vs"
  by (simp_all add: iov_size_def)

lemma length_iov_addrs [simp]: "length (iov_addrs iov) = iov_size iov"
  by (induction iov) simp_all

text \<open>Stores of consecutive bytes of a buffer at a list of addresses, in the order of the list.\<close>

primrec store_at :: "nat list \<Rightarrow> mem \<Rightarrow> nat \<Rightarrow> mem \<Rightarrow> mem" where
  "store_at [] buf k g = g"
| "store_at (a # as) buf k g = store_at as buf (Suc k) (g(a := buf k))"

lemma store_at_append: "store_at (as @ bs) buf k g = store_at bs buf (k + length as) (store_at as buf k g)"
  by (induction as arbitrary: k g) simp_all

lemma memcpy_store_at: "memcpy g a buf k n = store_at [a ..< a + n] buf k g"
proof (induction n arbitrary: a k g)
  case (Suc n)
  have "memcpy g a buf k (Suc n) = memcpy (g(a := buf k)) (Suc a) buf (Suc k) n"
    by (rule ext) (auto simp: memcpy_def Suc_diff_Suc)
  moreover have "[a ..< a + Suc n] = a # [Suc a ..< Suc a + n]" by (simp add: upt_conv_Cons del: upt_Suc)
  ultimately show ?case using Suc [of "g(a := buf k)" "Suc a" "Suc k"] by (simp only: store_at.simps)
qed simp

lemma store_at_other: "x \<notin> set as \<Longrightarrow> store_at as buf k g x = g x"
  by (induction as arbitrary: k g) auto

lemma store_at_nth:
  assumes "distinct as" "i < length as"
  shows "store_at as buf k g (as ! i) = buf (k + i)"
  using assms
proof (induction as arbitrary: k g i)
  case (Cons a as)
  then show ?case by (cases i) (auto simp: store_at_other)
qed simp

section \<open>The loops over the flat address list\<close>

lemma take_min_upt: "take m [a ..< a + n] = [a ..< a + min n m]"
  by (cases "m \<le> n") (simp_all add: min_def)

lemma drop_upt_add: "drop m [a ..< a + n] = [a + m ..< a + m + (n - m)]"
  by (cases "m \<le> n") simp_all

text \<open>
  Both loops, from any offset and count: they skip \<open>offset\<close> addresses and copy as many bytes as
  are wanted and available.
\<close>

lemma iov_from_loop_eq:
  "dn \<le> bytes \<Longrightarrow> iov_from_loop iov off dn buf bytes g =
    (off - iov_size iov, dn + min (bytes - dn) (iov_size iov - off),
     store_at (take (bytes - dn) (drop off (iov_addrs iov))) buf dn g)"
proof (induction iov arbitrary: off dn g)
  case (Cons v vs)
  show ?case
  proof (cases "off < iov_len v")
    case True
    define n where "n = min (iov_len v - off) (bytes - dn)"
    have "iov_from_loop vs 0 (dn + n) buf bytes (memcpy g (iov_base v + off) buf dn n) =
      (0, dn + n + min (bytes - (dn + n)) (iov_size vs),
       store_at (take (bytes - (dn + n)) (iov_addrs vs)) buf (dn + n) (store_at [iov_base v + off ..< iov_base v + off + n] buf dn g))"
      using Cons.IH [of "dn + n" 0] Cons.prems by (simp add: n_def memcpy_store_at)
    moreover have "take (bytes - dn) (drop off (iov_addrs (v # vs))) =
        [iov_base v + off ..< iov_base v + off + n] @ take (bytes - (dn + n)) (iov_addrs vs)"
      using True by (auto simp: n_def drop_upt_add take_min_upt min_def)
    ultimately show ?thesis
      using True Cons.prems by (auto simp: store_at_append n_def min_def Let_def)
  next
    case False
    then show ?thesis using Cons.IH [of dn "off - iov_len v"] Cons.prems by (auto simp: min_def)
  qed
qed simp

text \<open>Loads from a list of addresses into consecutive bytes of a buffer.\<close>

definition load_at :: "nat list \<Rightarrow> mem \<Rightarrow> nat \<Rightarrow> mem \<Rightarrow> mem" where
  "load_at as buf k g = (\<lambda>i. if k \<le> i \<and> i < k + length as then g (as ! (i - k)) else buf i)"

lemma load_at_Nil [simp]: "load_at [] buf k g = buf"
  by (rule ext) (auto simp: load_at_def)

lemma load_store_at: "distinct as \<Longrightarrow> load_at as buf' 0 (store_at as buf 0 g) = memcpy buf' 0 buf 0 (length as)"
  by (rule ext) (auto simp: load_at_def memcpy_def store_at_nth)

lemma load_at_append: "load_at (as @ bs) buf k g = load_at bs (load_at as buf k g) (k + length as) g"
  by (rule ext) (auto simp: load_at_def nth_append diff_diff_left)

lemma memcpy_load_at: "memcpy buf k g a n = load_at [a ..< a + n] buf k g"
  by (rule ext) (auto simp: load_at_def memcpy_def)

lemma iov_to_loop_eq:
  "dn \<le> bytes \<Longrightarrow> iov_to_loop iov off dn buf bytes g =
    (off - iov_size iov, dn + min (bytes - dn) (iov_size iov - off),
     load_at (take (bytes - dn) (drop off (iov_addrs iov))) buf dn g)"
proof (induction iov arbitrary: off dn buf)
  case (Cons v vs)
  show ?case
  proof (cases "off < iov_len v")
    case True
    define n where "n = min (iov_len v - off) (bytes - dn)"
    have "iov_to_loop vs 0 (dn + n) (memcpy buf dn g (iov_base v + off) n) bytes g =
      (0, dn + n + min (bytes - (dn + n)) (iov_size vs),
       load_at (take (bytes - (dn + n)) (iov_addrs vs)) (load_at [iov_base v + off ..< iov_base v + off + n] buf dn g) (dn + n) g)"
      using Cons.IH [of "dn + n" 0] Cons.prems by (simp add: n_def memcpy_load_at)
    moreover have "take (bytes - dn) (drop off (iov_addrs (v # vs))) =
        [iov_base v + off ..< iov_base v + off + n] @ take (bytes - (dn + n)) (iov_addrs vs)"
      using True by (auto simp: n_def drop_upt_add take_min_upt min_def)
    ultimately show ?thesis
      using True Cons.prems by (auto simp: load_at_append n_def min_def Let_def)
  next
    case False
    then show ?thesis using Cons.IH [of dn "off - iov_len v"] Cons.prems by (auto simp: min_def)
  qed
qed simp

text \<open>The functions themselves: they fail exactly if the offset lies behind the vector.\<close>

lemma iov_from_buf_run:
  "iov_from_buf iov off buf bytes g =
     (if off \<le> iov_size iov then Ret (min bytes (iov_size iov - off)) else Fail Abort,
      store_at (take bytes (drop off (iov_addrs iov))) buf 0 g)"
  by (simp add: iov_from_buf_def iov_from_loop_eq)

lemma iov_to_buf_run:
  "iov_to_buf iov off buf bytes g =
     (if off \<le> iov_size iov then Ret (min bytes (iov_size iov - off), load_at (take bytes (drop off (iov_addrs iov))) buf 0 g)
      else Fail Abort, g)"
  by (simp add: iov_to_buf_def iov_to_loop_eq)

section \<open>Properties\<close>

text \<open>C16. Both loops, whatever the vector, the offset and the count: they copy from and to the flat list
  of addresses the vector stands for, from the offset on and as far as both ends reach, return
  the number of bytes copied, and fail their assertion exactly if the offset lies behind the
  vector.\<close>

theorem iov_copies_are_flat_copies:
  "iov_from_buf iov off buf bytes g =
     (if off \<le> iov_size iov then Ret (min bytes (iov_size iov - off)) else Fail Abort,
      store_at (take bytes (drop off (iov_addrs iov))) buf 0 g) \<and>
   iov_to_buf iov off buf bytes g =
     (if off \<le> iov_size iov then Ret (min bytes (iov_size iov - off), load_at (take bytes (drop off (iov_addrs iov))) buf 0 g)
      else Fail Abort, g)"
  using iov_from_buf_run iov_to_buf_run by blast

text \<open>Scattering a buffer over a vector without overlaps and gathering it again returns the buffer's
  bytes, and scattering touches no address outside the vector.\<close>

lemma iov_scatter_gather:
  assumes "distinct (iov_addrs iov)" "off + bytes \<le> iov_size iov"
  shows "\<exists>g'. iov_from_buf iov off buf bytes g = (Ret bytes, g') \<and>
    iov_to_buf iov off buf' bytes g' = (Ret (bytes, memcpy buf' 0 buf 0 bytes), g') \<and>
    (x \<in> set (iov_addrs iov) \<or> g' x = g x)"
proof -
  let ?as = "take bytes (drop off (iov_addrs iov))"
  define g' where "g' = store_at ?as buf 0 g"
  have "distinct ?as" "length ?as = bytes" using assms by auto
  then have "load_at ?as buf' 0 g' = memcpy buf' 0 buf 0 bytes"
    using load_store_at [of ?as buf' buf g] by (simp add: g'_def)
  moreover have "x \<in> set (iov_addrs iov) \<or> g' x = g x"
    using set_take_subset [of bytes "drop off (iov_addrs iov)"] set_drop_subset [of off "iov_addrs iov"]
      store_at_other [of x ?as buf 0 g] unfolding g'_def by blast
  ultimately show ?thesis
    using assms by (intro exI [of _ g']) (simp add: iov_from_buf_run iov_to_buf_run g'_def)
qed

lemma iov_scatter_gather_witness:
  "\<exists>g'. iov_from_buf [\<lparr>iov_base = 10, iov_len = 3\<rparr>, \<lparr>iov_base = 20, iov_len = 2\<rparr>] 1 (\<lambda>i. word_of_nat i) 4 (\<lambda>_. 0) = (Ret 4, g') \<and>
     (5 \<in> set (iov_addrs [\<lparr>iov_base = 10, iov_len = 3\<rparr>, \<lparr>iov_base = 20, iov_len = 2\<rparr>]) \<or> g' 5 = 0)"
proof -
  let ?v = "[\<lparr>iov_base = 10, iov_len = 3\<rparr>, \<lparr>iov_base = 20, iov_len = 2\<rparr>]"
  have "distinct (iov_addrs ?v)" "1 + 4 \<le> iov_size ?v" by (simp_all add: eval_nat_numeral)
  from iov_scatter_gather [OF this, of "\<lambda>i. word_of_nat i" "\<lambda>_. 0" "\<lambda>_. 0" 5] show ?thesis by blast
qed

end
