(* ===== verification/Shm_Client_Async.thy ===== *)
theory Shm_Client_Async
  imports Open_Session Io_Vectors
begin

text \<open>
  \<open>src/SharedMemClientASync.cpp\<close>: the client of the asynchronous block driver. It shares its class
  and most of its sends with the synchronous client; a second thread, \<open>handle_co_reply\<close>, receives
  the replies, stores what was read into the guest's memory and calls the request's callback.
  Only \<open>send_open\<close> waits for its reply, on a condition variable without a predicate. The request
  control blocks live in a heap of their own; their struct is declared in QEMU's \<open>cvbd.h\<close>, which
  is not part of the repository, so only the members this code uses appear, and the callback is a
  parameter, set to \<open>cvbd_finish_aio\<close> by \<open>src/cvbd.c\<close>.
\<close>

section \<open>State\<close>

text \<open>
  \<open>CVBDAIOCB\<close>: the members this code and the driver use. A vector is null for a flush; \<open>acb_bh\<close> says
  whether a bottom half is set, \<open>acb_resumed\<close> whether the coroutine has been entered again.
\<close>

record acb =
  acb_size :: u64
  acb_ret :: int
  acb_qiov :: "iovec list option"
  acb_callback :: bool
  acb_bh :: bool
  acb_resumed :: bool

text \<open>The thread that called \<open>pthread_cond_wait\<close>: a signal only reaches a thread that waits.\<close>

datatype wait_state = Not_waiting | Waiting | Signalled

text \<open>
  The process: the client object and the server behind it, the guest's memory, the control blocks
  and the address of the next one, the scheduled bottom halves, the reply thread, the main loop
  and the thread that waits on the condition variable.
\<close>

record 'b asys =
  as_sys :: "'b csys"
  as_guest :: mem
  as_acbs :: "u64 \<Rightarrow> acb option"
  as_next :: nat
  as_bhs :: "u64 list"
  as_reply :: thread_state
  as_main :: thread_state
  as_wait :: wait_state

definition on_sys :: "('b csys, 'a) cmd \<Rightarrow> ('b asys, 'a) cmd" where
  "on_sys m = zoom as_sys (\<lambda>x s. s\<lparr>as_sys := x\<rparr>) m"

definition on_guest :: "(mem, 'a) cmd \<Rightarrow> ('b asys, 'a) cmd" where
  "on_guest m = zoom as_guest (\<lambda>g s. s\<lparr>as_guest := g\<rparr>) m"

text \<open>\<open>*acb\<close> and an assignment through it.\<close>

definition deref_acb :: "u64 \<Rightarrow> ('b asys, acb) cmd" where
  "deref_acb a = (\<lambda>s. case (if a = 0 then None else as_acbs s a) of None \<Rightarrow> (Fail Undef, s) | Some x \<Rightarrow> (Ret x, s))"

definition set_acb :: "u64 \<Rightarrow> (acb \<Rightarrow> acb) \<Rightarrow> ('b asys, unit) cmd" where
  "set_acb a f = cbind (deref_acb a) (\<lambda>x. modify (\<lambda>s. s\<lparr>as_acbs := (as_acbs s)(a \<mapsto> f x)\<rparr>))"

definition the_qiov :: "acb \<Rightarrow> ('b asys, iovec list) cmd" where
  "the_qiov x = (case acb_qiov x of None \<Rightarrow> fail Undef | Some v \<Rightarrow> ret v)"

type_synonym 'b callback = "int \<Rightarrow> u64 \<Rightarrow> ('b asys, unit) cmd"

section \<open>The reply thread\<close>

text \<open>\<open>SIGNAL_COMPLETION\<close>: without a waiting thread the signal is lost.\<close>

definition signal_completion :: "('b asys, unit) cmd" where
  "signal_completion = modify (\<lambda>s. s\<lparr>as_wait := (if as_wait s = Waiting then Signalled else as_wait s)\<rparr>)"

text \<open>
  The body of the loop for a reply that is no stop request, once it is in the reply buffer \<open>r\<close>.
  A vector and a count that both exceed \<open>max_data_size\<close> would read outside the buffer.
\<close>

definition co_reply_body :: "'b callback \<Rightarrow> mem \<Rightarrow> ('b asys, unit) cmd" where
  "co_reply_body callback r =
     (let header = get_header r; a = h_acb header in
      if h_type header = type_code REQ_READ then
        cbind (assert (a \<noteq> 0)) (\<lambda>_.
        cbind (deref_acb a) (\<lambda>x.
        cbind (the_qiov x) (\<lambda>iov.
        cbind (defined (min (unat (get64 r 32)) (iov_size iov) \<le> max_data_size)) (\<lambda>_.
        cbind (on_guest (iov_from_buf iov 0 (\<lambda>i. r (read_data_at + i)) (unat (get64 r 32)))) (\<lambda>_.
        cbind (set_acb a (\<lambda>x. x\<lparr>acb_ret := uint (get64 r 32)\<rparr>)) (\<lambda>_.
        cbind (deref_acb a) (\<lambda>x.
        cbind (assert (acb_callback x)) (\<lambda>_. callback 0 a))))))))
      else if h_type header = type_code REQ_FSYNC then
        cbind (assert (a \<noteq> 0)) (\<lambda>_.
        cbind (set_acb a (\<lambda>x. x\<lparr>acb_ret := sint (get32 r 32)\<rparr>)) (\<lambda>_.
        cbind (deref_acb a) (\<lambda>x.
        cbind (assert (acb_callback x)) (\<lambda>_. callback (sint (get32 r 32)) a))))
      else if h_type header = type_code REQ_OPEN \<or> h_type header = type_code REQ_GETSIZE then signal_completion
      else fail Abort)"

text \<open>
  \<open>handle_co_reply\<close>: at most \<open>fuel\<close> turns; with an empty queue the thread waits, still running. It
  receives into the object's reply buffer, which it shares with the sends.
\<close>

fun handle_co_reply :: "nat \<Rightarrow> 'b boost_mq \<Rightarrow> 'b callback \<Rightarrow> 'b asys \<Rightarrow> 'b asys" where
  "handle_co_reply 0 M callback s = s"
| "handle_co_reply (Suc fuel) M callback s =
     (if as_reply s \<noteq> Running then s
      else case cs_client (as_sys s) of
        None \<Rightarrow> s\<lparr>as_reply := Dead Undef\<rparr>
      | Some c \<Rightarrow>
          (case mq_receive M (cl_reply_mq c) reply_size (cs_boost (as_sys s)) of
             (MQ_block, b) \<Rightarrow> s\<lparr>as_sys := set_boost b (as_sys s)\<rparr>
           | (MQ_throw e, b) \<Rightarrow> s\<lparr>as_sys := set_boost b (as_sys s), as_reply := Dead (Throw e)\<rparr>
           | (MQ_ok msg, b) \<Rightarrow>
               (let r = recv_into (cl_reply_msg c) msg;
                    s1 = s\<lparr>as_sys := (set_boost b (as_sys s))\<lparr>cs_client := Some (c\<lparr>cl_reply_msg := r\<rparr>)\<rparr>\<rparr> in
                if h_stop (get_header r) then s1\<lparr>as_reply := Returned\<rparr>
                else case co_reply_body callback r s1 of
                  (Ret _, s2) \<Rightarrow> handle_co_reply fuel M callback s2
                | (Fail e, s2) \<Rightarrow> s2\<lparr>as_reply := Dead e\<rparr>)))"

section \<open>The class\<close>

text \<open>The constructor of the synchronous client, then the start of the reply thread.\<close>

definition async_client_new :: "'b boost_mq \<Rightarrow> mem \<Rightarrow> u64 \<Rightarrow> string \<Rightarrow> ('b asys, client) cmd" where
  "async_client_new M stray stray_volume volume_name =
     cbind (on_sys (SharedMemClient_new M stray stray_volume volume_name)) (\<lambda>c.
     cbind (modify (\<lambda>s. s\<lparr>as_reply := Running, as_wait := Not_waiting\<rparr>)) (\<lambda>_.
     ret c))"

text \<open>
  The destructor frees the message buffers first and then sends the reply thread a stop request,
  of \<open>reply_size\<close> bytes from a \<open>Header\<close> object; it does not join the thread. \<open>getStopRequest\<close> is the
  server's, and so is the read past the header.
\<close>

definition async_stop_request :: "mem option \<Rightarrow> ('s, message) cmd" where
  "async_stop_request behind = stop_request reply_size behind"

definition async_client_delete :: "'b boost_mq \<Rightarrow> mem option \<Rightarrow> ('b asys, unit) cmd" where
  "async_client_delete M behind =
     on_sys (cbind this (\<lambda>c.
       cbind (modify (\<lambda>s. s\<lparr>cs_client := None\<rparr>)) (\<lambda>_.
       cbind (on_mq (mq_remove M (cl_volume_name c))) (\<lambda>_.
       cbind (async_stop_request behind) (\<lambda>msg.
       cbind (try_mq (mq_try_send M (cl_reply_mq c) msg 0)) (\<lambda>_.
       ret ()))))))"

text \<open>
  \<open>send_open\<close>: the send, the wait on the condition variable, and the use of the reply. \<open>early\<close> is what
  the other threads do after the send and before this thread waits, \<open>env\<close> what they do while it
  waits; a wait that is not signalled never ends (spurious wake-ups, which POSIX allows, are not
  modelled).
\<close>

definition open_send :: "'b boost_mq \<Rightarrow> ('b server \<Rightarrow> 'b server) \<Rightarrow> ('b csys, unit) cmd" where
  "open_send M peer =
     cbind (put_request_header REQ_OPEN 0) (\<lambda>_.
     cbind this (\<lambda>c.
     cbind (OpenRequest_init (cl_request_msg c) (cl_volume_name c) (cl_volume_name c)) (\<lambda>m.
     cbind (set_request_msg m) (\<lambda>_.
     send_request M peer openrequest_size))))"

definition wait_to_complete :: "('b asys \<Rightarrow> 'b asys) \<Rightarrow> ('b asys, unit) cmd" where
  "wait_to_complete env = (\<lambda>s.
     let s1 = env (s\<lparr>as_wait := Waiting\<rparr>) in
     if as_wait s1 = Signalled then (Ret (), s1\<lparr>as_wait := Not_waiting\<rparr>) else (Fail Hang, s1))"

definition open_result :: "('b csys, int) cmd" where
  "open_result =
     cbind this (\<lambda>c.
     let r = cl_reply_msg c in
     cbind (assert (h_type (get_header r) = type_code REQ_OPEN)) (\<lambda>_.
     cbind (if get32 r 40 = 0 then modify (\<lambda>s. s\<lparr>cs_client := Some (c\<lparr>cl_volume := get64 r 32\<rparr>)\<rparr>) else ret ()) (\<lambda>_.
     ret (sint (get32 r 40)))))"

definition async_send_open :: "'b boost_mq \<Rightarrow> ('b server \<Rightarrow> 'b server) \<Rightarrow> ('b asys \<Rightarrow> 'b asys) \<Rightarrow> ('b asys \<Rightarrow> 'b asys) \<Rightarrow>
    ('b asys, int) cmd" where
  "async_send_open M peer early env =
     cbind (on_sys (open_send M peer)) (\<lambda>_.
     cbind (modify early) (\<lambda>_.
     cbind (wait_to_complete env) (\<lambda>_.
     on_sys open_result)))"

definition async_send_close :: "'b boost_mq \<Rightarrow> ('b server \<Rightarrow> 'b server) \<Rightarrow> ('b asys, unit) cmd" where
  "async_send_close M peer =
     on_sys (cbind (put_request_header REQ_CLOSE 0) (\<lambda>_. send_request M peer closerequest_size))"

text \<open>
  \<open>send_getsize\<close> does not wait: it returns what the reply buffer holds. \<open>early\<close> is what the other
  threads do after the send and before this thread reads the buffer.
\<close>

definition async_send_getsize :: "'b boost_mq \<Rightarrow> ('b server \<Rightarrow> 'b server) \<Rightarrow> ('b asys \<Rightarrow> 'b asys) \<Rightarrow> ('b asys, u64) cmd" where
  "async_send_getsize M peer early =
     cbind (on_sys (cbind (put_request_header REQ_GETSIZE 0) (\<lambda>_. send_request M peer getsizerequest_size))) (\<lambda>_.
     cbind (modify early) (\<lambda>_.
     on_sys (cbind this (\<lambda>c. ret (get64 (cl_reply_msg c) 32)))))"

text \<open>
  \<open>send_write\<close> and \<open>send_read\<close> are, line for line, those of the synchronous client; the latter
  receives its reply itself, in competition with the reply thread.
\<close>

definition async_send_write :: "'b boost_mq \<Rightarrow> ('b server \<Rightarrow> 'b server) \<Rightarrow> mem \<Rightarrow> nat \<Rightarrow> u64 \<Rightarrow> u64 \<Rightarrow> ('b asys, unit) cmd" where
  "async_send_write M peer buf at size_in_bytes offset = on_sys (send_write M peer buf at size_in_bytes offset)"

definition async_send_read :: "'b boost_mq \<Rightarrow> ('b server \<Rightarrow> 'b server) \<Rightarrow> mem \<Rightarrow> nat \<Rightarrow> u64 \<Rightarrow> u64 \<Rightarrow> ('b asys, mem) cmd" where
  "async_send_read M peer buf at size_in_bytes offset = on_sys (send_read M peer buf at size_in_bytes offset)"

definition send_readv :: "'b boost_mq \<Rightarrow> ('b server \<Rightarrow> 'b server) \<Rightarrow> u64 \<Rightarrow> u64 \<Rightarrow> ('b asys, unit) cmd" where
  "send_readv M peer offset a =
     cbind (deref_acb a) (\<lambda>x.
     cbind (assert (unat (acb_size x) \<le> max_data_size)) (\<lambda>_.
     on_sys (cbind (put_request_header REQ_READ a) (\<lambda>_.
       cbind this (\<lambda>c.
       cbind (set_request_msg (ReadRequest_init (cl_request_msg c) offset (acb_size x))) (\<lambda>_.
       send_request M peer readrequest_size))))))"

definition send_writev :: "'b boost_mq \<Rightarrow> ('b server \<Rightarrow> 'b server) \<Rightarrow> 'b callback \<Rightarrow> u64 \<Rightarrow> u64 \<Rightarrow> ('b asys, unit) cmd" where
  "send_writev M peer callback offset a =
     cbind (deref_acb a) (\<lambda>x.
     cbind (assert (unat (acb_size x) \<le> max_data_size)) (\<lambda>_.
     cbind (on_sys (put_request_header REQ_WRITE a)) (\<lambda>_.
     cbind (on_sys this) (\<lambda>c.
     let m = WriteRequest_init (cl_request_msg c) offset (acb_size x) in
     cbind (the_qiov x) (\<lambda>iov.
     cbind (on_guest (iov_to_buf iov 0 (\<lambda>i. m (write_data_at + i)) (unat (req_size m)))) (\<lambda>(_, data).
     let m' = memcpy m write_data_at data 0 (unat (req_size m)) in
     cbind (on_sys (set_request_msg m')) (\<lambda>_.
     cbind (assert (acb_size x = req_size m')) (\<lambda>_.
     cbind (on_sys (send_request M peer writerequest_size)) (\<lambda>_.
     cbind (assert (acb_callback x)) (\<lambda>_.
     cbind (set_acb a (\<lambda>x. x\<lparr>acb_ret := uint (acb_size x)\<rparr>)) (\<lambda>_.
     callback 0 a)))))))))))"

definition send_fsync :: "'b boost_mq \<Rightarrow> ('b server \<Rightarrow> 'b server) \<Rightarrow> u64 \<Rightarrow> ('b asys, unit) cmd" where
  "send_fsync M peer a =
     on_sys (cbind (put_request_header REQ_FSYNC a) (\<lambda>_. send_request M peer fsyncrequest_size))"

section \<open>The C interface\<close>

definition async_make_client :: "'b boost_mq \<Rightarrow> mem \<Rightarrow> u64 \<Rightarrow> string option \<Rightarrow> ('b asys, bool) cmd" where
  "async_make_client M stray stray_volume volume_name =
     (case volume_name of None \<Rightarrow> fail Undef
      | Some nm \<Rightarrow>
          catch_all
            (cbind (async_client_new M stray stray_volume nm) (\<lambda>c.
             cbind (on_sys (modify (\<lambda>s. s\<lparr>cs_client := Some c\<rparr>))) (\<lambda>_. ret True)))
            (cbind (on_sys (modify (\<lambda>s. s\<lparr>cs_client := None\<rparr>))) (\<lambda>_. ret False)))"

definition async_destroy_client :: "'b boost_mq \<Rightarrow> mem option \<Rightarrow> ('b asys, unit) cmd" where
  "async_destroy_client M behind =
     catch_all (cbind (gets (\<lambda>s. cs_client (as_sys s))) (\<lambda>h. if h = None then ret () else async_client_delete M behind)) (ret ())"

definition async_create_volume :: "'b boost_mq \<Rightarrow> ('b server \<Rightarrow> 'b server) \<Rightarrow> ('b asys \<Rightarrow> 'b asys) \<Rightarrow> ('b asys \<Rightarrow> 'b asys) \<Rightarrow>
    ('b asys, int) cmd" where
  "async_create_volume M peer early env =
     catch_all (async_send_open M peer early env) (gets (\<lambda>s. - cs_errno (as_sys s)))"

definition async_release_volume :: "'b boost_mq \<Rightarrow> ('b server \<Rightarrow> 'b server) \<Rightarrow> ('b asys, bool) cmd" where
  "async_release_volume M peer = catch_all (cbind (async_send_close M peer) (\<lambda>_. ret True)) (ret False)"

definition async_getsize_volume :: "'b boost_mq \<Rightarrow> ('b server \<Rightarrow> 'b server) \<Rightarrow> ('b asys \<Rightarrow> 'b asys) \<Rightarrow> ('b asys, u64) cmd" where
  "async_getsize_volume M peer early = catch_all (async_send_getsize M peer early) (ret 0)"

definition async_write :: "'b boost_mq \<Rightarrow> ('b server \<Rightarrow> 'b server) \<Rightarrow> mem \<Rightarrow> nat \<Rightarrow> u64 \<Rightarrow> u64 \<Rightarrow> ('b asys, bool) cmd" where
  "async_write M peer buf at size_in_bytes offset =
     catch_all (cbind (async_send_write M peer buf at size_in_bytes offset) (\<lambda>_. ret True)) (ret False)"

definition async_read :: "'b boost_mq \<Rightarrow> ('b server \<Rightarrow> 'b server) \<Rightarrow> mem \<Rightarrow> nat \<Rightarrow> u64 \<Rightarrow> u64 \<Rightarrow> ('b asys, bool \<times> mem) cmd" where
  "async_read M peer buf at size_in_bytes offset =
     catch_all (cbind (async_send_read M peer buf at size_in_bytes offset) (\<lambda>buf'. ret (True, buf'))) (ret (False, buf))"

definition shared_mem_writev :: "'b boost_mq \<Rightarrow> ('b server \<Rightarrow> 'b server) \<Rightarrow> 'b callback \<Rightarrow> u64 \<Rightarrow> u64 \<Rightarrow> ('b asys, bool) cmd" where
  "shared_mem_writev M peer callback offset a =
     catch_all (cbind (send_writev M peer callback offset a) (\<lambda>_. ret True)) (ret False)"

definition shared_mem_readv :: "'b boost_mq \<Rightarrow> ('b server \<Rightarrow> 'b server) \<Rightarrow> u64 \<Rightarrow> u64 \<Rightarrow> ('b asys, bool) cmd" where
  "shared_mem_readv M peer offset a =
     catch_all (cbind (send_readv M peer offset a) (\<lambda>_. ret True)) (ret False)"

definition shared_mem_fsync :: "'b boost_mq \<Rightarrow> ('b server \<Rightarrow> 'b server) \<Rightarrow> u64 \<Rightarrow> ('b asys, bool) cmd" where
  "shared_mem_fsync M peer a =
     catch_all (cbind (send_fsync M peer a) (\<lambda>_. ret True)) (ret False)"

end
