(* ===== verification/Non_Aligned_Copy.thy ===== *)
theory Non_Aligned_Copy
  imports Cvbd_Prelude "HOL-Library.Signed_Division"
begin

text \<open>
  \<open>src/NonAlignedCopy.h\<close>: the iterator that cuts a byte range into pieces that do not cross a
  multiple of the block size. The members are \<open>ssize_t\<close>: an \<open>int\<close> here, with every intermediate
  result checked against the 64-bit range; \<open>None\<close> is undefined behaviour (signed overflow or a
  division by zero). The main result is that the loop \<open>while (IsValid) Next\<close> produces exactly
  the pieces of a closed-form list, which partition the range. The locale \<open>chunk_iterator\<close> is
  the contract the block driver relies on.
\<close>

section \<open>Definitions\<close>

definition ssize :: "int \<Rightarrow> int option" where
  "ssize x = (if - (2 ^ 63) \<le> x \<and> x < 2 ^ 63 then Some x else None)"

record NonAlignedCopy =
  nac_start :: int
  nac_len :: int
  nac_blockSize :: int
  nac_cur :: int

definition NonAlignedCopyInit :: "NonAlignedCopy \<Rightarrow> int \<Rightarrow> int \<Rightarrow> int \<Rightarrow> NonAlignedCopy" where
  "NonAlignedCopyInit this start len blockSize =
     this\<lparr>nac_start := start, nac_len := len, nac_blockSize := blockSize, nac_cur := start\<rparr>"

definition NonAlignedCopyIsValid :: "NonAlignedCopy \<Rightarrow> bool option" where
  "NonAlignedCopyIsValid this =
     do {
       e \<leftarrow> ssize (nac_start this + nac_len this);
       d \<leftarrow> ssize (e - nac_cur this);
       Some (0 < d)
     }"

text \<open>C's \<open>%\<close> truncates towards zero; a zero divisor and the one overflowing quotient are undefined.\<close>

definition c_rem :: "int \<Rightarrow> int \<Rightarrow> int option" where
  "c_rem a b = (if b = 0 \<or> a = - (2 ^ 63) \<and> b = - 1 then None else Some (a smod b))"

text \<open>\<open>NonAlignedCopyNext\<close> returns the iterator it leaves, \<open>*retOffset\<close> and \<open>*retSize\<close>.\<close>

definition NonAlignedCopyNext :: "NonAlignedCopy \<Rightarrow> (NonAlignedCopy \<times> int \<times> int) option" where
  "NonAlignedCopyNext this =
     do {
       e \<leftarrow> ssize (nac_start this + nac_len this);
       remaining \<leftarrow> ssize (e - nac_cur this);
       r \<leftarrow> c_rem (nac_cur this) (nac_blockSize this);
       available \<leftarrow> ssize (nac_blockSize this - r);
       let retSize = (if available > remaining then remaining else available);
       cur \<leftarrow> ssize (nac_cur this + retSize);
       Some (this\<lparr>nac_cur := cur\<rparr>, nac_cur this, retSize)
     }"

text \<open>The pieces the loop \<open>while (IsValid) Next\<close> goes through, with at most \<open>fuel\<close> tests.\<close>

fun nac_pieces :: "nat \<Rightarrow> NonAlignedCopy \<Rightarrow> (int \<times> int) list option" where
  "nac_pieces 0 a = None"
| "nac_pieces (Suc fuel) a =
     (case NonAlignedCopyIsValid a of
        None \<Rightarrow> None
      | Some False \<Rightarrow> Some []
      | Some True \<Rightarrow>
          (case NonAlignedCopyNext a of
             None \<Rightarrow> None
           | Some (a', off, sz) \<Rightarrow> map_option (Cons (off, sz)) (nac_pieces fuel a')))"

section \<open>The contract of the iterator\<close>

text \<open>
  An iterator over the byte range up to \<open>e\<close>, standing at \<open>p\<close>: it is valid while bytes remain,
  and a step returns a non-empty piece that starts at \<open>p\<close>, is no longer than \<open>bound\<close> and ends
  inside the range.
\<close>

locale chunk_iterator =
  fixes valid :: "'a \<Rightarrow> bool option"
    and step :: "'a \<Rightarrow> ('a \<times> int \<times> int) option"
    and at_pos :: "'a \<Rightarrow> int \<Rightarrow> int \<Rightarrow> int \<Rightarrow> bool"
  assumes valid_iff: "at_pos a p e bound \<Longrightarrow> valid a = Some (p < e)"
    and step_piece: "at_pos a p e bound \<Longrightarrow> p < e \<Longrightarrow>
          \<exists>a' n. step a = Some (a', p, n) \<and> 0 < n \<and> n \<le> bound \<and> p + n \<le> e \<and> at_pos a' (p + n) e bound"

section \<open>One step\<close>

text \<open>The range and block size for which no operation of the iterator overflows.\<close>

definition nac_at :: "NonAlignedCopy \<Rightarrow> int \<Rightarrow> int \<Rightarrow> int \<Rightarrow> bool" where
  "nac_at a p e bound \<longleftrightarrow>
     nac_cur a = p \<and> nac_start a + nac_len a = e \<and> nac_blockSize a = bound \<and>
     0 \<le> p \<and> p \<le> e \<and> e < 2 ^ 63 \<and> 0 < bound \<and> bound < 2 ^ 63"

lemma ssize_in [simp]: "- (2 ^ 63) \<le> x \<Longrightarrow> x < 2 ^ 63 \<Longrightarrow> ssize x = Some x"
  by (simp add: ssize_def)

lemma c_rem_pos [simp]: "0 \<le> a \<Longrightarrow> 0 < b \<Longrightarrow> c_rem a b = Some (a mod b)"
  by (simp add: c_rem_def signed_modulo_int_def signed_divide_int_def minus_mult_div_eq_mod sgn_if)

lemma nac_at_Init:
  "0 \<le> start \<Longrightarrow> 0 \<le> len \<Longrightarrow> start + len < 2 ^ 63 \<Longrightarrow> 0 < b \<Longrightarrow> b < 2 ^ 63 \<Longrightarrow>
   nac_at (NonAlignedCopyInit t start len b) start (start + len) b"
  by (simp add: nac_at_def NonAlignedCopyInit_def)

lemma nac_at_valid: "nac_at a p e b \<Longrightarrow> NonAlignedCopyIsValid a = Some (p < e)"
  by (auto simp: nac_at_def NonAlignedCopyIsValid_def)

text \<open>The size of the piece at \<open>p\<close>: what is left of its block, or of the range if that is less.\<close>

definition piece_size :: "int \<Rightarrow> int \<Rightarrow> int \<Rightarrow> int" where
  "piece_size p e b = min (b - p mod b) (e - p)"

lemma piece_size_bounds:
  assumes "p < e" and "0 < b"
  shows "0 < piece_size p e b" and "piece_size p e b \<le> b" and "p + piece_size p e b \<le> e"
proof -
  have "0 \<le> p mod b" "p mod b < b" using assms by simp_all
  with assms show "0 < piece_size p e b" "piece_size p e b \<le> b" "p + piece_size p e b \<le> e"
    by (simp_all add: piece_size_def min_def)
qed

lemma nac_at_next:
  assumes "nac_at a p e b" and "p < e"
  shows "NonAlignedCopyNext a = Some (a\<lparr>nac_cur := p + piece_size p e b\<rparr>, p, piece_size p e b)"
proof -
  from assms have b: "0 \<le> p" "e < 2 ^ 63" "0 < b" "b < 2 ^ 63" "nac_cur a = p"
    "nac_start a + nac_len a = e" "nac_blockSize a = b" by (auto simp: nac_at_def)
  then have "0 \<le> p mod b" "p mod b < b" by simp_all
  with b have "ssize (b - p mod b) = Some (b - p mod b)" by simp
  moreover have "ssize (p + piece_size p e b) = Some (p + piece_size p e b)"
    using b assms(2) piece_size_bounds [of p e b] by simp
  moreover have "(if b - p mod b > e - p then e - p else b - p mod b) = piece_size p e b"
    by (simp add: piece_size_def min_def)
  ultimately show ?thesis
    using b assms(2) by (simp add: NonAlignedCopyNext_def Let_def)
qed

lemma nac_at_advance:
  "nac_at a p e b \<Longrightarrow> p < e \<Longrightarrow> nac_at (a\<lparr>nac_cur := p + piece_size p e b\<rparr>) (p + piece_size p e b) e b"
  using piece_size_bounds [of p e b] by (auto simp: nac_at_def)

interpretation nac: chunk_iterator NonAlignedCopyIsValid NonAlignedCopyNext nac_at
proof unfold_locales
  show "NonAlignedCopyIsValid a = Some (p < e)" if "nac_at a p e bound" for a p e bound
    using that by (rule nac_at_valid)
  show "\<exists>a' n. NonAlignedCopyNext a = Some (a', p, n) \<and> 0 < n \<and> n \<le> bound \<and> p + n \<le> e \<and> nac_at a' (p + n) e bound"
    if "nac_at a p e bound" "p < e" for a p e bound
    using nac_at_next [OF that] nac_at_advance [OF that] piece_size_bounds [of p e bound] that
    by (auto simp: nac_at_def)
qed

section \<open>The whole loop\<close>

text \<open>
  The closed form: one piece for every block the range meets, the part of the block inside the
  range.
\<close>

definition block_pieces :: "int \<Rightarrow> int \<Rightarrow> int \<Rightarrow> (int \<times> int) list" where
  "block_pieces p e b =
     (if p < e then map (\<lambda>k. (max p (k * b), min e ((k + 1) * b) - max p (k * b))) [p div b .. (e - 1) div b]
      else [])"

lemma block_pieces_step:
  assumes "0 \<le> p" "p < e" "0 < b"
  shows "block_pieces p e b = (p, piece_size p e b) # block_pieces (p + piece_size p e b) e b"
proof -
  define q where "q = p div b"
  define n where "n = piece_size p e b"
  have pq: "p = q * b + p mod b" by (simp add: q_def)
  have r: "0 \<le> p mod b" "p mod b < b" using assms by simp_all
  have "q \<le> (e - 1) div b" unfolding q_def using assms by (intro zdiv_mono1) auto
  then have upto: "[q .. (e - 1) div b] = q # [q + 1 .. (e - 1) div b]"
    by (simp add: upto_rec1)
  have head: "max p (q * b) = p" "min e ((q + 1) * b) - p = n"
    using pq r by (auto simp: n_def piece_size_def algebra_simps)
  have tail: "map (\<lambda>k. (max p (k * b), min e ((k + 1) * b) - max p (k * b))) [q + 1 .. (e - 1) div b]
      = block_pieces (p + n) e b"
  proof (cases "(q + 1) * b < e")
    case True
    then have n: "p + n = (q + 1) * b"
      using head r by (auto simp: min_def split: if_splits)
    have mono: "(q + 1) * b \<le> k * b" if "q + 1 \<le> k" for k
      using that assms(3) by (simp add: mult_right_mono)
    have "max p (k * b) = max (p + n) (k * b)" if "q + 1 \<le> k" for k
      using mono [OF that] n head pq r by (auto simp: max_def algebra_simps)
    with True n assms(3) show ?thesis
      by (auto simp: block_pieces_def)
  next
    case False
    then have "p + n = e" using head by auto
    moreover have "(e - 1) div b < q + 1"
    proof (rule ccontr)
      assume "\<not> (e - 1) div b < q + 1"
      then have "(q + 1) * b \<le> (e - 1) div b * b" using assms(3) by (simp add: mult_right_mono)
      also have "\<dots> \<le> e - 1"
        using div_mult_mod_eq [of "e - 1" b] pos_mod_sign [OF assms(3), of "e - 1"] by linarith
      finally show False using False by simp
    qed
    ultimately show ?thesis by (simp add: block_pieces_def)
  qed
  have "block_pieces p e b = (p, n) # block_pieces (p + n) e b"
    using assms(2) head by (simp add: block_pieces_def [of p] upto flip: q_def tail)
  then show ?thesis by (simp add: n_def)
qed

lemma nac_pieces_at:
  "nac_at a p e b \<Longrightarrow> length (block_pieces p e b) < fuel \<Longrightarrow> nac_pieces fuel a = Some (block_pieces p e b)"
proof (induction fuel arbitrary: a p)
  case (Suc fuel)
  show ?case
  proof (cases "p < e")
    case True
    with Suc.prems have step: "block_pieces p e b = (p, piece_size p e b) # block_pieces (p + piece_size p e b) e b"
      by (intro block_pieces_step) (auto simp: nac_at_def)
    with Suc.prems have "length (block_pieces (p + piece_size p e b) e b) < fuel" by simp
    from Suc.IH [OF nac_at_advance [OF Suc.prems(1) True] this] True show ?thesis
      by (simp add: nac_at_valid [OF Suc.prems(1)] nac_at_next [OF Suc.prems(1) True] step)
  qed (simp add: nac_at_valid [OF Suc.prems(1)] block_pieces_def)
qed simp

text \<open>What a list of pieces that partitions the bytes from \<open>p\<close> to \<open>e\<close> in order looks like.\<close>

lemma block_pieces_induct [consumes 2, case_names finish piece]:
  assumes "0 \<le> p" "0 < b"
    and "\<And>p. e \<le> p \<Longrightarrow> P p"
    and "\<And>p. 0 \<le> p \<Longrightarrow> p < e \<Longrightarrow> P (p + piece_size p e b) \<Longrightarrow> P p"
  shows "P p"
  using assms(1)
proof (induction "nat (e - p)" arbitrary: p rule: less_induct)
  case less
  show ?case
  proof (cases "p < e")
    case True
    note n = piece_size_bounds [OF True assms(2)]
    with True less.prems have "P (p + piece_size p e b)" by (intro less.hyps) auto
    with True less.prems show ?thesis by (auto intro: assms(4))
  qed (simp add: assms(3))
qed

lemma block_pieces_cover:
  assumes "0 \<le> p" "0 < b"
  shows "concat (map (\<lambda>(off, sz). [off .. off + sz - 1]) (block_pieces p e b)) = [p .. e - 1]"
  using assms
proof (induction p rule: block_pieces_induct [where e = e])
  case (piece p)
  note n = piece_size_bounds [OF piece(2) assms(2)]
  with piece have "[p .. e - 1] = [p .. p + piece_size p e b - 1] @ [p + piece_size p e b .. e - 1]"
    using upto_split2 [of p "p + piece_size p e b - 1" "e - 1"] by simp
  with piece assms show ?case by (simp add: block_pieces_step)
qed (simp add: block_pieces_def)

lemma block_pieces_inside:
  assumes "0 \<le> p" "0 < b" "(off, sz) \<in> set (block_pieces p e b)"
  shows "p \<le> off \<and> 0 < sz \<and> off + sz \<le> e \<and> off div b = (off + sz - 1) div b"
  using assms(1,2,3)
proof (induction p rule: block_pieces_induct [where e = e])
  case (piece p)
  note n = piece_size_bounds [OF piece(2) assms(2)]
  show ?case
  proof (cases "(off, sz) = (p, piece_size p e b)")
    case True
    have "piece_size p e b \<le> b - p mod b" by (simp add: piece_size_def)
    moreover have "p = p div b * b + p mod b" "0 \<le> p mod b" using assms(2) by simp_all
    ultimately have "(p + piece_size p e b - 1) div b = p div b"
      using n(1) by (intro int_div_pos_eq [of _ _ _ "p mod b + piece_size p e b - 1"]) (auto simp: algebra_simps)
    with True n show ?thesis by simp
  next
    case False
    with piece assms(2) have "(off, sz) \<in> set (block_pieces (p + piece_size p e b) e b)"
      by (auto simp: block_pieces_step)
    with piece.IH n show ?thesis by auto
  qed
qed (simp add: block_pieces_def)

lemma same_block_size:
  fixes off sz b :: int
  assumes "0 < b" "off div b = (off + sz - 1) div b"
  shows "sz \<le> b"
proof -
  have "off + sz - 1 = off div b * b + (off + sz - 1) mod b" using assms(2) by simp
  moreover have "off = off div b * b + off mod b" by simp
  moreover have "(off + sz - 1) mod b < b" "0 \<le> off mod b" using assms(1) by simp_all
  ultimately show ?thesis by linarith
qed

lemma block_pieces_length:
  assumes "0 \<le> p" "0 < b"
  shows "length (block_pieces p e b) \<le> nat (e - p)"
  using assms
proof (induction p rule: block_pieces_induct [where e = e])
  case (piece p)
  with piece_size_bounds [OF piece(2) assms(2)] assms(2) show ?case by (simp add: block_pieces_step)
qed (simp add: block_pieces_def)

section \<open>Properties\<close>

text \<open>C14. For a range and a block size whose arithmetic does not overflow, the loop over the iterator
  goes through exactly the pieces of the closed form, one for every block the range meets, and
  needs one test more than there are pieces.\<close>

theorem nac_loop_is_block_pieces:
  assumes "0 \<le> start" "0 \<le> len" "start + len < 2 ^ 63" "0 < b" "b < 2 ^ 63"
  shows "nac_pieces (Suc (length (block_pieces start (start + len) b))) (NonAlignedCopyInit t start len b) =
    Some (block_pieces start (start + len) b)"
  by (rule nac_pieces_at [OF nac_at_Init [OF assms]]) simp

theorem nac_loop_is_block_pieces_witness:
  "nac_pieces 4 (NonAlignedCopyInit \<lparr>nac_start = 0, nac_len = 0, nac_blockSize = 0, nac_cur = 0\<rparr> 6144 8192 4096) =
     Some [(6144, 2048), (8192, 4096), (12288, 2048)]"
proof -
  have "block_pieces 6144 14336 4096 = [(6144, 2048), (8192, 4096), (12288, 2048)]"
    by (simp add: block_pieces_def upto_rec1)
  with nac_loop_is_block_pieces [of 6144 8192 4096 "\<lparr>nac_start = 0, nac_len = 0, nac_blockSize = 0, nac_cur = 0\<rparr>"]
  show ?thesis by (simp add: eval_nat_numeral)
qed

text \<open>C15. The pieces partition the range: laid end to end they are its bytes, in order and without
  gaps, and each is non-empty, no longer than a block and inside one block. The loop ends after at
  most as many turns as the range has bytes.\<close>

theorem nac_pieces_partition:
  assumes "0 \<le> start" "0 \<le> len" "start + len < 2 ^ 63" "0 < b" "b < 2 ^ 63" "nat len < fuel"
  shows "\<exists>ps. nac_pieces fuel (NonAlignedCopyInit t start len b) = Some ps \<and>
    concat (map (\<lambda>(off, sz). [off .. off + sz - 1]) ps) = [start .. start + len - 1] \<and>
    (\<forall>(off, sz) \<in> set ps. 0 < sz \<and> sz \<le> b \<and> off div b = (off + sz - 1) div b)"
proof -
  let ?ps = "block_pieces start (start + len) b"
  have "length ?ps < fuel" using block_pieces_length [OF assms(1,4), of "start + len"] assms(6) by simp
  then have "nac_pieces fuel (NonAlignedCopyInit t start len b) = Some ?ps"
    by (rule nac_pieces_at [OF nac_at_Init [OF assms(1-5)]])
  moreover have "0 < sz \<and> sz \<le> b \<and> off div b = (off + sz - 1) div b" if "(off, sz) \<in> set ?ps" for off sz
    using block_pieces_inside [OF assms(1,4) that] assms(4) same_block_size by blast
  ultimately show ?thesis using block_pieces_cover [OF assms(1,4)] by (intro exI [of _ ?ps]) blast
qed

theorem nac_pieces_partition_witness:
  "\<exists>ps. nac_pieces 20 (NonAlignedCopyInit \<lparr>nac_start = 0, nac_len = 0, nac_blockSize = 0, nac_cur = 0\<rparr> 5 10 4) = Some ps \<and>
    concat (map (\<lambda>(off, sz). [off .. off + sz - 1]) ps) = [5 .. 14]"
  using nac_pieces_partition [of 5 10 4 20 "\<lparr>nac_start = 0, nac_len = 0, nac_blockSize = 0, nac_cur = 0\<rparr>"] by auto

end
