(* ===== verification/Cvbd_Sync.thy ===== *)
theory Cvbd_Sync
  imports Open_Session Non_Aligned_Copy Io_Vectors
begin

text \<open>
  \<open>src/cvbd_syncio.c\<close>: the QEMU block driver over the synchronous client. Its entry points parse
  the image name, open and close the volume, query its length, and read and write sectors; a
  transfer is cut into pieces that fit one message by the iterator of \<open>src/NonAlignedCopy.h\<close>.
  QEMU's own code is a parameter: the sector size \<open>BDRV_SECTOR_SIZE\<close> (an unsigned 64-bit 512),
  the URI parser and the dictionary of options. The main result is that reads and writes act on
  the disk behind the client as one transfer of all their bytes.
\<close>

section \<open>QEMU's dictionary and URI parser\<close>

text \<open>
  \<open>QemuOptsList\<close>: the name of a list of options and the options it describes. The driver's list
  describes strings only.
\<close>

datatype QemuOptType = QEMU_OPT_STRING | QEMU_OPT_BOOL | QEMU_OPT_NUMBER | QEMU_OPT_SIZE

record QemuOptDesc =
  od_name :: string
  od_type :: QemuOptType
  od_help :: string

record QemuOptsList =
  ol_name :: string
  ol_desc :: "QemuOptDesc list"

text \<open>
  The operations on a dictionary. \<open>qemu_opts_absorb_qdict\<close> moves the entries a list of options
  describes from the dictionary to the options, which the driver then deletes, so only the
  dictionary remains as its result.
\<close>

record 'q qdict_ops =
  qdict_put :: "'q \<Rightarrow> string \<Rightarrow> string \<Rightarrow> 'q"
  qdict_get_try_str :: "'q \<Rightarrow> string \<Rightarrow> string option"
  qdict_del :: "'q \<Rightarrow> string \<Rightarrow> 'q"
  qemu_opts_absorb_qdict :: "QemuOptsList \<Rightarrow> 'q \<Rightarrow> 'q"

definition qdict_laws :: "'q qdict_ops \<Rightarrow> bool" where
  "qdict_laws Q \<longleftrightarrow>
     (\<forall>q k v k'. qdict_get_try_str Q (qdict_put Q q k v) k' = (if k' = k then Some v else qdict_get_try_str Q q k')) \<and>
     (\<forall>q k k'. qdict_get_try_str Q (qdict_del Q q k) k' = (if k' = k then None else qdict_get_try_str Q q k'))"

text \<open>What is absorbed of strings: the entries the list describes leave the dictionary, the others stay.\<close>

definition absorb_law :: "'q qdict_ops \<Rightarrow> bool" where
  "absorb_law Q \<longleftrightarrow> (\<forall>l q k. ol_desc l \<noteq> [] \<longrightarrow> (\<forall>x \<in> set (ol_desc l). od_type x = QEMU_OPT_STRING) \<longrightarrow>
     qdict_get_try_str Q (qemu_opts_absorb_qdict Q l q) k = (if k \<in> od_name ` set (ol_desc l) then None else qdict_get_try_str Q q k))"

text \<open>The members of \<open>URI\<close> the driver uses; both may be null.\<close>

record URI =
  uri_scheme :: "string option"
  uri_path :: "string option"

section \<open>Image names\<close>

text \<open>\<open>p += strspn (p, "/")\<close>.\<close>

definition skip_slashes :: "string \<Rightarrow> string" where
  "skip_slashes p = dropWhile (\<lambda>c. c = CHR ''/'') p"

definition cvbd_parse_uri :: "(string \<Rightarrow> URI option) \<Rightarrow> 'q qdict_ops \<Rightarrow> string \<Rightarrow> ('q, int) cmd" where
  "cvbd_parse_uri uri_parse Q filename =
     (case uri_parse filename of
        None \<Rightarrow> ret (- EINVAL)
      | Some uri \<Rightarrow>
          (case uri_scheme uri of
             None \<Rightarrow> fail Undef
           | Some scheme \<Rightarrow>
               if scheme \<noteq> ''cvbd'' then ret (- EINVAL)
               else
                 let p = skip_slashes (case uri_path uri of Some path \<Rightarrow> path | None \<Rightarrow> ''/'') in
                 cbind (if p \<noteq> [] then modify (\<lambda>dict. qdict_put Q dict ''export'' p) else ret ()) (\<lambda>_.
                 ret 0)))"

text \<open>\<open>strstr\<close> as a test.\<close>

fun strstr :: "string \<Rightarrow> string \<Rightarrow> bool" where
  "strstr xs ys = (take (length ys) xs = ys \<or> (case xs of [] \<Rightarrow> False | _ # xs' \<Rightarrow> strstr xs' ys))"

text \<open>The result tells whether \<open>errp\<close> was set.\<close>

definition cvbd_parse_filename :: "(string \<Rightarrow> URI option) \<Rightarrow> 'q qdict_ops \<Rightarrow> string \<Rightarrow> ('q, bool) cmd" where
  "cvbd_parse_filename uri_parse Q filename =
     cbind (if strstr filename ''://'' then cvbd_parse_uri uri_parse Q filename else ret (- EINVAL)) (\<lambda>r.
     ret (r < 0))"

section \<open>Alignment\<close>

definition CVBD_BLKSIZE :: u64 where
  "CVBD_BLKSIZE = 4096"

definition MSGQ_MAX_SIZE :: int where
  "MSGQ_MAX_SIZE = 4096 * 128"

text \<open>
  The products are unsigned 64-bit, the type of \<open>BDRV_SECTOR_SIZE\<close>; \<open>nb_sectors\<close> is an \<open>int\<close> and
  is sign-extended.
\<close>

definition sector_bytes :: "u64 \<Rightarrow> u32 \<Rightarrow> u64" where
  "sector_bytes bss nb_sectors = scast nb_sectors * bss"

definition is_request_aligned :: "u64 \<Rightarrow> u64 \<Rightarrow> u32 \<Rightarrow> bool" where
  "is_request_aligned bss sector_num nb_sectors \<longleftrightarrow>
     \<not> ((sector_num * bss) mod CVBD_BLKSIZE \<noteq> 0 \<or> sector_bytes bss nb_sectors mod CVBD_BLKSIZE \<noteq> 0)"

section \<open>Reading and writing\<close>

text \<open>
  The loop both functions share: \<open>while (IsValid (&a)) { Next (&a, &retOff, &retSz); ... }\<close>. The body
  transfers one piece and says whether it succeeded; a failure runs into \<open>assert (0)\<close>. \<open>acc\<close> is
  the caller's buffer.
\<close>

fun piece_loop :: "('a \<Rightarrow> bool option) \<Rightarrow> ('a \<Rightarrow> ('a \<times> int \<times> int) option) \<Rightarrow>
    (int \<Rightarrow> int \<Rightarrow> 'r \<Rightarrow> ('s, bool \<times> 'r) cmd) \<Rightarrow> nat \<Rightarrow> 'a \<Rightarrow> bool \<Rightarrow> 'r \<Rightarrow> ('s, bool \<times> 'r) cmd" where
  "piece_loop valid next body 0 a err acc = fail Hang"
| "piece_loop valid next body (Suc fuel) a err acc =
     (case valid a of
        None \<Rightarrow> fail Undef
      | Some False \<Rightarrow> ret (err, acc)
      | Some True \<Rightarrow>
          (case next a of
             None \<Rightarrow> fail Undef
           | Some (a', retOff, retSz) \<Rightarrow>
               cbind (body retOff retSz acc) (\<lambda>(err', acc').
               cbind (assert err') (\<lambda>_. piece_loop valid next body fuel a' err' acc'))))"

text \<open>
  \<open>relativeOff\<close> is computed unsigned and stored signed, then compared unsigned; it is the offset
  of the piece in the caller's buffer.
\<close>

definition relative_off :: "u64 \<Rightarrow> u64 \<Rightarrow> u32 \<Rightarrow> int \<Rightarrow> ('s, nat) cmd" where
  "relative_off bss sector_num nb_sectors retOff =
     (let relativeOff = word_of_int retOff - sector_num * bss in
      cbind (assert (relativeOff < sector_bytes bss nb_sectors)) (\<lambda>_.
      cbind (defined (0 \<le> sint relativeOff)) (\<lambda>_.
      ret (nat (sint relativeOff)))))"

definition read_piece :: "(mem \<Rightarrow> nat \<Rightarrow> u64 \<Rightarrow> u64 \<Rightarrow> ('s, bool \<times> mem) cmd) \<Rightarrow> u64 \<Rightarrow> u64 \<Rightarrow> u32 \<Rightarrow>
    int \<Rightarrow> int \<Rightarrow> mem \<Rightarrow> ('s, bool \<times> mem) cmd" where
  "read_piece rd bss sector_num nb_sectors retOff retSz buffer =
     cbind (relative_off bss sector_num nb_sectors retOff) (\<lambda>at.
     rd buffer at (word_of_int retSz) (word_of_int retOff))"

definition write_piece :: "(mem \<Rightarrow> nat \<Rightarrow> u64 \<Rightarrow> u64 \<Rightarrow> ('s, bool) cmd) \<Rightarrow> u64 \<Rightarrow> u64 \<Rightarrow> u32 \<Rightarrow> mem \<Rightarrow>
    int \<Rightarrow> int \<Rightarrow> unit \<Rightarrow> ('s, bool \<times> unit) cmd" where
  "write_piece wr bss sector_num nb_sectors buffer retOff retSz acc =
     cbind (relative_off bss sector_num nb_sectors retOff) (\<lambda>at.
     cbind (wr buffer at (word_of_int retSz) (word_of_int retOff)) (\<lambda>err.
     ret (err, acc)))"

definition transfer_range :: "u64 \<Rightarrow> u64 \<Rightarrow> u32 \<Rightarrow> NonAlignedCopy" where
  "transfer_range bss sector_num nb_sectors =
     NonAlignedCopyInit \<lparr>nac_start = 0, nac_len = 0, nac_blockSize = 0, nac_cur = 0\<rparr>
       (sint (sector_num * bss)) (sint (sector_bytes bss nb_sectors)) MSGQ_MAX_SIZE"

text \<open>
  \<open>cvbd_read\<close> and \<open>cvbd_write\<close> over the client's \<open>shared_mem_read\<close> and \<open>shared_mem_write\<close>; the result
  of a read comes with the buffer. \<open>fuel\<close> bounds the turns of the loop.
\<close>

definition cvbd_read :: "nat \<Rightarrow> (mem \<Rightarrow> nat \<Rightarrow> u64 \<Rightarrow> u64 \<Rightarrow> ('s, bool \<times> mem) cmd) \<Rightarrow> u64 \<Rightarrow>
    u64 \<Rightarrow> mem \<Rightarrow> u32 \<Rightarrow> ('s, int \<times> mem) cmd" where
  "cvbd_read fuel rd bss sector_num buffer nb_sectors =
     (if \<not> is_request_aligned bss sector_num nb_sectors then ret (- EINVAL, buffer)
      else cbind (piece_loop NonAlignedCopyIsValid NonAlignedCopyNext (read_piece rd bss sector_num nb_sectors)
                    fuel (transfer_range bss sector_num nb_sectors) True buffer) (\<lambda>(err, buffer').
           ret (if err then 0 else - EIO, buffer')))"

definition cvbd_write :: "nat \<Rightarrow> (mem \<Rightarrow> nat \<Rightarrow> u64 \<Rightarrow> u64 \<Rightarrow> ('s, bool) cmd) \<Rightarrow> u64 \<Rightarrow>
    u64 \<Rightarrow> mem \<Rightarrow> u32 \<Rightarrow> ('s, int) cmd" where
  "cvbd_write fuel wr bss sector_num buffer nb_sectors =
     (if \<not> is_request_aligned bss sector_num nb_sectors then ret (- EINVAL)
      else cbind (piece_loop NonAlignedCopyIsValid NonAlignedCopyNext (write_piece wr bss sector_num nb_sectors buffer)
                    fuel (transfer_range bss sector_num nb_sectors) True ()) (\<lambda>(err, _).
           ret (if err then 0 else - EIO)))"

section \<open>Opening, closing, length\<close>

text \<open>The members of \<open>CVBDState\<close> and of \<open>BlockDriverState\<close> the driver uses, over the client process.\<close>

record 'b bds =
  bs_request_alignment :: u64
  bs_missingReads :: u64
  bs_reads :: u64
  bs_writes :: u64
  bs_readModifyWrites :: u64
  bs_client :: "'b csys"

definition on_client :: "('b csys, 'a) cmd \<Rightarrow> ('b bds, 'a) cmd" where
  "on_client m = zoom bs_client (\<lambda>s b. b\<lparr>bs_client := s\<rparr>) m"

text \<open>The options the driver describes; \<open>head\<close>, the empty list of parsed options, is QEMU's own.\<close>

definition runtime_opts :: QemuOptsList where
  "runtime_opts = \<lparr>ol_name = ''cvbd'',
     ol_desc = [\<lparr>od_name = ''filename'', od_type = QEMU_OPT_STRING, od_help = ''CVBD image name''\<rparr>]\<rparr>"

text \<open>\<open>cvbd_config\<close> acts on the dictionary only: its options and \<open>export\<close> are consumed.\<close>

definition cvbd_config :: "'q qdict_ops \<Rightarrow> 'q \<Rightarrow> 'q" where
  "cvbd_config Q dict =
     (let dict' = qemu_opts_absorb_qdict Q runtime_opts dict in
      if qdict_get_try_str Q dict' ''export'' \<noteq> None then qdict_del Q dict' ''export'' else dict')"

text \<open>
  \<open>cvbd_open\<close>: the \<open>export\<close> option comes from \<open>bs->options\<close>; the result is the return value and the
  dictionary \<open>dict\<close> as \<open>cvbd_config\<close> leaves it, on every path.
\<close>

definition cvbd_open :: "'b boost_mq \<Rightarrow> 'q qdict_ops \<Rightarrow> ('b server \<Rightarrow> 'b server) \<Rightarrow> mem \<Rightarrow> u64 \<Rightarrow>
    'q \<Rightarrow> 'q \<Rightarrow> ('b bds, int \<times> 'q) cmd" where
  "cvbd_open M Q peer stray stray_volume options dict =
     (let export = qdict_get_try_str Q options ''export'' in
      cbind (modify (\<lambda>b. b\<lparr>bs_reads := 0, bs_writes := 0, bs_missingReads := 0, bs_readModifyWrites := 0,
                          bs_request_alignment := CVBD_BLKSIZE\<rparr>)) (\<lambda>_.
      cbind (on_client (shared_mem_make_client M stray stray_volume export)) (\<lambda>ok.
      cbind (if \<not> ok then ret (- EINVAL) else on_client (create_volume M peer)) (\<lambda>r.
      ret (r, cvbd_config Q dict)))))"

definition cvbd_close :: "'b boost_mq \<Rightarrow> ('b server \<Rightarrow> 'b server) \<Rightarrow> ('b bds, unit) cmd" where
  "cvbd_close M peer =
     cbind (on_client (release_volume M peer)) (\<lambda>_.
     on_client (shared_mem_destroy_client M))"

text \<open>\<open>cvbd_getlength\<close> over the client's \<open>getsize_volume\<close>: its \<open>off_t\<close>, stored in a \<open>uint64_t\<close> and returned as an \<open>int64_t\<close>.\<close>

definition cvbd_getlength :: "('s, u64) cmd \<Rightarrow> ('s, int) cmd" where
  "cvbd_getlength len = cbind len (\<lambda>r. ret (sint r))"

text \<open>\<open>cvbd_refresh_filename\<close> reads the driver's state and does nothing with it.\<close>

definition cvbd_refresh_filename :: "('b bds, unit) cmd" where
  "cvbd_refresh_filename = cbind (gets (\<lambda>b. b)) (\<lambda>s. ret ())"

section \<open>The table of the driver\<close>

text \<open>
  \<open>BlockDriver\<close>: the members of QEMU's struct that one of the two drivers sets, over the state \<open>'s\<close>
  of an image and the dictionaries \<open>'q\<close>. A member that is not set is null.
\<close>

record ('s, 'q) BlockDriver =
  format_name :: string
  protocol_name :: string
  instance_size :: nat
  bdrv_parse_filename :: "string \<Rightarrow> ('q, bool) cmd"
  bdrv_file_open :: "'q \<Rightarrow> 'q \<Rightarrow> ('s, int \<times> 'q) cmd"
  bdrv_read :: "(u64 \<Rightarrow> mem \<Rightarrow> u32 \<Rightarrow> ('s, int \<times> mem) cmd) option"
  bdrv_write :: "(u64 \<Rightarrow> mem \<Rightarrow> u32 \<Rightarrow> ('s, int) cmd) option"
  bdrv_close :: "('s, unit) cmd"
  bdrv_co_writev :: "(u64 \<Rightarrow> u32 \<Rightarrow> iovec list \<Rightarrow> ('s, int) cmd) option"
  bdrv_co_readv :: "(u64 \<Rightarrow> u32 \<Rightarrow> iovec list \<Rightarrow> ('s, int) cmd) option"
  bdrv_co_flush_to_disk :: "('s, int) cmd option"
  bdrv_getlength :: "('s, int) cmd"
  bdrv_refresh_filename :: "('s, unit) cmd"

text \<open>
  \<open>bdrv_cvbd\<close>. \<open>sizeof (CVBDState)\<close> is 48 on a 64-bit machine: an \<open>int\<close>, four bytes of padding, a
  pointer and four counters.
\<close>

definition bdrv_cvbd :: "'b boost_mq \<Rightarrow> 'q qdict_ops \<Rightarrow> (string \<Rightarrow> URI option) \<Rightarrow> ('b server \<Rightarrow> 'b server) \<Rightarrow> nat \<Rightarrow> mem \<Rightarrow> u64 \<Rightarrow> u64 \<Rightarrow>
    ('b bds, 'q) BlockDriver" where
  "bdrv_cvbd M Q uri_parse peer fuel stray stray_volume bss =
     \<lparr>format_name = ''cvbd'', protocol_name = ''cvbd'', instance_size = 48,
      bdrv_parse_filename = cvbd_parse_filename uri_parse Q,
      bdrv_file_open = cvbd_open M Q peer stray stray_volume,
      bdrv_read = Some (\<lambda>sector_num buf nb_sectors. on_client (cvbd_read fuel (shared_mem_read M peer) bss sector_num buf nb_sectors)),
      bdrv_write = Some (\<lambda>sector_num buf nb_sectors. on_client (cvbd_write fuel (shared_mem_write M peer) bss sector_num buf nb_sectors)),
      bdrv_close = cvbd_close M peer,
      bdrv_co_writev = None, bdrv_co_readv = None, bdrv_co_flush_to_disk = None,
      bdrv_getlength = on_client (cvbd_getlength (getsize_volume M peer)),
      bdrv_refresh_filename = cvbd_refresh_filename\<rparr>"

text \<open>\<open>bdrv_cvbd_init\<close>, which \<open>block_init\<close> makes QEMU call at its start: \<open>bdrv_register\<close> is QEMU's.\<close>

definition bdrv_cvbd_init :: "(('s, 'q) BlockDriver \<Rightarrow> 'r \<Rightarrow> 'r) \<Rightarrow> ('s, 'q) BlockDriver \<Rightarrow> ('r, unit) cmd" where
  "bdrv_cvbd_init bdrv_register bdrv = modify (bdrv_register bdrv)"

section \<open>The loop over the pieces\<close>

context chunk_iterator
begin

text \<open>
  A body that succeeds on every piece of the range and carries \<open>I\<close> from its start to its end
  carries \<open>I\<close> over the whole range; the loop needs no more turns than the range has bytes.
\<close>

lemma piece_loop_run:
  assumes "at_pos a p e bound" "I p acc s" "p \<le> e" "nat (e - p) < fuel"
    and body: "\<And>p n acc s. I p acc s \<Longrightarrow> 0 < n \<Longrightarrow> n \<le> bound \<Longrightarrow> p + n \<le> e \<Longrightarrow>
      \<exists>acc' s'. body p n acc s = (Ret (True, acc'), s') \<and> I (p + n) acc' s'"
  shows "\<exists>acc' s'. piece_loop valid step body fuel a True acc s = (Ret (True, acc'), s') \<and> I e acc' s'"
  using assms(1-4)
proof (induction fuel arbitrary: a p acc s)
  case (Suc fuel)
  show ?case
  proof (cases "p < e")
    case True
    from step_piece [OF Suc.prems(1) True] obtain a' n where
      n: "step a = Some (a', p, n)" "0 < n" "n \<le> bound" "p + n \<le> e" "at_pos a' (p + n) e bound" by blast
    from body [OF Suc.prems(2) n(2-4)] obtain acc' s' where
      b: "body p n acc s = (Ret (True, acc'), s')" "I (p + n) acc' s'" by blast
    from Suc.IH [OF n(5) b(2)] n Suc.prems(4) b(1) True show ?thesis
      by (simp add: valid_iff [OF Suc.prems(1)] cmd_simps)
  qed (use Suc.prems in \<open>auto simp: valid_iff cmd_simps\<close>)
qed simp

end

section \<open>Offsets\<close>

lemma sint_nonneg: "unat x < 2 ^ 63 \<Longrightarrow> sint (x :: u64) = int (unat x)"
proof -
  assume "unat x < 2 ^ 63"
  then have "int (unat x) < int (2 ^ 63)" by (rule of_nat_less_iff [THEN iffD2])
  then have "uint x < 2 ^ 63" by simp
  then have "signed_take_bit 63 (uint x) = uint x" by (intro signed_take_bit_int_eq_self) (auto intro: order_trans [OF _ uint_ge_0])
  then show ?thesis by (simp add: sint_uint)
qed

lemma unat_scast_nonneg:
  fixes nb :: u32
  assumes "0 \<le> sint nb"
  shows "unat (scast nb :: u64) = nat (sint nb)"
proof -
  have "sint nb < 2 ^ 31" using sint_lt [of nb] by simp
  then have "take_bit 64 (sint nb) = sint nb" using assms by (intro take_bit_int_eq_self) simp_all
  then have u: "uint (scast nb :: u64) = sint nb"
    unfolding scast_eq uint_word_of_int_eq by simp
  show ?thesis unfolding nat_uint_eq [symmetric] u ..
qed

text \<open>
  The byte range of a request of \<open>nb\<close> sectors from sector \<open>sector\<close> on; the request stays inside a
  disk of \<open>n\<close> bytes.
\<close>

definition xfer_start :: "u64 \<Rightarrow> u64 \<Rightarrow> nat" where
  "xfer_start bss sector = unat sector * unat bss"

definition xfer_size :: "u64 \<Rightarrow> u32 \<Rightarrow> nat" where
  "xfer_size bss nb = nat (sint nb) * unat bss"

definition xfer_inside :: "u64 \<Rightarrow> u64 \<Rightarrow> u32 \<Rightarrow> nat \<Rightarrow> bool" where
  "xfer_inside bss sector nb n \<longleftrightarrow> 0 \<le> sint nb \<and> xfer_start bss sector + xfer_size bss nb \<le> n \<and> n < 2 ^ 63"

lemma xfer_bytes:
  assumes "xfer_inside bss sector nb n"
  shows "unat (sector * bss) = xfer_start bss sector" "unat (sector_bytes bss nb) = xfer_size bss nb"
proof -
  have small: "xfer_start bss sector < 2 ^ 64" "xfer_size bss nb < 2 ^ 64" "0 \<le> sint nb"
    using assms by (auto simp: xfer_inside_def)
  show "unat (sector * bss) = xfer_start bss sector"
    using small(1) unat_mult_lem [of sector bss] by (simp add: xfer_start_def)
  show "unat (sector_bytes bss nb) = xfer_size bss nb"
    using small(2,3) unat_mult_lem [of "scast nb :: u64" bss]
    by (simp add: xfer_size_def sector_bytes_def unat_scast_nonneg)
qed

lemma xfer_range:
  assumes "xfer_inside bss sector nb n"
  shows "nac_at (transfer_range bss sector nb) (int (xfer_start bss sector))
    (int (xfer_start bss sector) + int (xfer_size bss nb)) MSGQ_MAX_SIZE"
proof -
  have "int (xfer_start bss sector) + int (xfer_size bss nb) < 2 ^ 63"
    using assms by (simp add: xfer_inside_def)
  moreover have "sint (sector * bss) = int (xfer_start bss sector)" "sint (sector_bytes bss nb) = int (xfer_size bss nb)"
    using assms sint_nonneg [of "sector * bss"] sint_nonneg [of "sector_bytes bss nb"] xfer_bytes [OF assms]
    by (simp_all add: xfer_inside_def)
  ultimately show ?thesis
    unfolding transfer_range_def by (simp add: MSGQ_MAX_SIZE_def nac_at_Init)
qed

text \<open>The piece at byte \<open>k\<close> of the request goes to offset \<open>k\<close> of the caller's buffer.\<close>

lemma relative_off_run:
  assumes "xfer_inside bss sector nb n" "k < xfer_size bss nb"
  shows "relative_off bss sector nb (int (xfer_start bss sector) + int k) s = (Ret k, s)"
proof -
  have k: "k < 2 ^ 63" using assms by (auto simp: xfer_inside_def)
  have start: "(word_of_int (int (xfer_start bss sector)) :: u64) = sector * bss"
    using xfer_bytes(1) [OF assms(1)] by (metis of_int_of_nat_eq of_nat_unat ucast_id)
  have w: "unat (word_of_nat k :: u64) = k" using k by (simp add: unsigned_of_nat take_bit_nat_eq_self)
  have rel: "(word_of_int (int (xfer_start bss sector) + int k) :: u64) - sector * bss = word_of_nat k"
    using start by simp
  have "(word_of_nat k :: u64) < sector_bytes bss nb"
    using assms(2) w xfer_bytes(2) [OF assms(1)] by (simp add: word_less_nat_alt)
  moreover have "sint (word_of_nat k :: u64) = int k" using sint_nonneg [of "word_of_nat k"] w k by simp
  ultimately show ?thesis unfolding relative_off_def rel by (simp add: cmd_simps)
qed

lemma piece_words:
  assumes "0 \<le> n" "n \<le> MSGQ_MAX_SIZE" "0 \<le> p" "p < 2 ^ 63"
  shows "unat (word_of_int n :: u64) = nat n" "unat (word_of_int n :: u64) \<le> max_data_size"
    "sint (word_of_int p :: u64) = p"
proof -
  show n: "unat (word_of_int n :: u64) = nat n"
    using assms(1,2) by (simp add: unsigned_of_int take_bit_int_eq_self MSGQ_MAX_SIZE_def)
  then show "unat (word_of_int n :: u64) \<le> max_data_size"
    using assms(2) by (simp add: MSGQ_MAX_SIZE_def size_defs)
  show "sint (word_of_int p :: u64) = p"
    using assms(3,4) by (subst sint_sbintrunc', intro signed_take_bit_int_eq_self) simp_all
qed

section \<open>Reads and writes refine the disk\<close>

context block_store
begin

lemma write_piece_run:
  assumes x: "xfer_inside bss sector nb (d_size d)"
    and st: "stores env s (disk_write d (xfer_start bss sector) buf 0 k)"
    and n: "0 < n" "n \<le> MSGQ_MAX_SIZE" "k + nat n \<le> xfer_size bss nb"
  shows "\<exists>s'. write_piece (wr env) bss sector nb buf (int (xfer_start bss sector) + int k) n () s = (Ret (True, ()), s') \<and>
    stores env s' (disk_write d (xfer_start bss sector) buf 0 (k + nat n))"
proof -
  let ?p = "int (xfer_start bss sector) + int k"
  have in_disk: "xfer_start bss sector + k + nat n \<le> d_size d" "d_size d < 2 ^ 63" "k < xfer_size bss nb"
    using x n by (auto simp: xfer_inside_def)
  then have "0 \<le> n" "0 \<le> ?p" "?p < 2 ^ 63" using n by simp_all
  note w = piece_words [OF this(1) n(2) this(2,3)]
  have "nat (sint (word_of_int ?p :: u64)) + unat (word_of_int n :: u64) \<le> d_size (disk_write d (xfer_start bss sector) buf 0 k)"
    using in_disk(1) unfolding w by simp
  from wr_law [OF st w(2) _ this, of buf k] obtain s' where
    run: "wr env buf k (word_of_int n) (word_of_int ?p) s = (Ret True, s')"
    and st': "stores env s' (disk_write (disk_write d (xfer_start bss sector) buf 0 k) (nat ?p) buf k (nat n))"
    unfolding w by auto
  have "nat ?p = xfer_start bss sector + k" by simp
  with st' have "stores env s' (disk_write d (xfer_start bss sector) buf 0 (k + nat n))"
    using disk_write_append [of d "xfer_start bss sector" buf 0 k "nat n"] by simp
  moreover have "write_piece (wr env) bss sector nb buf ?p n () s = (Ret (True, ()), s')"
    unfolding write_piece_def using run
    by (simp only: cbind_run relative_off_run [OF x in_disk(3)] ret_run prod.case outcome.case)
  ultimately show ?thesis by blast
qed

lemma read_piece_run:
  assumes x: "xfer_inside bss sector nb (d_size d)" and st: "stores env s d"
    and n: "0 < n" "n \<le> MSGQ_MAX_SIZE" "k + nat n \<le> xfer_size bss nb"
  shows "\<exists>s'. read_piece (rd env) bss sector nb (int (xfer_start bss sector) + int k) n
      (disk_read d (xfer_start bss sector) buf 0 k) s =
      (Ret (True, disk_read d (xfer_start bss sector) buf 0 (k + nat n)), s') \<and> stores env s' d"
proof -
  let ?p = "int (xfer_start bss sector) + int k" and ?buf = "disk_read d (xfer_start bss sector) buf 0 k"
  have in_disk: "xfer_start bss sector + k + nat n \<le> d_size d" "d_size d < 2 ^ 63" "k < xfer_size bss nb"
    using x n by (auto simp: xfer_inside_def)
  then have "0 \<le> n" "0 \<le> ?p" "?p < 2 ^ 63" using n by simp_all
  note w = piece_words [OF this(1) n(2) this(2,3)]
  have "nat (sint (word_of_int ?p :: u64)) + unat (word_of_int n :: u64) \<le> d_size d"
    using in_disk(1) unfolding w by simp
  from rd_law [OF st w(2) _ this, of ?buf k] obtain s' where
    run: "rd env ?buf k (word_of_int n) (word_of_int ?p) s = (Ret (True, disk_read d (nat ?p) ?buf k (nat n)), s')"
    and st': "stores env s' d"
    unfolding w by auto
  have "nat ?p = xfer_start bss sector + k" by simp
  then have "disk_read d (nat ?p) ?buf k (nat n) = disk_read d (xfer_start bss sector) buf 0 (k + nat n)"
    using disk_read_append [of d "xfer_start bss sector" k buf 0 "nat n"] by simp
  then have "read_piece (rd env) bss sector nb ?p n ?buf s = (Ret (True, disk_read d (xfer_start bss sector) buf 0 (k + nat n)), s')"
    unfolding read_piece_def using run
    by (simp only: cbind_run relative_off_run [OF x in_disk(3)] prod.case outcome.case)
  with st' show ?thesis by blast
qed

text \<open>An aligned request inside the disk is one transfer, however many messages it takes.\<close>

lemma cvbd_write_refines:
  assumes st: "stores env s d" and x: "xfer_inside bss sector nb (d_size d)"
    and al: "is_request_aligned bss sector nb" and fuel: "xfer_size bss nb < fuel"
  shows "\<exists>s'. cvbd_write fuel (wr env) bss sector buf nb s = (Ret 0, s') \<and>
    stores env s' (disk_write d (xfer_start bss sector) buf 0 (xfer_size bss nb))"
proof -
  let ?start = "int (xfer_start bss sector)" and ?size = "int (xfer_size bss nb)"
  define I where "I p u t \<longleftrightarrow> (\<exists>k. p = ?start + int k \<and> stores env t (disk_write d (xfer_start bss sector) buf 0 k))"
    for p and u :: unit and t
  have "\<exists>acc' s'. piece_loop NonAlignedCopyIsValid NonAlignedCopyNext (write_piece (wr env) bss sector nb buf)
      fuel (transfer_range bss sector nb) True () s = (Ret (True, acc'), s') \<and> I (?start + ?size) acc' s'"
  proof (rule nac.piece_loop_run [OF xfer_range [OF x]])
    show "\<exists>acc' s'. write_piece (wr env) bss sector nb buf p n acc t = (Ret (True, acc'), s') \<and> I (p + n) acc' s'"
      if "I p acc t" "0 < n" "n \<le> MSGQ_MAX_SIZE" "p + n \<le> ?start + ?size" for p n acc t
    proof -
      note A = that
      obtain k where k: "p = ?start + int k" "stores env t (disk_write d (xfer_start bss sector) buf 0 k)"
        using A(1) by (auto simp: I_def)
      have "k + nat n \<le> xfer_size bss nb" "p + n = ?start + int (k + nat n)" using that(2,4) k(1) by linarith+
      with write_piece_run [OF x k(2) that(2,3)] show ?thesis unfolding I_def k(1) by (cases acc) metis
    qed
  qed (use st fuel in \<open>auto simp: I_def intro!: exI [of _ 0]\<close>)
  with al show ?thesis
    by (auto simp: cvbd_write_def cmd_simps I_def)
qed

lemma cvbd_read_refines:
  assumes st: "stores env s d" and x: "xfer_inside bss sector nb (d_size d)"
    and al: "is_request_aligned bss sector nb" and fuel: "xfer_size bss nb < fuel"
  shows "\<exists>s'. cvbd_read fuel (rd env) bss sector buf nb s =
      (Ret (0, disk_read d (xfer_start bss sector) buf 0 (xfer_size bss nb)), s') \<and> stores env s' d"
proof -
  let ?start = "int (xfer_start bss sector)" and ?size = "int (xfer_size bss nb)"
  define I where "I p m t \<longleftrightarrow> stores env t d \<and> (\<exists>k. p = ?start + int k \<and> m = disk_read d (xfer_start bss sector) buf 0 k)"
    for p m t
  have "\<exists>acc' s'. piece_loop NonAlignedCopyIsValid NonAlignedCopyNext (read_piece (rd env) bss sector nb)
      fuel (transfer_range bss sector nb) True buf s = (Ret (True, acc'), s') \<and> I (?start + ?size) acc' s'"
  proof (rule nac.piece_loop_run [OF xfer_range [OF x]])
    show "\<exists>acc' s'. read_piece (rd env) bss sector nb p n acc t = (Ret (True, acc'), s') \<and> I (p + n) acc' s'"
      if "I p acc t" "0 < n" "n \<le> MSGQ_MAX_SIZE" "p + n \<le> ?start + ?size" for p n acc t
    proof -
      note A = that
      obtain k where k: "stores env t d" "p = ?start + int k" "acc = disk_read d (xfer_start bss sector) buf 0 k"
        using A(1) by (auto simp: I_def)
      have "k + nat n \<le> xfer_size bss nb" "p + n = ?start + int (k + nat n)" using that(2,4) k(2) by linarith+
      with read_piece_run [OF x k(1) that(2,3), of k buf] show ?thesis unfolding I_def k(2,3) by metis
    qed
  qed (use st fuel in \<open>auto simp: I_def intro!: exI [of _ 0]\<close>)
  with al show ?thesis
    by (auto simp: cvbd_read_def cmd_simps I_def)
qed

end

section \<open>Sequences of requests\<close>

text \<open>
  What QEMU asks of the driver, in the order it asks; the driver's answers; and the answers and
  the final contents of a disk that is only a byte array.
\<close>

datatype driver_op = Op_write u64 mem u32 | Op_read u64 mem u32 | Op_getlength

datatype driver_ans = Ans_write int | Ans_read int mem | Ans_length int

primrec run_op :: "nat \<Rightarrow> (mem \<Rightarrow> nat \<Rightarrow> u64 \<Rightarrow> u64 \<Rightarrow> ('s, bool \<times> mem) cmd) \<Rightarrow>
    (mem \<Rightarrow> nat \<Rightarrow> u64 \<Rightarrow> u64 \<Rightarrow> ('s, bool) cmd) \<Rightarrow> ('s, u64) cmd \<Rightarrow> u64 \<Rightarrow> driver_op \<Rightarrow> ('s, driver_ans) cmd" where
  "run_op fuel rd wr len bss (Op_write sector buf nb) = cbind (cvbd_write fuel wr bss sector buf nb) (\<lambda>r. ret (Ans_write r))"
| "run_op fuel rd wr len bss (Op_read sector buf nb) = cbind (cvbd_read fuel rd bss sector buf nb) (\<lambda>(r, m). ret (Ans_read r m))"
| "run_op fuel rd wr len bss Op_getlength = cbind (cvbd_getlength len) (\<lambda>r. ret (Ans_length r))"

primrec run_ops :: "nat \<Rightarrow> (mem \<Rightarrow> nat \<Rightarrow> u64 \<Rightarrow> u64 \<Rightarrow> ('s, bool \<times> mem) cmd) \<Rightarrow>
    (mem \<Rightarrow> nat \<Rightarrow> u64 \<Rightarrow> u64 \<Rightarrow> ('s, bool) cmd) \<Rightarrow> ('s, u64) cmd \<Rightarrow> u64 \<Rightarrow> driver_op list \<Rightarrow> ('s, driver_ans list) cmd" where
  "run_ops fuel rd wr len bss [] = ret []"
| "run_ops fuel rd wr len bss (x # xs) =
     cbind (run_op fuel rd wr len bss x) (\<lambda>a. cbind (run_ops fuel rd wr len bss xs) (\<lambda>as. ret (a # as)))"

primrec disk_op :: "u64 \<Rightarrow> disk \<Rightarrow> driver_op \<Rightarrow> driver_ans \<times> disk" where
  "disk_op bss d (Op_write sector buf nb) =
     (if is_request_aligned bss sector nb
      then (Ans_write 0, disk_write d (xfer_start bss sector) buf 0 (xfer_size bss nb))
      else (Ans_write (- EINVAL), d))"
| "disk_op bss d (Op_read sector buf nb) =
     (if is_request_aligned bss sector nb
      then (Ans_read 0 (disk_read d (xfer_start bss sector) buf 0 (xfer_size bss nb)), d)
      else (Ans_read (- EINVAL) buf, d))"
| "disk_op bss d Op_getlength = (Ans_length (int (d_size d)), d)"

primrec disk_ops :: "u64 \<Rightarrow> disk \<Rightarrow> driver_op list \<Rightarrow> driver_ans list \<times> disk" where
  "disk_ops bss d [] = ([], d)"
| "disk_ops bss d (x # xs) =
     (case disk_op bss d x of (a, d') \<Rightarrow> (case disk_ops bss d' xs of (as, d'') \<Rightarrow> (a # as, d'')))"

text \<open>A request that stays inside a disk of \<open>n\<close> bytes; QEMU checks this against the length it got.\<close>

primrec op_inside :: "u64 \<Rightarrow> nat \<Rightarrow> nat \<Rightarrow> driver_op \<Rightarrow> bool" where
  "op_inside bss fuel n (Op_write sector buf nb) \<longleftrightarrow> xfer_inside bss sector nb n \<and> xfer_size bss nb < fuel"
| "op_inside bss fuel n (Op_read sector buf nb) \<longleftrightarrow> xfer_inside bss sector nb n \<and> xfer_size bss nb < fuel"
| "op_inside bss fuel n Op_getlength \<longleftrightarrow> n < 2 ^ 63"

lemma disk_op_size: "d_size (snd (disk_op bss d x)) = d_size d"
  by (cases x) simp_all

text \<open>A request that is not aligned to the block size is refused, with no effect.\<close>

lemma cvbd_misaligned:
  assumes "\<not> is_request_aligned bss sector nb"
  shows "cvbd_write fuel wr bss sector buf nb s = (Ret (- EINVAL), s)"
    and "cvbd_read fuel rd bss sector buf nb s = (Ret (- EINVAL, buf), s)"
  using assms by (simp_all add: cvbd_write_def cvbd_read_def cmd_simps)

context block_store
begin

lemma run_op_refines:
  assumes st: "stores env s d" and x: "op_inside bss fuel (d_size d) x"
  shows "\<exists>s'. run_op fuel (rd env) (wr env) (len env) bss x s = (Ret (fst (disk_op bss d x)), s') \<and>
    stores env s' (snd (disk_op bss d x))"
proof (cases x)
  case (Op_write sector buf nb)
  with x st cvbd_write_refines [OF st, of bss sector nb fuel buf] show ?thesis
    by (cases "is_request_aligned bss sector nb") (auto simp: cbind_run ret_run cvbd_misaligned)
next
  case (Op_read sector buf nb)
  with x st cvbd_read_refines [OF st, of bss sector nb fuel buf] show ?thesis
    by (cases "is_request_aligned bss sector nb") (auto simp: cbind_run ret_run cvbd_misaligned)
next
  case Op_getlength
  with x have n: "d_size d < 2 ^ 63" by simp
  then have "unat (word_of_nat (d_size d) :: u64) = d_size d" by (simp add: unsigned_of_nat take_bit_nat_eq_self)
  with n have "sint (word_of_nat (d_size d) :: u64) = int (d_size d)" using sint_nonneg [of "word_of_nat (d_size d)"] by simp
  with Op_getlength len_law [OF st] show ?thesis by (auto simp: cvbd_getlength_def cbind_run ret_run)
qed

lemma run_ops_refines:
  assumes "stores env s d" "\<forall>x \<in> set xs. op_inside bss fuel (d_size d) x"
  shows "\<exists>s'. run_ops fuel (rd env) (wr env) (len env) bss xs s = (Ret (fst (disk_ops bss d xs)), s') \<and>
    stores env s' (snd (disk_ops bss d xs))"
  using assms
proof (induction xs arbitrary: s d)
  case (Cons x xs)
  from run_op_refines [of env s d bss fuel x] Cons.prems obtain s1 where
    one: "run_op fuel (rd env) (wr env) (len env) bss x s = (Ret (fst (disk_op bss d x)), s1)"
      "stores env s1 (snd (disk_op bss d x))" by auto
  from Cons.IH [OF one(2)] Cons.prems(2) one(1) show ?case
    by (auto simp: disk_op_size cbind_run ret_run split: prod.split)
qed (simp add: ret_run)

end

section \<open>Opening\<close>

lemma cvbd_open_connects:
  fixes M :: "'b boost_mq" and b :: "'b bds"
  assumes "idle_server M (cs_server (bs_client b))" "max_queue_size \<le> n" "good_name nm"
    and "\<forall>i \<ge> volume_name_at. stray i = 0" and opt: "qdict_get_try_str Q options ''export'' = Some nm"
  shows "(\<not> gets_reply_queue M nm (cs_server (bs_client b)) \<and>
      (\<exists>b'. cvbd_open M Q (server_run n M (IOHandler M)) stray v options dict b = (Ret (- EINVAL, cvbd_config Q dict), b'))) \<or>
    (gets_reply_queue M nm (cs_server (bs_client b)) \<and> (\<exists>b'. cvbd_open M Q (server_run n M (IOHandler M)) stray v options dict b = (Ret (0, cvbd_config Q dict), b') \<and>
       bs_request_alignment b' = CVBD_BLKSIZE \<and>
       connected ioh_volume M n (bs_client b') (opened_disk (os (sv_world (cs_server (bs_client b)))) nm)))"
  using session_start [OF assms(1-4), of v]
  by (elim disjE exE conjE) (auto simp: cvbd_open_def opt on_client_def cmd_simps)

section \<open>Properties of the image name and of the alignment test\<close>

text \<open>
  A stand-in for QEMU's URI parser, enough to drive the samples: the part before the first colon,
  and the part from the third slash on.
\<close>

definition sample_uri :: "string \<Rightarrow> URI option" where
  "sample_uri f = Some \<lparr>uri_scheme = Some (takeWhile (\<lambda>c. c \<noteq> CHR '':'') f),
     uri_path = Some (dropWhile (\<lambda>c. c \<noteq> CHR ''/'') (drop 3 (dropWhile (\<lambda>c. c \<noteq> CHR '':'') f)))\<rparr>"

definition sample_bds :: "fifo bds" where
  "sample_bds = \<lparr>bs_request_alignment = 0, bs_missingReads = 0, bs_reads = 0, bs_writes = 0, bs_readModifyWrites = 0,
     bs_client = sample_csys\<rparr>"

definition sample_qdict :: "(string \<Rightarrow> string option) qdict_ops" where
  "sample_qdict = \<lparr>qdict_put = (\<lambda>q k v. q(k \<mapsto> v)), qdict_get_try_str = (\<lambda>q k. q k), qdict_del = (\<lambda>q k. q(k := None)),
     qemu_opts_absorb_qdict = (\<lambda>l q k. if k \<in> od_name ` set (ol_desc l) then None else q k)\<rparr>"

lemma sample_qdict_laws: "qdict_laws sample_qdict" "absorb_law sample_qdict"
  by (simp_all add: qdict_laws_def absorb_law_def sample_qdict_def)

text \<open>C39. \<open>cvbd_config\<close>, which runs on every path of an open, takes exactly the options \<open>filename\<close> and
  \<open>export\<close> out of the dictionary and leaves every other entry; QEMU reports what is left as
  unknown options.\<close>

theorem config_consumes_options:
  assumes "qdict_laws Q" "absorb_law Q"
  shows "qdict_get_try_str Q (cvbd_config Q dict) key =
    (if key \<in> {''filename'', ''export''} then None else qdict_get_try_str Q dict key)"
proof -
  have "qdict_get_try_str Q (qemu_opts_absorb_qdict Q runtime_opts dict) k = (if k = ''filename'' then None else qdict_get_try_str Q dict k)" for k
    using assms(2) by (simp add: absorb_law_def runtime_opts_def)
  then show ?thesis using assms(1) by (simp add: cvbd_config_def Let_def qdict_laws_def)
qed

theorem config_consumes_options_witness:
  "qdict_get_try_str sample_qdict (cvbd_config sample_qdict [''export'' \<mapsto> ''vol'', ''cache'' \<mapsto> ''none'']) ''export'' = None \<and>
   qdict_get_try_str sample_qdict (cvbd_config sample_qdict [''export'' \<mapsto> ''vol'', ''cache'' \<mapsto> ''none'']) ''cache'' = Some ''none''"
  using config_consumes_options [OF sample_qdict_laws, of "[''export'' \<mapsto> ''vol'', ''cache'' \<mapsto> ''none'']" "''export''"]
    config_consumes_options [OF sample_qdict_laws, of "[''export'' \<mapsto> ''vol'', ''cache'' \<mapsto> ''none'']" "''cache''"]
  by (simp add: sample_qdict_def)

text \<open>An image name with the scheme of the driver and a path that is not only slashes: parsing it
  succeeds and makes the path without its leading slashes the \<open>export\<close> option; nothing else in
  the dictionary changes.\<close>

lemma parse_filename_sets_export:
  assumes "qdict_laws Q" "strstr filename ''://''" "uri_parse filename = Some uri"
    and "uri_scheme uri = Some ''cvbd''" "uri_path uri = Some (replicate k CHR ''/'' @ c # cs)" "c \<noteq> CHR ''/''"
  shows "\<exists>dict'. cvbd_parse_filename uri_parse Q filename dict = (Ret False, dict') \<and>
    qdict_get_try_str Q dict' ''export'' = Some (c # cs) \<and>
    qdict_get_try_str Q dict' key = (if key = ''export'' then Some (c # cs) else qdict_get_try_str Q dict key)"
proof -
  have "dropWhile (\<lambda>x. x = CHR ''/'') (replicate k CHR ''/'' @ c # cs) = c # cs"
    using assms(6) by (induction k) simp_all
  with assms show ?thesis
    by (simp add: cvbd_parse_filename_def cvbd_parse_uri_def skip_slashes_def cmd_simps Let_def qdict_laws_def)
qed

lemma parse_filename_sets_export_witness:
  "\<exists>dict'. cvbd_parse_filename sample_uri sample_qdict ''cvbd://h//vol'' Map.empty = (Ret False, dict') \<and>
     qdict_get_try_str sample_qdict dict' ''export'' = Some ''vol''"
proof -
  have "\<exists>dict'. cvbd_parse_filename sample_uri sample_qdict ''cvbd://h//vol'' Map.empty = (Ret False, dict') \<and>
    qdict_get_try_str sample_qdict dict' ''export'' = Some (CHR ''v'' # ''ol'') \<and>
    qdict_get_try_str sample_qdict dict' ''export'' = (if ''export'' = ''export'' then Some (CHR ''v'' # ''ol'')
      else qdict_get_try_str sample_qdict Map.empty ''export'')"
    by (rule parse_filename_sets_export [OF sample_qdict_laws(1), where k = 2 and uri = "the (sample_uri ''cvbd://h//vol'')"])
      (simp_all add: sample_uri_def eval_nat_numeral)
  then show ?thesis by auto
qed

text \<open>Names without \<open>://\<close>, names the URI parser rejects and names of another scheme are reported as
  errors and leave the dictionary alone.\<close>

lemma parse_filename_rejects:
  assumes "\<not> strstr filename ''://'' \<or> uri_parse filename = None \<or>
    (\<exists>uri x. uri_parse filename = Some uri \<and> uri_scheme uri = Some x \<and> x \<noteq> ''cvbd'')"
  shows "cvbd_parse_filename uri_parse Q filename dict = (Ret True, dict)"
  using assms by (auto simp: cvbd_parse_filename_def cvbd_parse_uri_def cmd_simps EINVAL_def split: option.split)

lemma parse_filename_rejects_witness:
  "cvbd_parse_filename sample_uri sample_qdict ''nbd://h/vol'' Map.empty = (Ret True, Map.empty) \<and>
   cvbd_parse_filename sample_uri sample_qdict ''vol'' Map.empty = (Ret True, Map.empty)"
  using parse_filename_rejects [of "''nbd://h/vol''" sample_uri sample_qdict Map.empty]
    parse_filename_rejects [of "''vol''" sample_uri sample_qdict Map.empty]
  by (simp add: sample_uri_def)

text \<open>C40. An image name whose path is empty or only slashes is accepted by the parser although it names
  no volume; opening it then builds a \<open>std::string\<close> from a null pointer, which is undefined.\<close>

theorem empty_export_is_undefined:
  assumes "strstr filename ''://''" "uri_parse filename = Some uri" "uri_scheme uri = Some ''cvbd''"
    and "uri_path uri = Some (replicate k CHR ''/'')" "qdict_get_try_str Q dict ''export'' = None"
  shows "cvbd_parse_filename uri_parse Q filename dict = (Ret False, dict) \<and>
    fst (cvbd_open M Q peer stray v dict dict b) = Fail Undef"
proof -
  have "dropWhile (\<lambda>x. x = CHR ''/'') (replicate k CHR ''/'') = []" by (induction k) simp_all
  with assms show ?thesis
    by (simp add: cvbd_parse_filename_def cvbd_parse_uri_def skip_slashes_def cmd_simps Let_def
        cvbd_open_def on_client_def shared_mem_make_client_def)
qed

theorem empty_export_is_undefined_witness:
  "cvbd_parse_filename sample_uri sample_qdict ''cvbd://h/'' Map.empty = (Ret False, Map.empty) \<and>
   fst (cvbd_open fifo_mq sample_qdict (\<lambda>sv. sv) (\<lambda>_. 0) 0 Map.empty Map.empty sample_bds) = Fail Undef"
  using empty_export_is_undefined [of "''cvbd://h/''" sample_uri "the (sample_uri ''cvbd://h/'')" 1 sample_qdict Map.empty
      fifo_mq "\<lambda>sv. sv" "\<lambda>_. 0" 0 sample_bds]
  by (simp add: sample_uri_def sample_qdict_def)

lemma aligned_512:
  assumes "xfer_inside 512 sector nb n"
  shows "is_request_aligned 512 sector nb = (8 dvd unat sector \<and> 8 dvd nat (sint nb))"
proof -
  have zero: "w mod 4096 = 0 \<longleftrightarrow> 4096 dvd unat w" for w :: u64
  proof -
    have "unat (w mod 4096) = unat w mod 4096" by (simp add: unat_mod)
    then show ?thesis by (metis dvd_eq_mod_eq_0 unat_eq_zero)
  qed
  have eight: "4096 dvd k * 512 \<longleftrightarrow> 8 dvd k" for k :: nat
    using dvd_times_right_cancel_iff [of 512 8 k] by simp
  show ?thesis
    using xfer_bytes [OF assms]
    by (simp add: is_request_aligned_def CVBD_BLKSIZE_def zero xfer_start_def xfer_size_def eight)
qed

text \<open>C32. With QEMU's sectors of 512 bytes, a request inside the disk is refused exactly if its first
  sector or its number of sectors is no multiple of eight. A refused request is answered with
  \<open>-EINVAL\<close>, without a message to the server and without touching the buffer; any other is answered
  with 0 and carried out.\<close>

theorem misaligned_requests_refused:
  fixes M :: "'b boost_mq"
  assumes "connected ioh_volume M n s d" "xfer_inside 512 sector nb (d_size d)" "xfer_size 512 nb < fuel"
    and "aligned = (8 dvd unat sector \<and> 8 dvd nat (sint nb))"
  shows "(\<exists>s'. cvbd_write fuel (shared_mem_write M (server_run n M (IOHandler M))) 512 sector buf nb s =
       (Ret (if aligned then 0 else - EINVAL), s') \<and>
       (if aligned then connected ioh_volume M n s' (disk_write d (xfer_start 512 sector) buf 0 (xfer_size 512 nb)) else s' = s)) \<and>
    (\<exists>s'. cvbd_read fuel (shared_mem_read M (server_run n M (IOHandler M))) 512 sector buf nb s =
       (Ret (if aligned then (0, disk_read d (xfer_start 512 sector) buf 0 (xfer_size 512 nb)) else (- EINVAL, buf)), s') \<and>
       (if aligned then connected ioh_volume M n s' d else s' = s))"
proof (cases aligned)
  case True
  then have "is_request_aligned 512 sector nb" using aligned_512 [OF assms(2)] assms(4) by simp
  with True assms(1-3) ioh.store.cvbd_write_refines [of "(M, n)" s d 512 sector nb fuel buf]
    ioh.store.cvbd_read_refines [of "(M, n)" s d 512 sector nb fuel buf] show ?thesis by simp
next
  case False
  then have "\<not> is_request_aligned 512 sector nb" using aligned_512 [OF assms(2)] assms(4) by simp
  with False show ?thesis by (simp add: cvbd_misaligned)
qed

theorem misaligned_requests_refused_witness:
  "fst (cvbd_write 9000 (shared_mem_write fifo_mq (server_run 32 fifo_mq (IOHandler fifo_mq))) 512 4 (\<lambda>_. 0) 8 sample_csys) = Ret (- EINVAL) \<and>
   fst (cvbd_write 9000 (shared_mem_write fifo_mq (server_run 32 fifo_mq (IOHandler fifo_mq))) 512 8 (\<lambda>_. 0) 8 sample_csys) = Ret 0"
proof -
  have "xfer_inside 512 4 8 (d_size sample_disk)" "xfer_inside 512 8 8 (d_size sample_disk)" "xfer_size 512 8 < 9000"
    by (simp_all add: xfer_inside_def xfer_start_def xfer_size_def sample_disk_def)
  from misaligned_requests_refused [OF sample_connected this(1,3) refl, of "\<lambda>_. 0"]
    misaligned_requests_refused [OF sample_connected this(2,3) refl, of "\<lambda>_. 0"]
  show ?thesis by auto
qed

end
