(* ===== verification/Cvbd_Async.thy ===== *)
theory Cvbd_Async
  imports Shm_Client_Async Cvbd_Sync
begin

text \<open>
  \<open>src/cvbd.c\<close>: the QEMU block driver over the asynchronous client. A request is a coroutine: it
  allocates a control block, hands it to the client and yields; the client's callback schedules a
  bottom half, which enters the coroutine again. What runs while a coroutine is suspended (the
  server, the reply thread, QEMU's main loop) is an argument \<open>sched\<close>. The functions that parse the
  image name and test the alignment are, line for line, those of \<open>src/cvbd_syncio.c\<close> and are shared
  with its model.
\<close>

section \<open>Image names, options\<close>

text \<open>The first functions of the file, whose text is the same in both drivers.\<close>

definition async_parse_uri :: "(string \<Rightarrow> URI option) \<Rightarrow> 'q qdict_ops \<Rightarrow> string \<Rightarrow> ('q, int) cmd" where
  "async_parse_uri uri_parse Q filename =
     (case uri_parse filename of
        None \<Rightarrow> ret (- EINVAL)
      | Some uri \<Rightarrow>
          (case uri_scheme uri of
             None \<Rightarrow> fail Undef
           | Some scheme \<Rightarrow>
               if scheme \<noteq> ''cvbd'' then ret (- EINVAL)
               else
                 let p = skip_slashes (case uri_path uri of Some path \<Rightarrow> path | None \<Rightarrow> ''/'') in
                 cbind (if p \<noteq> [] then modify (\<lambda>dict. qdict_put Q dict ''export'' p) else ret ()) (\<lambda>_.
                 ret 0)))"

definition async_parse_filename :: "(string \<Rightarrow> URI option) \<Rightarrow> 'q qdict_ops \<Rightarrow> string \<Rightarrow> ('q, bool) cmd" where
  "async_parse_filename uri_parse Q filename =
     cbind (if strstr filename ''://'' then async_parse_uri uri_parse Q filename else ret (- EINVAL)) (\<lambda>r.
     ret (r < 0))"

definition async_request_aligned :: "u64 \<Rightarrow> u64 \<Rightarrow> u32 \<Rightarrow> bool" where
  "async_request_aligned bss sector_num nb_sectors \<longleftrightarrow>
     \<not> ((sector_num * bss) mod CVBD_BLKSIZE \<noteq> 0 \<or> sector_bytes bss nb_sectors mod CVBD_BLKSIZE \<noteq> 0)"

definition async_runtime_opts :: QemuOptsList where
  "async_runtime_opts = \<lparr>ol_name = ''cvbd'',
     ol_desc = [\<lparr>od_name = ''filename'', od_type = QEMU_OPT_STRING, od_help = ''CVBD image name''\<rparr>]\<rparr>"

definition async_config :: "'q qdict_ops \<Rightarrow> 'q \<Rightarrow> 'q" where
  "async_config Q dict =
     (let dict' = qemu_opts_absorb_qdict Q async_runtime_opts dict in
      if qdict_get_try_str Q dict' ''export'' \<noteq> None then qdict_del Q dict' ''export'' else dict')"

text \<open>What is proved of the image names and of the alignment test of one driver holds of the other.\<close>

lemma async_names_sync:
  "async_parse_filename = cvbd_parse_filename" "async_request_aligned = is_request_aligned" "async_config = cvbd_config"
  by (simp_all add: fun_eq_iff async_parse_filename_def cvbd_parse_filename_def async_parse_uri_def cvbd_parse_uri_def
      async_request_aligned_def is_request_aligned_def async_config_def cvbd_config_def async_runtime_opts_def runtime_opts_def)

section \<open>State\<close>

record 'b abds =
  ab_request_alignment :: u64
  ab_missingReads :: u64
  ab_reads :: u64
  ab_writes :: u64
  ab_readModifyWrites :: u64
  ab_client :: "'b asys"

definition on_async :: "('b asys, 'a) cmd \<Rightarrow> ('b abds, 'a) cmd" where
  "on_async m = zoom ab_client (\<lambda>s b. b\<lparr>ab_client := s\<rparr>) m"

section \<open>Opening, closing, length\<close>

definition async_open :: "'b boost_mq \<Rightarrow> 'q qdict_ops \<Rightarrow> ('b server \<Rightarrow> 'b server) \<Rightarrow> ('b asys \<Rightarrow> 'b asys) \<Rightarrow>
    ('b asys \<Rightarrow> 'b asys) \<Rightarrow> mem \<Rightarrow> u64 \<Rightarrow> 'q \<Rightarrow> 'q \<Rightarrow> ('b abds, int \<times> 'q) cmd" where
  "async_open M Q peer early env stray stray_volume options dict =
     (let export = qdict_get_try_str Q options ''export'' in
      cbind (modify (\<lambda>b. b\<lparr>ab_reads := 0, ab_writes := 0, ab_missingReads := 0, ab_readModifyWrites := 0,
                          ab_request_alignment := CVBD_BLKSIZE\<rparr>)) (\<lambda>_.
      cbind (on_async (async_make_client M stray stray_volume export)) (\<lambda>ok.
      cbind (if \<not> ok then ret (- EINVAL) else on_async (async_create_volume M peer early env)) (\<lambda>r.
      ret (r, async_config Q dict)))))"

definition async_close :: "'b boost_mq \<Rightarrow> ('b server \<Rightarrow> 'b server) \<Rightarrow> mem option \<Rightarrow> ('b abds, unit) cmd" where
  "async_close M peer behind =
     cbind (on_async (async_release_volume M peer)) (\<lambda>_.
     on_async (async_destroy_client M behind))"

definition async_getlength :: "'b boost_mq \<Rightarrow> ('b server \<Rightarrow> 'b server) \<Rightarrow> ('b asys \<Rightarrow> 'b asys) \<Rightarrow> ('b abds, int) cmd" where
  "async_getlength M peer early = cbind (on_async (async_getsize_volume M peer early)) (\<lambda>r. ret (sint r))"

section \<open>Coroutines and completion\<close>

text \<open>\<open>g_slice_new (CVBDAIOCB)\<close>, whose members are not initialised, and \<open>g_slice_free\<close>.\<close>

definition new_acb :: "acb \<Rightarrow> ('b asys, u64) cmd" where
  "new_acb stray =
     cbind (gets as_next) (\<lambda>n.
     cbind (if n < 2 ^ 64 then ret () else fail Abort) (\<lambda>_.
     cbind (modify (\<lambda>s. s\<lparr>as_acbs := (as_acbs s)(word_of_nat n \<mapsto> stray), as_next := Suc n\<rparr>)) (\<lambda>_.
     ret (word_of_nat n))))"

definition free_acb :: "u64 \<Rightarrow> ('b asys, unit) cmd" where
  "free_acb a = modify (\<lambda>s. s\<lparr>as_acbs := (as_acbs s)(a := None)\<rparr>)"

text \<open>The bottom half: it enters the coroutine of the request again.\<close>

definition cvbd_complete_aio :: "u64 \<Rightarrow> ('b asys, unit) cmd" where
  "cvbd_complete_aio a = set_acb a (\<lambda>x. x\<lparr>acb_bh := False, acb_resumed := True\<rparr>)"

text \<open>The callback. The result of the request is compared with its size as an unsigned number.\<close>

definition finish_code :: "int \<Rightarrow> int \<Rightarrow> u64 \<Rightarrow> int" where
  "finish_code r acb_r sz =
     (if r = 0 \<or> word_of_int acb_r = sz then 0 else if r < 0 then r else - EIO)"

definition cvbd_finish_aio :: "'b callback" where
  "cvbd_finish_aio r a =
     cbind (set_acb a (\<lambda>x. x\<lparr>acb_ret := finish_code r (acb_ret x) (acb_size x)\<rparr>)) (\<lambda>_.
     cbind (set_acb a (\<lambda>x. x\<lparr>acb_bh := True\<rparr>)) (\<lambda>_.
     modify (\<lambda>s. s\<lparr>as_bhs := as_bhs s @ [a]\<rparr>)))"

text \<open>
  \<open>qemu_coroutine_yield\<close> in a request that waits for \<open>a\<close>: the rest of the process runs, and the
  coroutine goes on if it was entered again. A thread that failed takes the process with it.
\<close>

definition coroutine_yield :: "('b asys \<Rightarrow> 'b asys) \<Rightarrow> u64 \<Rightarrow> ('b asys, unit) cmd" where
  "coroutine_yield sched a = (\<lambda>s.
     let s' = sched s in
     case (as_reply s', as_main s', as_acbs s' a) of
       (Dead e, _, _) \<Rightarrow> (Fail e, s')
     | (_, Dead e, _) \<Rightarrow> (Fail e, s')
     | (_, _, None) \<Rightarrow> (Fail Undef, s')
     | (_, _, Some x) \<Rightarrow> if acb_resumed x then (Ret (), s') else (Fail Hang, s'))"

section \<open>Requests\<close>

text \<open>
  A request runs up to its end or up to its \<open>qemu_coroutine_yield\<close>, and after it: it reads the
  result from the control block and frees the block. The body before the yield and the rest are
  definitions of their own, so that several requests can be under way at a time.
\<close>

datatype co_state = Co_return int | Co_yield u64

definition co_finish :: "u64 \<Rightarrow> ('b asys, int) cmd" where
  "co_finish a =
     cbind (deref_acb a) (\<lambda>x.
     cbind (free_acb a) (\<lambda>_.
     ret (acb_ret x)))"

definition co_run :: "('b asys \<Rightarrow> 'b asys) \<Rightarrow> co_state \<Rightarrow> ('b asys, int) cmd" where
  "co_run sched st =
     (case st of
        Co_return r \<Rightarrow> ret r
      | Co_yield a \<Rightarrow> cbind (coroutine_yield sched a) (\<lambda>_. co_finish a))"

definition init_acb :: "u64 \<Rightarrow> iovec list option \<Rightarrow> acb \<Rightarrow> acb" where
  "init_acb sz qiov x = x\<lparr>acb_size := sz, acb_ret := 0, acb_resumed := False, acb_qiov := qiov, acb_callback := True\<rparr>"

definition co_rw_start :: "'b boost_mq \<Rightarrow> ('b server \<Rightarrow> 'b server) \<Rightarrow> acb \<Rightarrow> u64 \<Rightarrow>
    u64 \<Rightarrow> u32 \<Rightarrow> iovec list \<Rightarrow> bool \<Rightarrow> ('b asys, co_state) cmd" where
  "co_rw_start M peer stray bss sector_num nb_sectors qiov write =
     cbind (new_acb stray) (\<lambda>a.
     let sz = sector_bytes bss nb_sectors; offset = sector_num * bss in
     if \<not> async_request_aligned bss sector_num nb_sectors then ret (Co_return (- EINVAL))
     else
       cbind (set_acb a (init_acb sz (Some qiov))) (\<lambda>_.
       cbind (if write then shared_mem_writev M peer cvbd_finish_aio offset a
              else shared_mem_readv M peer offset a) (\<lambda>rc.
       cbind (assert rc) (\<lambda>_.
       ret (Co_yield a)))))"

definition cvbd_co_rw :: "'b boost_mq \<Rightarrow> ('b server \<Rightarrow> 'b server) \<Rightarrow> ('b asys \<Rightarrow> 'b asys) \<Rightarrow> acb \<Rightarrow> u64 \<Rightarrow>
    u64 \<Rightarrow> u32 \<Rightarrow> iovec list \<Rightarrow> bool \<Rightarrow> ('b asys, int) cmd" where
  "cvbd_co_rw M peer sched stray bss sector_num nb_sectors qiov write =
     cbind (co_rw_start M peer stray bss sector_num nb_sectors qiov write) (co_run sched)"

definition cvbd_co_readv :: "'b boost_mq \<Rightarrow> ('b server \<Rightarrow> 'b server) \<Rightarrow> ('b asys \<Rightarrow> 'b asys) \<Rightarrow> acb \<Rightarrow> u64 \<Rightarrow>
    u64 \<Rightarrow> u32 \<Rightarrow> iovec list \<Rightarrow> ('b asys, int) cmd" where
  "cvbd_co_readv M peer sched stray bss sector_num nb_sectors qiov =
     cvbd_co_rw M peer sched stray bss sector_num nb_sectors qiov False"

definition cvbd_co_writev :: "'b boost_mq \<Rightarrow> ('b server \<Rightarrow> 'b server) \<Rightarrow> ('b asys \<Rightarrow> 'b asys) \<Rightarrow> acb \<Rightarrow> u64 \<Rightarrow>
    u64 \<Rightarrow> u32 \<Rightarrow> iovec list \<Rightarrow> ('b asys, int) cmd" where
  "cvbd_co_writev M peer sched stray bss sector_num nb_sectors qiov =
     cvbd_co_rw M peer sched stray bss sector_num nb_sectors qiov True"

text \<open>The flush. Its test \<open>rc < 0\<close> on a \<open>bool\<close> is never true, so a failed send is not noticed.\<close>

definition co_flush_start :: "'b boost_mq \<Rightarrow> ('b server \<Rightarrow> 'b server) \<Rightarrow> acb \<Rightarrow> ('b asys, co_state) cmd" where
  "co_flush_start M peer stray =
     cbind (new_acb stray) (\<lambda>a.
     cbind (set_acb a (init_acb 0 None)) (\<lambda>_.
     cbind (shared_mem_fsync M peer a) (\<lambda>rc.
     if (of_bool rc :: int) < 0 then cbind (gets (\<lambda>s. - cs_errno (as_sys s))) (\<lambda>r. cbind (free_acb a) (\<lambda>_. ret (Co_return r)))
     else ret (Co_yield a))))"

definition cvbd_co_flush_to_disk :: "'b boost_mq \<Rightarrow> ('b server \<Rightarrow> 'b server) \<Rightarrow> ('b asys \<Rightarrow> 'b asys) \<Rightarrow> acb \<Rightarrow> ('b asys, int) cmd" where
  "cvbd_co_flush_to_disk M peer sched stray = cbind (co_flush_start M peer stray) (co_run sched)"

definition async_refresh_filename :: "('b abds, unit) cmd" where
  "async_refresh_filename = cbind (gets (\<lambda>b. b)) (\<lambda>s. ret ())"

section \<open>The table of the driver\<close>

text \<open>
  \<open>bdrv_cvbd\<close> of this file. \<open>early\<close> and \<open>env\<close> are what the other threads do around and during the wait
  of an open, \<open>sched\<close> what runs while a request is suspended, \<open>stray_acb\<close> the contents of fresh memory,
  \<open>behind\<close> what lies behind the header of a stop request.
\<close>

definition async_bdrv_cvbd :: "'b boost_mq \<Rightarrow> 'q qdict_ops \<Rightarrow> (string \<Rightarrow> URI option) \<Rightarrow> ('b server \<Rightarrow> 'b server) \<Rightarrow>
    ('b asys \<Rightarrow> 'b asys) \<Rightarrow> ('b asys \<Rightarrow> 'b asys) \<Rightarrow> ('b asys \<Rightarrow> 'b asys) \<Rightarrow> mem \<Rightarrow> u64 \<Rightarrow> acb \<Rightarrow> mem option \<Rightarrow> u64 \<Rightarrow> ('b abds, 'q) BlockDriver" where
  "async_bdrv_cvbd M Q uri_parse peer early env sched stray stray_volume stray_acb behind bss =
     \<lparr>format_name = ''cvbd'', protocol_name = ''cvbd'', instance_size = 48,
      bdrv_parse_filename = async_parse_filename uri_parse Q,
      bdrv_file_open = async_open M Q peer early env stray stray_volume,
      bdrv_read = None, bdrv_write = None,
      bdrv_close = async_close M peer behind,
      bdrv_co_writev = Some (\<lambda>sector_num nb_sectors qiov. on_async (cvbd_co_writev M peer sched stray_acb bss sector_num nb_sectors qiov)),
      bdrv_co_readv = Some (\<lambda>sector_num nb_sectors qiov. on_async (cvbd_co_readv M peer sched stray_acb bss sector_num nb_sectors qiov)),
      bdrv_co_flush_to_disk = Some (on_async (cvbd_co_flush_to_disk M peer sched stray_acb)),
      bdrv_getlength = async_getlength M peer early,
      bdrv_refresh_filename = async_refresh_filename\<rparr>"

definition async_bdrv_cvbd_init :: "(('s, 'q) BlockDriver \<Rightarrow> 'r \<Rightarrow> 'r) \<Rightarrow> ('s, 'q) BlockDriver \<Rightarrow> ('r, unit) cmd" where
  "async_bdrv_cvbd_init bdrv_register bdrv = modify (bdrv_register bdrv)"

section \<open>What runs while a coroutine is suspended\<close>

text \<open>A turn of the server, of the reply thread, and of QEMU's main loop on its oldest bottom half.\<close>

definition server_turn :: "'b boost_mq \<Rightarrow> 'b handler_ops \<Rightarrow> 'b asys \<Rightarrow> 'b asys" where
  "server_turn M H s = s\<lparr>as_sys := (as_sys s)\<lparr>cs_server := server_run 1 M H (cs_server (as_sys s))\<rparr>\<rparr>"

definition reply_turn :: "'b boost_mq \<Rightarrow> 'b asys \<Rightarrow> 'b asys" where
  "reply_turn M s = handle_co_reply 1 M cvbd_finish_aio s"

definition bh_turn :: "'b asys \<Rightarrow> 'b asys" where
  "bh_turn s =
     (case as_bhs s of
        [] \<Rightarrow> s
      | a # as \<Rightarrow>
          (case cvbd_complete_aio a (s\<lparr>as_bhs := as\<rparr>) of
             (Ret _, s') \<Rightarrow> s'
           | (Fail e, s') \<Rightarrow> s'\<lparr>as_main := Dead e\<rparr>))"

text \<open>The turns in any order.\<close>

inductive async_step :: "'b boost_mq \<Rightarrow> 'b handler_ops \<Rightarrow> 'b asys \<Rightarrow> 'b asys \<Rightarrow> bool" for M H where
  server_step: "async_step M H s (server_turn M H s)"
| reply_step: "async_step M H s (reply_turn M s)"
| bh_step: "async_step M H s (bh_turn s)"

text \<open>A schedule in which each part of the process gets to run, over and over.\<close>

definition async_round :: "'b boost_mq \<Rightarrow> 'b handler_ops \<Rightarrow> 'b asys \<Rightarrow> 'b asys" where
  "async_round M H s = bh_turn (reply_turn M (server_turn M H s))"

definition round_robin :: "nat \<Rightarrow> 'b boost_mq \<Rightarrow> 'b handler_ops \<Rightarrow> 'b asys \<Rightarrow> 'b asys" where
  "round_robin n M H = (async_round M H ^^ n)"

text \<open>A schedule that interleaves the turns.\<close>

definition interleaving :: "'b boost_mq \<Rightarrow> 'b handler_ops \<Rightarrow> ('b asys \<Rightarrow> 'b asys) \<Rightarrow> bool" where
  "interleaving M H sched \<longleftrightarrow> (\<forall>s. (async_step M H)\<^sup>*\<^sup>* s (sched s))"

lemma async_round_steps: "(async_step M H)\<^sup>*\<^sup>* s (async_round M H s)"
  unfolding async_round_def
  by (meson async_step.intros rtranclp.rtrancl_into_rtrancl rtranclp.rtrancl_refl)

lemma round_robin_interleaving: "interleaving M H (round_robin n M H)"
proof -
  have "(async_step M H)\<^sup>*\<^sup>* s ((async_round M H ^^ n) s)" for s
    by (induction n) (auto intro: async_round_steps rtranclp_trans)
  then show ?thesis by (simp add: interleaving_def round_robin_def)
qed

text \<open>Nothing is left to do: both queues of the client are empty and no bottom half is scheduled.\<close>

definition settled :: "'b boost_mq \<Rightarrow> 'b asys \<Rightarrow> bool" where
  "settled M s \<longleftrightarrow> as_bhs s = [] \<and>
     (case cs_client (as_sys s) of
        None \<Rightarrow> True
      | Some c \<Rightarrow> mq_contents M (cs_boost (as_sys s)) (cl_request_mq c) = [] \<and>
          mq_contents M (cs_boost (as_sys s)) (cl_reply_mq c) = [])"

end
