(* ===== verification/Async_Runs.thy ===== *)
theory Async_Runs
  imports Cvbd_Async
begin

text \<open>
  One request of the asynchronous driver from its send to the end of its coroutine, whatever the
  order in which the server, the reply thread and the main loop take their turns. A request goes
  through four phases: its message waits in the queue behind writes, its reply waits in the reply
  queue, its bottom half is scheduled, its coroutine has been entered again. Every turn keeps the
  request in these phases, and only the last one has nothing left to do.
\<close>

section \<open>Turns of the server\<close>

text \<open>The state of the client's process once the server has answered with a reply that satisfies \<open>Q\<close>.\<close>

definition answered :: "('b boost_mq \<Rightarrow> 'b world \<Rightarrow> u64 \<Rightarrow> mqid \<Rightarrow> disk \<Rightarrow> bool) \<Rightarrow> 'b boost_mq \<Rightarrow> nat \<Rightarrow>
    'b csys \<Rightarrow> client \<Rightarrow> disk \<Rightarrow> (mem \<Rightarrow> bool) \<Rightarrow> nat \<Rightarrow> bool" where
  "answered vol M n s c d Q k \<longleftrightarrow> max_queue_size \<le> n \<and> cs_client s = Some c \<and>
     (\<exists>t w r. cs_server s = \<lparr>sv_request_mqs = [Some (cl_request_mq c)], sv_threads = [t], sv_world = w\<rparr> \<and>
        serving vol M (cl_request_mq c) (cl_volume c) (cl_reply_mq c) t w d \<and> Q r \<and>
        mq_contents M (boost w) (cl_request_mq c) = [] \<and> mq_contents M (boost w) (cl_reply_mq c) = [mk_message r k])"

text \<open>How a handler answers message \<open>m\<close>: one turn, and a reply that satisfies \<open>Q\<close>.\<close>

definition served :: "('b boost_mq \<Rightarrow> 'b world \<Rightarrow> u64 \<Rightarrow> mqid \<Rightarrow> disk \<Rightarrow> bool) \<Rightarrow> 'b boost_mq \<Rightarrow> 'b handler_ops \<Rightarrow>
    client \<Rightarrow> disk \<Rightarrow> message \<Rightarrow> (mem \<Rightarrow> bool) \<Rightarrow> nat \<Rightarrow> bool" where
  "served vol M H c d m Q k \<longleftrightarrow> (\<forall>t w ms. serving vol M (cl_request_mq c) (cl_volume c) (cl_reply_mq c) t w d \<longrightarrow>
      mq_contents M (boost w) (cl_request_mq c) = m # ms \<longrightarrow> \<not> mq_full M (boost w) (cl_reply_mq c) \<longrightarrow>
      (\<exists>r t' w'. (\<forall>fuel. handle_requests (Suc fuel) M H (cl_request_mq c) t w = handle_requests fuel M H (cl_request_mq c) t' w') \<and>
        serving vol M (cl_request_mq c) (cl_volume c) (cl_reply_mq c) t' w' d \<and> Q r \<and>
        mq_contents M (boost w') = (mq_contents M (boost w))(cl_request_mq c := ms,
          cl_reply_mq c := mq_contents M (boost w) (cl_reply_mq c) @ [mk_message r k])))"

lemma servedE:
  assumes "served vol M H c d m Q k" "serving vol M (cl_request_mq c) (cl_volume c) (cl_reply_mq c) t w d"
    and "mq_contents M (boost w) (cl_request_mq c) = m # ms" "\<not> mq_full M (boost w) (cl_reply_mq c)"
  obtains r t' w' where "\<And>fuel. handle_requests (Suc fuel) M H (cl_request_mq c) t w = handle_requests fuel M H (cl_request_mq c) t' w'"
    "serving vol M (cl_request_mq c) (cl_volume c) (cl_reply_mq c) t' w' d" "Q r"
    "mq_contents M (boost w') = (mq_contents M (boost w))(cl_request_mq c := ms,
       cl_reply_mq c := mq_contents M (boost w) (cl_reply_mq c) @ [mk_message r k])"
  using assms unfolding served_def by blast

definition serve_one :: "'b boost_mq \<Rightarrow> 'b handler_ops \<Rightarrow> 'b csys \<Rightarrow> 'b csys" where
  "serve_one M H s = s\<lparr>cs_server := server_run 1 M H (cs_server s)\<rparr>"

definition backlog :: "'b boost_mq \<Rightarrow> 'b csys \<Rightarrow> nat" where
  "backlog M s = (case cs_client s of None \<Rightarrow> 0 | Some c \<Rightarrow> length (mq_contents M (cs_boost s) (cl_request_mq c)))"

context storage_handler
begin

lemma serve_one_write:
  assumes "client_rel vol M n s c d tail" "mq_contents M (cs_boost s) (cl_request_mq c) \<noteq> tail"
  shows "client_rel vol M n (serve_one M (H M) s) c d tail" "backlog M (serve_one M (H M) s) = backlog M s - 1"
proof -
  let ?q = "cl_request_mq c"
  from assms(1) obtain t w d0 ws where r: "max_queue_size \<le> n" "cs_client s = Some c"
    "cs_server s = \<lparr>sv_request_mqs = [Some ?q], sv_threads = [t], sv_world = w\<rparr>"
    "serving vol M ?q (cl_volume c) (cl_reply_mq c) t w d0"
    "mq_contents M (boost w) ?q = ws @ tail" "length (ws @ tail) \<le> max_queue_size"
    "\<forall>m \<in> set ws. write_msg (cl_volume c) d0 m" "d = foldl (\<lambda>d m. apply_write d (msg_bytes m)) d0 ws"
    "mq_contents M (boost w) (cl_reply_mq c) = []" by (rule client_relE)
  from assms(2) r(3,5) obtain m ws' where ws: "ws = m # ws'" by (cases ws) auto
  with r(5,7) have "mq_contents M (boost w) ?q = m # (ws' @ tail)" "write_msg (cl_volume c) d0 m" by simp_all
  from serve_write [OF r(4) this] obtain t' w' where
    one: "\<And>fuel. handle_requests (Suc fuel) M (H M) ?q t w = handle_requests fuel M (H M) ?q t' w'"
      "serving vol M ?q (cl_volume c) (cl_reply_mq c) t' w' (apply_write d0 (msg_bytes m))"
      "mq_changes M (boost w) ?q (ws' @ tail) (boost w')" by blast
  have run: "serve_one M (H M) s = s\<lparr>cs_server := \<lparr>sv_request_mqs = [Some ?q], sv_threads = [t'], sv_world = w'\<rparr>\<rparr>"
    using one(1) [of 0] r(4) by (simp add: serve_one_def r(3) server_run_single serving_def del: handle_requests.simps(2))
  show "client_rel vol M n (serve_one M (H M) s) c d tail"
    using r ws one(2,3) unfolding client_rel_def run
    by (intro conjI exI [of _ t'] exI [of _ w'] exI [of _ "apply_write d0 (msg_bytes m)"] exI [of _ ws'])
      (auto simp: mq_changes_def serving_def)
  show "backlog M (serve_one M (H M) s) = backlog M s - 1"
    using r(2,3,5) ws one(3) by (simp add: backlog_def run mq_changes_def)
qed

lemma serve_one_idle:
  assumes "mq_laws M" "cs_server s = \<lparr>sv_request_mqs = [Some q], sv_threads = [t], sv_world = w\<rparr>"
    "mq_limits M (boost w) q = (max_queue_size, request_size)" "mq_contents M (boost w) q = []"
  shows "serve_one M (H M) s = s"
  using handle_requests_wait [OF assms(1) _ assms(4), of 1 "H M" t] assms(2,3)
  by (simp add: serve_one_def server_run_single del: handle_requests.simps)

text \<open>With no request under way, a turn applies the oldest write or does nothing.\<close>

lemma serve_one_connected:
  assumes "client_rel vol M n s c d []"
  shows "client_rel vol M n (serve_one M (H M) s) c d []" "backlog M (serve_one M (H M) s) = backlog M s - 1"
proof -
  have "client_rel vol M n (serve_one M (H M) s) c d [] \<and> backlog M (serve_one M (H M) s) = backlog M s - 1"
  proof (cases "mq_contents M (cs_boost s) (cl_request_mq c) = []")
    case True
    from assms obtain t w d0 where r: "cs_client s = Some c"
      "cs_server s = \<lparr>sv_request_mqs = [Some (cl_request_mq c)], sv_threads = [t], sv_world = w\<rparr>"
      "serving vol M (cl_request_mq c) (cl_volume c) (cl_reply_mq c) t w d0" by (rule client_relE)
    with True have "serve_one M (H M) s = s"
      using vol_laws by (intro serve_one_idle [of M s "cl_request_mq c" t w]) (auto simp: serving_def)
    then show ?thesis using assms True r(1) by (simp add: backlog_def)
  qed (use serve_one_write [OF assms] in simp)
  then show "client_rel vol M n (serve_one M (H M) s) c d []" "backlog M (serve_one M (H M) s) = backlog M s - 1" by auto
qed

text \<open>With a request behind the writes, a turn applies the oldest write or answers the request.\<close>

lemma serve_one_request:
  assumes rel: "client_rel vol M n s c d [m]" and m: "served vol M (H M) c d m Q k"
  shows "client_rel vol M n (serve_one M (H M) s) c d [m] \<or> answered vol M n (serve_one M (H M) s) c d Q k"
    "backlog M (serve_one M (H M) s) = backlog M s - 1"
proof -
  let ?q = "cl_request_mq c" and ?rq = "cl_reply_mq c" and ?s = "serve_one M (H M) s"
  have "(client_rel vol M n ?s c d [m] \<or> answered vol M n ?s c d Q k) \<and> backlog M ?s = backlog M s - 1"
  proof (cases "mq_contents M (cs_boost s) ?q = [m]")
    case True
    from rel obtain t w d0 ws where r: "max_queue_size \<le> n" "cs_client s = Some c"
      "cs_server s = \<lparr>sv_request_mqs = [Some ?q], sv_threads = [t], sv_world = w\<rparr>"
      "serving vol M ?q (cl_volume c) ?rq t w d0" "mq_contents M (boost w) ?q = ws @ [m]"
      "d = foldl (\<lambda>d m. apply_write d (msg_bytes m)) d0 ws" "mq_contents M (boost w) ?rq = []" by (rule client_relE)
    with True have d: "d0 = d" and c: "mq_contents M (boost w) ?q = [m]" by auto
    have "\<not> mq_full M (boost w) ?rq"
      using r(4,7) vol_limits [of M w "cl_volume c" ?rq d0] by (simp add: serving_def mq_full_def size_defs)
    note turn = servedE [OF m r(4) [unfolded d] c this, unfolded r(7) append_Nil]
    obtain x t' w' where
      one: "\<And>fuel. handle_requests (Suc fuel) M (H M) ?q t w = handle_requests fuel M (H M) ?q t' w'"
        "serving vol M ?q (cl_volume c) ?rq t' w' d" "Q x"
        "mq_contents M (boost w') = (mq_contents M (boost w))(?q := [], ?rq := [mk_message x k])"
      by (rule turn) (rule that)
    have run: "?s = s\<lparr>cs_server := \<lparr>sv_request_mqs = [Some ?q], sv_threads = [t'], sv_world = w'\<rparr>\<rparr>"
      using one(1) [of 0] r(4) by (simp add: serve_one_def r(3) server_run_single serving_def del: handle_requests.simps(2))
    have "answered vol M n ?s c d Q k"
      using r(1,2) one unfolding answered_def run
      by (intro conjI exI [of _ t'] exI [of _ w'] exI [of _ x]) (auto simp: serving_def)
    moreover have "backlog M ?s = backlog M s - 1"
      using r(2,3) c one(2,4) by (simp add: backlog_def run serving_def)
    ultimately show ?thesis by simp
  qed (use serve_one_write [OF rel] in simp)
  then show "client_rel vol M n ?s c d [m] \<or> answered vol M n ?s c d Q k" "backlog M ?s = backlog M s - 1" by auto
qed

lemma serve_one_answered:
  assumes "answered vol M n s c d Q k"
  shows "serve_one M (H M) s = s"
  using assms vol_laws unfolding answered_def
  by (elim exE conjE) (rule serve_one_idle [where q = "cl_request_mq c"], auto simp: serving_def)

end


section \<open>Turns of the reply thread\<close>

lemma reply_turn_idle:
  assumes "mq_laws M" "cs_client (as_sys s) = Some c" "mq_limits M (cs_boost (as_sys s)) (cl_reply_mq c) = (k, reply_size)"
    and "mq_contents M (cs_boost (as_sys s)) (cl_reply_mq c) = []"
  shows "reply_turn M s = s"
  using mq_receive_blocks [OF assms(1) _ assms(4), of reply_size] assms(2,3) by (simp add: reply_turn_def)

lemma reply_turn_receives:
  assumes "mq_laws M" "cs_client (as_sys s) = Some c" "as_reply s = Running"
    and "snd (mq_limits M (cs_boost (as_sys s)) (cl_reply_mq c)) \<le> reply_size"
    and "mq_contents M (cs_boost (as_sys s)) (cl_reply_mq c) = mk_message r k # ms"
    and "r' = memcpy (cl_reply_msg c) 0 r 0 k" "\<not> h_stop (get_header r')"
  obtains b where "mq_changes M (cs_boost (as_sys s)) (cl_reply_mq c) ms b"
    "reply_turn M s = (case co_reply_body cvbd_finish_aio r' (s\<lparr>as_sys := (set_boost b (as_sys s))\<lparr>cs_client := Some (c\<lparr>cl_reply_msg := r'\<rparr>)\<rparr>\<rparr>) of
       (Ret _, t) \<Rightarrow> t | (Fail e, t) \<Rightarrow> t\<lparr>as_reply := Dead e\<rparr>)"
proof -
  from mq_receiveE [OF assms(1,4,5)] obtain b where
    "mq_receive M (cl_reply_mq c) reply_size (cs_boost (as_sys s)) = (MQ_ok (mk_message r k), b)"
    "mq_changes M (cs_boost (as_sys s)) (cl_reply_mq c) ms b" .
  then show thesis using assms(2,3,7)
    by (intro that [of b]) (auto simp: reply_turn_def recv_mk_message Let_def assms(6) split: prod.split outcome.split)
qed

text \<open>
  The reply thread completes the request of control block \<open>a\<close> when it gets a reply that satisfies
  \<open>Q\<close>: the guest's memory becomes \<open>g1\<close>, the request's result 0, and its bottom half is scheduled.
\<close>

definition completes :: "'b callback \<Rightarrow> client \<Rightarrow> u64 \<Rightarrow> acb \<Rightarrow> mem \<Rightarrow> mem \<Rightarrow> (mem \<Rightarrow> bool) \<Rightarrow> nat \<Rightarrow> bool" where
  "completes callback c a x0 g0 g1 Q k \<longleftrightarrow>
     (\<forall>r s. Q r \<longrightarrow> as_acbs s a = Some x0 \<longrightarrow> as_guest s = g0 \<longrightarrow>
        \<not> h_stop (get_header (memcpy (cl_reply_msg c) 0 r 0 k)) \<and>
        (\<exists>x. acb_ret x = 0 \<and> acb_resumed x = acb_resumed x0 \<and> co_reply_body callback (memcpy (cl_reply_msg c) 0 r 0 k) s =
           (Ret (), s\<lparr>as_guest := g1, as_acbs := (as_acbs s)(a \<mapsto> x), as_bhs := as_bhs s @ [a]\<rparr>)))"

context storage_handler
begin

lemma reply_turn_connected:
  assumes "client_rel vol M n (as_sys s) c d tail"
  shows "reply_turn M s = s"
proof -
  from assms obtain t w d0 where r: "cs_client (as_sys s) = Some c"
    "cs_server (as_sys s) = \<lparr>sv_request_mqs = [Some (cl_request_mq c)], sv_threads = [t], sv_world = w\<rparr>"
    "serving vol M (cl_request_mq c) (cl_volume c) (cl_reply_mq c) t w d0"
    "mq_contents M (boost w) (cl_reply_mq c) = []" by (rule client_relE)
  then show ?thesis
    using vol_laws vol_limits by (intro reply_turn_idle [of M s c max_queue_size]) (auto simp: serving_def)
qed

lemma answered_receives:
  assumes a: "answered vol M n (as_sys s) c d Q k" and run: "as_reply s = Running"
    and stop: "\<And>r. Q r \<Longrightarrow> \<not> h_stop (get_header (memcpy (cl_reply_msg c) 0 r 0 k))"
  obtains r y where "Q r" "client_rel vol M n y (c\<lparr>cl_reply_msg := memcpy (cl_reply_msg c) 0 r 0 k\<rparr>) d []" "backlog M y = 0"
    "reply_turn M s = (case co_reply_body cvbd_finish_aio (memcpy (cl_reply_msg c) 0 r 0 k) (s\<lparr>as_sys := y\<rparr>) of
       (Ret _, t) \<Rightarrow> t | (Fail e, t) \<Rightarrow> t\<lparr>as_reply := Dead e\<rparr>)"
proof -
  let ?q = "cl_request_mq c" and ?rq = "cl_reply_mq c"
  from a obtain t w r where r: "max_queue_size \<le> n" "cs_client (as_sys s) = Some c"
    "cs_server (as_sys s) = \<lparr>sv_request_mqs = [Some ?q], sv_threads = [t], sv_world = w\<rparr>"
    "serving vol M ?q (cl_volume c) ?rq t w d" "Q r" "mq_contents M (boost w) ?q = []"
    "mq_contents M (boost w) ?rq = [mk_message r k]" unfolding answered_def by blast
  have laws: "mq_laws M" "snd (mq_limits M (cs_boost (as_sys s)) ?rq) \<le> reply_size" "mq_contents M (cs_boost (as_sys s)) ?rq = [mk_message r k]"
    using r vol_laws vol_limits by (auto simp: serving_def)
  let ?r = "memcpy (cl_reply_msg c) 0 r 0 k"
  from reply_turn_receives [OF laws(1) r(2) run laws(2,3) refl stop [OF r(5)]] obtain b where
    b: "mq_changes M (boost w) ?rq [] b"
      "reply_turn M s = (case co_reply_body cvbd_finish_aio ?r (s\<lparr>as_sys := (set_boost b (as_sys s))\<lparr>cs_client := Some (c\<lparr>cl_reply_msg := ?r\<rparr>)\<rparr>\<rparr>) of
         (Ret _, t) \<Rightarrow> t | (Fail e, t) \<Rightarrow> t\<lparr>as_reply := Dead e\<rparr>)"
    using r(3) by auto
  show thesis
  proof (rule that [OF r(5) _ _ b(2)])
    show "client_rel vol M n ((set_boost b (as_sys s))\<lparr>cs_client := Some (c\<lparr>cl_reply_msg := ?r\<rparr>)\<rparr>) (c\<lparr>cl_reply_msg := ?r\<rparr>) d []"
      using r b(1) vol_frame [of M w "cl_volume c" ?rq d ?rq "[]" b] unfolding client_rel_def
      by (intro conjI exI [of _ t] exI [of _ "w\<lparr>boost := b\<rparr>"] exI [of _ d] exI [of _ "[]"])
        (auto simp: set_boost_def serving_def mq_changes_def)
    show "backlog M ((set_boost b (as_sys s))\<lparr>cs_client := Some (c\<lparr>cl_reply_msg := ?r\<rparr>)\<rparr>) = 0"
      using r b(1) by (simp add: backlog_def mq_changes_def serving_def)
  qed
qed

lemma reply_turn_answered:
  assumes a: "answered vol M n (as_sys s) c d Q k" and run: "as_reply s = Running"
    and fin: "completes (cvbd_finish_aio :: 'b callback) c a x0 g0 g1 Q k" "as_acbs s a = Some x0" "as_guest s = g0"
  obtains x c' y where "reply_turn M s = s\<lparr>as_sys := y, as_guest := g1, as_acbs := (as_acbs s)(a \<mapsto> x), as_bhs := as_bhs s @ [a]\<rparr>"
    "acb_ret x = 0" "acb_resumed x = acb_resumed x0" "client_rel vol M n y c' d []" "backlog M y = backlog M (as_sys s)"
proof -
  have stop: "\<not> h_stop (get_header (memcpy (cl_reply_msg c) 0 r 0 k))" if "Q r" for r
    using fin that by (auto simp: completes_def)
  obtain r y where r: "Q r" "client_rel vol M n y (c\<lparr>cl_reply_msg := memcpy (cl_reply_msg c) 0 r 0 k\<rparr>) d []" "backlog M y = 0"
    "reply_turn M s = (case co_reply_body cvbd_finish_aio (memcpy (cl_reply_msg c) 0 r 0 k) (s\<lparr>as_sys := y\<rparr>) of
       (Ret _, t) \<Rightarrow> t | (Fail e, t) \<Rightarrow> t\<lparr>as_reply := Dead e\<rparr>)"
    using answered_receives [OF a run stop] by blast
  from fin(1) [unfolded completes_def, rule_format, of r "s\<lparr>as_sys := y\<rparr>"] fin(2,3) r(1) obtain x where
    "acb_ret x = 0" "acb_resumed x = acb_resumed x0"
    "co_reply_body cvbd_finish_aio (memcpy (cl_reply_msg c) 0 r 0 k) (s\<lparr>as_sys := y\<rparr>) =
       (Ret (), s\<lparr>as_sys := y, as_guest := g1, as_acbs := (as_acbs s)(a \<mapsto> x), as_bhs := as_bhs s @ [a]\<rparr>)" by auto
  moreover have "backlog M (as_sys s) = 0" using a by (auto simp: answered_def backlog_def)
  ultimately show thesis using r by (intro that [of x y "c\<lparr>cl_reply_msg := memcpy (cl_reply_msg c) 0 r 0 k\<rparr>"]) auto
qed

end


section \<open>The phases of a request\<close>

text \<open>
  A request in flight: its control block and the others, the allocator's next address, the guest's
  memory before and after, the client that sent it, its message, what its reply satisfies and the
  size of the reply, and the disk behind the server.
\<close>

record flight =
  fl_acb :: u64
  fl_block :: acb
  fl_others :: "u64 \<Rightarrow> acb option"
  fl_next :: nat
  fl_before :: mem
  fl_after :: mem
  fl_client :: client
  fl_msg :: message
  fl_reply :: "mem \<Rightarrow> bool"
  fl_len :: nat
  fl_disk :: disk

definition alive :: "flight \<Rightarrow> 'b asys \<Rightarrow> bool" where
  "alive f s \<longleftrightarrow> as_reply s = Running \<and> as_main s = Running \<and> as_next s = fl_next f"

inductive finishing :: "('b boost_mq \<Rightarrow> 'b world \<Rightarrow> u64 \<Rightarrow> mqid \<Rightarrow> disk \<Rightarrow> bool) \<Rightarrow> 'b boost_mq \<Rightarrow> nat \<Rightarrow> flight \<Rightarrow> 'b asys \<Rightarrow> bool"
  for vol M n f where
  scheduled: "alive f s \<Longrightarrow> client_rel vol M n (as_sys s) c (fl_disk f) [] \<Longrightarrow> as_acbs s = (fl_others f)(fl_acb f \<mapsto> x) \<Longrightarrow>
    acb_ret x = 0 \<Longrightarrow> as_guest s = fl_after f \<Longrightarrow> as_bhs s = [fl_acb f] \<Longrightarrow> \<not> acb_resumed x \<Longrightarrow> finishing vol M n f s"
| resumed: "alive f s \<Longrightarrow> client_rel vol M n (as_sys s) c (fl_disk f) [] \<Longrightarrow> as_acbs s = (fl_others f)(fl_acb f \<mapsto> x) \<Longrightarrow>
    acb_ret x = 0 \<Longrightarrow> as_guest s = fl_after f \<Longrightarrow> as_bhs s = [] \<Longrightarrow> acb_resumed x \<Longrightarrow> finishing vol M n f s"

inductive in_flight :: "('b boost_mq \<Rightarrow> 'b world \<Rightarrow> u64 \<Rightarrow> mqid \<Rightarrow> disk \<Rightarrow> bool) \<Rightarrow> 'b boost_mq \<Rightarrow> nat \<Rightarrow> flight \<Rightarrow> 'b asys \<Rightarrow> bool"
  for vol M n f where
  waiting: "alive f s \<Longrightarrow> client_rel vol M n (as_sys s) (fl_client f) (fl_disk f) [fl_msg f] \<Longrightarrow>
    as_acbs s = (fl_others f)(fl_acb f \<mapsto> fl_block f) \<Longrightarrow> as_guest s = fl_before f \<Longrightarrow> as_bhs s = [] \<Longrightarrow> in_flight vol M n f s"
| replied: "alive f s \<Longrightarrow> answered vol M n (as_sys s) (fl_client f) (fl_disk f) (fl_reply f) (fl_len f) \<Longrightarrow>
    as_acbs s = (fl_others f)(fl_acb f \<mapsto> fl_block f) \<Longrightarrow> as_guest s = fl_before f \<Longrightarrow> as_bhs s = [] \<Longrightarrow> in_flight vol M n f s"
| finished: "finishing vol M n f s \<Longrightarrow> backlog M (as_sys s) = 0 \<Longrightarrow> in_flight vol M n f s"

text \<open>What the handler and the reply thread have to do with the request.\<close>

definition handled :: "('b boost_mq \<Rightarrow> 'b world \<Rightarrow> u64 \<Rightarrow> mqid \<Rightarrow> disk \<Rightarrow> bool) \<Rightarrow> 'b boost_mq \<Rightarrow> 'b handler_ops \<Rightarrow> flight \<Rightarrow> bool" where
  "handled vol M H f \<longleftrightarrow> \<not> acb_resumed (fl_block f) \<and> served vol M H (fl_client f) (fl_disk f) (fl_msg f) (fl_reply f) (fl_len f) \<and>
     completes (cvbd_finish_aio :: 'b callback) (fl_client f) (fl_acb f) (fl_block f) (fl_before f) (fl_after f) (fl_reply f) (fl_len f)"

lemma server_turn_eq: "server_turn M H s = s\<lparr>as_sys := serve_one M H (as_sys s)\<rparr>"
  by (simp add: server_turn_def serve_one_def)

lemma alive_simps [simp]: "alive f (s\<lparr>as_sys := y\<rparr>) = alive f s" "alive f (s\<lparr>as_guest := g\<rparr>) = alive f s"
  "alive f (s\<lparr>as_acbs := h\<rparr>) = alive f s" "alive f (s\<lparr>as_bhs := l\<rparr>) = alive f s"
  by (simp_all add: alive_def)

lemma bh_turn_scheduled:
  "as_bhs s = a # as \<Longrightarrow> a \<noteq> 0 \<Longrightarrow> as_acbs s a = Some x \<Longrightarrow>
   bh_turn s = s\<lparr>as_bhs := as, as_acbs := (as_acbs s)(a \<mapsto> x\<lparr>acb_bh := False, acb_resumed := True\<rparr>)\<rparr>"
  by (simp add: bh_turn_def cvbd_complete_aio_def set_acb_def deref_acb_def cmd_simps)

lemma bh_turn_none: "as_bhs s = [] \<Longrightarrow> bh_turn s = s"
  by (simp add: bh_turn_def)

text \<open>A bottom half of the request ends its last phase.\<close>

lemma bh_turn_finishing:
  assumes "finishing vol M n f s" "fl_acb f \<noteq> 0"
  shows "finishing vol M n f (bh_turn s) \<and> as_bhs (bh_turn s) = [] \<and> as_sys (bh_turn s) = as_sys s"
  using assms(1)
proof (cases)
  case (scheduled c x)
  with assms(2) have "bh_turn s = s\<lparr>as_bhs := [], as_acbs := (fl_others f)(fl_acb f \<mapsto> x\<lparr>acb_bh := False, acb_resumed := True\<rparr>)\<rparr>"
    by (simp add: bh_turn_scheduled)
  moreover have "finishing vol M n f (s\<lparr>as_bhs := [], as_acbs := (fl_others f)(fl_acb f \<mapsto> x\<lparr>acb_bh := False, acb_resumed := True\<rparr>)\<rparr>)"
    using scheduled by (intro finishing.resumed [of f _ vol M n c "x\<lparr>acb_bh := False, acb_resumed := True\<rparr>"]) simp_all
  ultimately show ?thesis by simp
next
  case (resumed c x)
  with assms(1) show ?thesis by (simp add: bh_turn_none)
qed

context storage_handler
begin

lemma server_turn_finishing:
  assumes "finishing vol M n f s"
  shows "finishing vol M n f (server_turn M (H M) s) \<and> backlog M (as_sys (server_turn M (H M) s)) = backlog M (as_sys s) - 1"
  using assms
proof (cases)
  case (scheduled c x)
  with serve_one_connected [OF scheduled(2)] show ?thesis
    by (auto simp: server_turn_eq intro: finishing.scheduled)
next
  case (resumed c x)
  with serve_one_connected [OF resumed(2)] show ?thesis
    by (auto simp: server_turn_eq intro: finishing.resumed)
qed

lemma reply_turn_finishing: "finishing vol M n f s \<Longrightarrow> reply_turn M s = s"
  by (erule finishing.cases) (auto intro: reply_turn_connected)

text \<open>Each turn keeps the request in its phases.\<close>

lemma server_turn_in_flight:
  assumes "in_flight vol M n f s" "handled vol M (H M) f"
  shows "in_flight vol M n f (server_turn M (H M) s) \<and> backlog M (as_sys (server_turn M (H M) s)) = backlog M (as_sys s) - 1"
  using assms(1)
proof (cases)
  case waiting
  have "served vol M (H M) (fl_client f) (fl_disk f) (fl_msg f) (fl_reply f) (fl_len f)" using assms(2) by (simp add: handled_def)
  from serve_one_request [OF waiting(2) this] waiting show ?thesis
    by (elim disjE) (auto simp: server_turn_eq intro: in_flight.waiting in_flight.replied)
next
  case replied
  then have "server_turn M (H M) s = s" by (simp add: server_turn_eq serve_one_answered)
  with assms(1) replied show ?thesis by (auto simp: answered_def backlog_def)
next
  case finished
  with server_turn_finishing show ?thesis by (auto intro: in_flight.finished)
qed

text \<open>After a turn of the reply thread, a request is either still behind the writes or complete.\<close>

lemma reply_turn_in_flight:
  assumes "in_flight vol M n f s" "handled vol M (H M) f"
  shows "(reply_turn M s = s \<and> client_rel vol M n (as_sys s) (fl_client f) (fl_disk f) [fl_msg f] \<and> as_bhs s = [] \<or>
     finishing vol M n f (reply_turn M s) \<and> backlog M (as_sys s) = 0) \<and> backlog M (as_sys (reply_turn M s)) = backlog M (as_sys s)"
  using assms(1)
proof (cases)
  case waiting
  then show ?thesis using reply_turn_connected by auto
next
  case replied
  obtain x c' y where r: "reply_turn M s = s\<lparr>as_sys := y, as_guest := fl_after f, as_acbs := (as_acbs s)(fl_acb f \<mapsto> x), as_bhs := as_bhs s @ [fl_acb f]\<rparr>"
    "acb_ret x = 0" "acb_resumed x = acb_resumed (fl_block f)" "client_rel vol M n y c' (fl_disk f) []" "backlog M y = backlog M (as_sys s)"
    by (rule reply_turn_answered [OF replied(2), of "fl_acb f" "fl_block f" "fl_before f" "fl_after f"])
      (use replied assms(2) in \<open>auto simp: alive_def handled_def\<close>)
  moreover have "backlog M (as_sys s) = 0" using replied(2) by (auto simp: answered_def backlog_def)
  moreover have "finishing vol M n f (reply_turn M s)"
    unfolding r(1) by (rule finishing.scheduled [of f _ vol M n c' x]) (use r replied assms(2) in \<open>simp_all add: handled_def\<close>)
  ultimately show ?thesis by simp
next
  case finished
  then show ?thesis using reply_turn_finishing by auto
qed

lemma bh_turn_in_flight:
  assumes "in_flight vol M n f s" "fl_acb f \<noteq> 0"
  shows "in_flight vol M n f (bh_turn s) \<and> as_bhs (bh_turn s) = [] \<and> as_sys (bh_turn s) = as_sys s"
  using assms(1)
proof (cases)
  case finished
  with bh_turn_finishing [OF _ assms(2)] show ?thesis by (auto intro: in_flight.finished)
qed (use assms(1) in \<open>simp_all add: bh_turn_none\<close>)

text \<open>So does any number of turns, in any order.\<close>

lemma in_flight_step:
  assumes "in_flight vol M n f s" "handled vol M (H M) f" "fl_acb f \<noteq> 0" "async_step M (H M) s t"
  shows "in_flight vol M n f t"
  using assms(4)
proof (cases)
  case server_step
  with server_turn_in_flight [OF assms(1,2)] show ?thesis by simp
next
  case reply_step
  with reply_turn_in_flight [OF assms(1,2)] assms(1) show ?thesis by (auto intro: in_flight.finished)
next
  case bh_step
  with bh_turn_in_flight [OF assms(1,3)] show ?thesis by simp
qed

lemma finishing_step:
  assumes "finishing vol M n f s" "fl_acb f \<noteq> 0" "async_step M (H M) s t"
  shows "finishing vol M n f t"
  using assms(3)
proof (cases)
  case server_step
  with server_turn_finishing [OF assms(1)] show ?thesis by simp
next
  case reply_step
  with reply_turn_finishing [OF assms(1)] assms(1) show ?thesis by simp
next
  case bh_step
  with bh_turn_finishing [OF assms(1,2)] show ?thesis by simp
qed

lemma in_flight_steps:
  assumes "(async_step M (H M))\<^sup>*\<^sup>* s t" "in_flight vol M n f s" "handled vol M (H M) f" "fl_acb f \<noteq> 0"
  shows "in_flight vol M n f t"
  using assms by (induction rule: rtranclp_induct) (auto intro: in_flight_step)

lemma finishing_steps:
  assumes "(async_step M (H M))\<^sup>*\<^sup>* s t" "finishing vol M n f s" "fl_acb f \<noteq> 0"
  shows "finishing vol M n f t"
  using assms by (induction rule: rtranclp_induct) (auto intro: finishing_step)

text \<open>Rounds work the queue off, and leave no reply and no bottom half behind.\<close>

lemma round_in_flight:
  assumes "in_flight vol M n f s" "handled vol M (H M) f" "fl_acb f \<noteq> 0"
  shows "let t = async_round M (H M) s in in_flight vol M n f t \<and> as_bhs t = [] \<and> backlog M (as_sys t) = backlog M (as_sys s) - 1 \<and>
    (backlog M (as_sys t) = 0 \<longrightarrow> finishing vol M n f t)"
proof -
  let ?u = "server_turn M (H M) s" and ?v = "reply_turn M (server_turn M (H M) s)"
  note u = server_turn_in_flight [OF assms(1,2)]
  from u have v: "?v = ?u \<and> client_rel vol M n (as_sys ?u) (fl_client f) (fl_disk f) [fl_msg f] \<or> finishing vol M n f ?v \<and> backlog M (as_sys ?v) = 0"
    "backlog M (as_sys ?v) = backlog M (as_sys ?u)"
    using reply_turn_in_flight [of M n f ?u] assms(2) by auto
  have "in_flight vol M n f ?v" using v(1) u by (auto intro: in_flight.finished)
  note w = bh_turn_in_flight [OF this assms(3)]
  from v(1) have "backlog M (as_sys (bh_turn ?v)) = 0 \<longrightarrow> finishing vol M n f (bh_turn ?v)"
  proof
    assume *: "?v = ?u \<and> client_rel vol M n (as_sys ?u) (fl_client f) (fl_disk f) [fl_msg f]"
    then have "0 < backlog M (as_sys ?v)" by (auto simp: backlog_def elim!: client_relE)
    then show ?thesis using w by simp
  qed (use bh_turn_finishing [OF _ assms(3)] in blast)
  then show ?thesis using u v(2) w by (simp add: async_round_def Let_def)
qed

lemma rounds_in_flight:
  assumes "in_flight vol M n f s" "handled vol M (H M) f" "fl_acb f \<noteq> 0" "backlog M (as_sys s) \<le> k" "0 < k"
  shows "let t = round_robin k M (H M) s in finishing vol M n f t \<and> as_bhs t = [] \<and> backlog M (as_sys t) = 0"
proof -
  have "let t = (async_round M (H M) ^^ k) s in in_flight vol M n f t \<and> backlog M (as_sys t) = backlog M (as_sys s) - k \<and>
      (0 < k \<longrightarrow> as_bhs t = [] \<and> (backlog M (as_sys t) = 0 \<longrightarrow> finishing vol M n f t))" for k
  proof (induction k)
    case (Suc k)
    with round_in_flight [OF _ assms(2,3), of n "(async_round M (H M) ^^ k) s"] show ?case
      by (auto simp: Let_def)
  qed (use assms in simp)
  from this [of k] assms(4,5) show ?thesis by (simp add: round_robin_def Let_def)
qed

end


section \<open>The end of a request\<close>

text \<open>A client with no request under way, over a disk: its threads run and its control blocks are free.\<close>

definition async_connected :: "('b boost_mq \<Rightarrow> 'b world \<Rightarrow> u64 \<Rightarrow> mqid \<Rightarrow> disk \<Rightarrow> bool) \<Rightarrow> 'b boost_mq \<Rightarrow> nat \<Rightarrow>
    'b asys \<Rightarrow> disk \<Rightarrow> bool" where
  "async_connected vol M n s d \<longleftrightarrow> connected vol M n (as_sys s) d \<and> as_reply s = Running \<and> as_main s = Running \<and>
     as_bhs s = [] \<and> 0 < as_next s \<and> (\<forall>k. as_next s \<le> k \<longrightarrow> k < 2 ^ 64 \<longrightarrow> as_acbs s (word_of_nat k) = None)"

text \<open>What a coroutine does after it has sent its request.\<close>

abbreviation co_end :: "('b asys \<Rightarrow> 'b asys) \<Rightarrow> u64 \<Rightarrow> ('b asys, int) cmd" where
  "co_end sched a \<equiv> cbind (coroutine_yield sched a) (\<lambda>_. co_finish a)"

text \<open>The states a request may leave behind: with the guest's memory \<open>g\<close> and the disk \<open>d\<close>, or with work left to do.\<close>

definition ends :: "('b boost_mq \<Rightarrow> 'b world \<Rightarrow> u64 \<Rightarrow> mqid \<Rightarrow> disk \<Rightarrow> bool) \<Rightarrow> 'b boost_mq \<Rightarrow> nat \<Rightarrow>
    'b asys \<Rightarrow> disk \<Rightarrow> mem \<Rightarrow> int outcome \<times> 'b asys \<Rightarrow> bool" where
  "ends vol M n s d g r \<longleftrightarrow>
     (fst r = Fail Hang \<and> \<not> settled M (snd r)) \<or>
     (fst r = Ret 0 \<and> async_connected vol M n (snd r) d \<and> as_guest (snd r) = g \<and> as_acbs (snd r) = as_acbs s \<and>
      as_next (snd r) = Suc (as_next s))"

lemma finishing_not_settled:
  assumes "finishing vol M n f s"
  obtains (left) "as_bhs s \<noteq> []" "\<not> acb_resumed (the (as_acbs s (fl_acb f)))"
  | (over) c x where "alive f s" "client_rel vol M n (as_sys s) c (fl_disk f) []" "as_acbs s = (fl_others f)(fl_acb f \<mapsto> x)"
    "acb_ret x = 0" "as_guest s = fl_after f" "as_bhs s = []" "acb_resumed x"
  using assms by (cases; fastforce)

lemma co_end_finishing:
  assumes fin: "finishing vol M n f (sched s1)" and a: "fl_acb f = word_of_nat (as_next s)" "as_next s < 2 ^ 64" "fl_acb f \<noteq> 0"
    and f: "fl_others f = as_acbs s" "fl_next f = Suc (as_next s)" and s: "async_connected vol M n s d0"
  shows "ends vol M n s (fl_disk f) (fl_after f) (co_end sched (fl_acb f) s1)"
    and "as_bhs (sched s1) = [] \<Longrightarrow> fst (co_end sched (fl_acb f) s1) = Ret 0"
proof -
  have free: "as_acbs s (fl_acb f) = None" using s a by (auto simp: async_connected_def)
  have "ends vol M n s (fl_disk f) (fl_after f) (co_end sched (fl_acb f) s1) \<and>
    (as_bhs (sched s1) = [] \<longrightarrow> fst (co_end sched (fl_acb f) s1) = Ret 0)"
    using fin
  proof (cases rule: finishing_not_settled)
    case left
    with fin have "co_end sched (fl_acb f) s1 = (Fail Hang, sched s1)"
      by (auto elim!: finishing.cases simp: co_finish_def cmd_simps coroutine_yield_def Let_def alive_def)
    then show ?thesis using left by (simp add: ends_def settled_def)
  next
    case (over c x)
    then have "co_end sched (fl_acb f) s1 = (Ret 0, (sched s1)\<lparr>as_acbs := (fl_others f)(fl_acb f := None)\<rparr>)"
      using a(3) by (simp add: co_finish_def cmd_simps coroutine_yield_def Let_def deref_acb_def free_acb_def alive_def)
    moreover have "(fl_others f)(fl_acb f := None) = as_acbs s" using free f by (auto simp: fun_eq_iff)
    moreover have "async_connected vol M n ((sched s1)\<lparr>as_acbs := as_acbs s\<rparr>) (fl_disk f)"
      using over s f by (auto simp: async_connected_def connected_def alive_def)
    ultimately show ?thesis using over f by (simp add: ends_def alive_def)
  qed
  then show "ends vol M n s (fl_disk f) (fl_after f) (co_end sched (fl_acb f) s1)"
    and "as_bhs (sched s1) = [] \<Longrightarrow> fst (co_end sched (fl_acb f) s1) = Ret 0" by auto
qed

lemma coroutine_yield_Ret:
  assumes "coroutine_yield sched a s = (Ret (), y)"
  shows "y = sched s \<and> acb_resumed (the (as_acbs y a))"
  using assms by (auto simp: coroutine_yield_def Let_def split: thread_state.splits option.splits if_splits)

context storage_handler
begin

text \<open>A request that waits for its reply, under any interleaving and under rounds that are long enough.\<close>

lemma in_flight_ends:
  assumes fl: "in_flight vol M n f s1" "handled vol M (H M) f"
    and a: "fl_acb f = word_of_nat (as_next s)" "as_next s < 2 ^ 64" "fl_acb f \<noteq> 0"
    and f: "fl_others f = as_acbs s" "fl_next f = Suc (as_next s)" and s: "async_connected vol M n s d0"
  shows "interleaving M (H M) sched \<Longrightarrow> ends vol M n s (fl_disk f) (fl_after f) (co_end sched (fl_acb f) s1)"
    and "backlog M (as_sys s1) \<le> k \<Longrightarrow> 0 < k \<Longrightarrow> fst (co_end (round_robin k M (H M)) (fl_acb f) s1) = Ret 0"
proof -
  show "ends vol M n s (fl_disk f) (fl_after f) (co_end sched (fl_acb f) s1)" if "interleaving M (H M) sched"
  proof -
    have "in_flight vol M n f (sched s1)"
      using in_flight_steps [OF _ fl a(3)] that by (simp add: interleaving_def)
    then show ?thesis
    proof (cases)
      case waiting
      then have "co_end sched (fl_acb f) s1 = (Fail Hang, sched s1)" "\<not> settled M (sched s1)"
        using fl(2) by (auto simp: co_finish_def cmd_simps coroutine_yield_def Let_def alive_def handled_def settled_def elim!: client_relE)
      then show ?thesis by (simp add: ends_def)
    next
      case replied
      then have "co_end sched (fl_acb f) s1 = (Fail Hang, sched s1)" "\<not> settled M (sched s1)"
        using fl(2) by (auto simp: co_finish_def cmd_simps coroutine_yield_def Let_def alive_def handled_def settled_def answered_def)
      then show ?thesis by (simp add: ends_def)
    next
      case finished
      from finished(1) show ?thesis by (rule co_end_finishing(1) [OF _ a f s])
    qed
  qed
  show "fst (co_end (round_robin k M (H M)) (fl_acb f) s1) = Ret 0" if "backlog M (as_sys s1) \<le> k" "0 < k"
    using rounds_in_flight [OF fl a(3) that]
    by (intro co_end_finishing(2) [OF _ a f s]) (auto simp: Let_def)
qed

text \<open>When a request that waits for its reply returns, the server has served all that was sent before it.\<close>

lemma in_flight_barrier:
  assumes fl: "in_flight vol M n f s1" "handled vol M (H M) f" "fl_acb f \<noteq> 0" "interleaving M (H M) sched"
    and r: "co_end sched (fl_acb f) s1 = (Ret r, s')"
  shows "backlog M (as_sys s') = 0"
proof -
  have "in_flight vol M n f (sched s1)" using in_flight_steps [OF _ fl(1-3)] fl(4) by (simp add: interleaving_def)
  moreover from r obtain y where "coroutine_yield sched (fl_acb f) s1 = (Ret (), y)" "as_sys s' = as_sys y"
    by (auto elim!: cbind_RetE simp: co_finish_def free_acb_def modify_run ret_run deref_acb_def split: option.splits if_splits)
  then have "as_sys s' = as_sys (sched s1)" "acb_resumed (the (as_acbs (sched s1) (fl_acb f)))"
    using coroutine_yield_Ret by auto
  ultimately show ?thesis
    using fl(2) by (cases rule: in_flight.cases) (auto simp: handled_def)
qed

text \<open>A request that is complete when its coroutine yields.\<close>

lemma finishing_ends:
  assumes fl: "finishing vol M n f s1"
    and a: "fl_acb f = word_of_nat (as_next s)" "as_next s < 2 ^ 64" "fl_acb f \<noteq> 0"
    and f: "fl_others f = as_acbs s" "fl_next f = Suc (as_next s)" and s: "async_connected vol M n s d0"
  shows "interleaving M (H M) sched \<Longrightarrow> ends vol M n s (fl_disk f) (fl_after f) (co_end sched (fl_acb f) s1)"
    and "0 < k \<Longrightarrow> fst (co_end (round_robin k M (H M)) (fl_acb f) s1) = Ret 0"
proof -
  show "ends vol M n s (fl_disk f) (fl_after f) (co_end sched (fl_acb f) s1)" if "interleaving M (H M) sched"
    using finishing_steps [OF _ fl a(3)] that
    by (intro co_end_finishing(1) [OF _ a f s]) (simp add: interleaving_def)
  have round: "finishing vol M n f (async_round M (H M) t) \<and> as_bhs (async_round M (H M) t) = []" if "finishing vol M n f t" for t
    using server_turn_finishing [OF that] reply_turn_finishing [of M n f "server_turn M (H M) t"] bh_turn_finishing [OF _ a(3), of vol M n "server_turn M (H M) t"]
    by (simp add: async_round_def)
  have "finishing vol M n f ((async_round M (H M) ^^ k) s1) \<and> (0 < k \<longrightarrow> as_bhs ((async_round M (H M) ^^ k) s1) = [])" for k
    by (induction k) (use fl round in auto)
  then show "fst (co_end (round_robin k M (H M)) (fl_acb f) s1) = Ret 0" if "0 < k"
    using that by (intro co_end_finishing(2) [OF _ a f s]) (auto simp: round_robin_def)
qed

end

end
