(* ===== verification/Async_Requests.thy ===== *)
theory Async_Requests
  imports Async_Runs
begin

text \<open>
  Reads, writes and flushes of the asynchronous driver, over the phases of a request: each sends
  one message and ends with the effect of that request on the disk and on the guest's memory,
  whatever the order of the turns while its coroutine is suspended.
\<close>

section \<open>Sending\<close>

lemma on_sys_run: "on_sys m s = (case m (as_sys s) of (r, y) \<Rightarrow> (r, s\<lparr>as_sys := y\<rparr>))"
  and on_guest_run: "on_guest p s = (case p (as_guest s) of (r', g) \<Rightarrow> (r', s\<lparr>as_guest := g\<rparr>))"
  by (simp_all add: on_sys_def on_guest_def zoom_run)

lemma deref_acb_run: "a \<noteq> 0 \<Longrightarrow> as_acbs s a = Some x \<Longrightarrow> deref_acb a s = (Ret x, s)"
  by (simp add: deref_acb_def)

lemma set_acb_run: "a \<noteq> 0 \<Longrightarrow> as_acbs s a = Some x \<Longrightarrow> set_acb a h s = (Ret (), s\<lparr>as_acbs := (as_acbs s)(a \<mapsto> h x)\<rparr>)"
  by (simp add: set_acb_def deref_acb_run cmd_simps)

lemma store_at_cong: "(\<And>i. i < length as \<Longrightarrow> buf (k + i) = buf' (k' + i)) \<Longrightarrow> store_at as buf k g = store_at as buf' k' g"
proof (induction as arbitrary: k k' g)
  case (Cons a as)
  have "buf (Suc k + i) = buf' (Suc k' + i)" if "i < length as" for i
    using Cons.prems [of "Suc i"] that by simp
  from Cons.IH [OF this] Cons.prems [of 0] show ?case by simp
qed simp

text \<open>The callback, called for a request that is not yet resumed.\<close>

lemma cvbd_finish_aio_run:
  "a \<noteq> 0 \<Longrightarrow> as_acbs s a = Some x \<Longrightarrow> cvbd_finish_aio r a s =
     (Ret (), s\<lparr>as_acbs := (as_acbs s)(a \<mapsto> x\<lparr>acb_ret := finish_code r (acb_ret x) (acb_size x), acb_bh := True\<rparr>),
        as_bhs := as_bhs s @ [a]\<rparr>)"
  by (simp add: cvbd_finish_aio_def set_acb_run cmd_simps)

text \<open>A fresh control block, and the state in which it is set.\<close>

lemma new_acb_run:
  assumes "async_connected vol M n s d" "as_next s < 2 ^ 64"
  shows "new_acb stray s = (Ret (word_of_nat (as_next s)), s\<lparr>as_acbs := (as_acbs s)(word_of_nat (as_next s) \<mapsto> stray), as_next := Suc (as_next s)\<rparr>)"
    and "(word_of_nat (as_next s) :: u64) \<noteq> 0"
  using assms by (auto simp: new_acb_def cmd_simps async_connected_def word_of_nat_eq_0_iff dest: dvd_imp_le)

context storage_handler
begin

lemma send_request_rel:
  assumes "client_rel vol M n s c d []" "k \<le> request_size"
  shows "\<exists>s'. send_request M (peer n M) k s = (Ret (), s') \<and> client_rel vol M n s' c d [mk_message (cl_request_msg c) k]"
proof -
  have "cs_client s = Some c" using assms(1) by (rule client_relE)
  moreover have "msg_size (mk_message (cl_request_msg c) k) \<le> request_size" using assms(2) by (simp add: mk_message_def)
  ultimately show ?thesis
    using send_message [OF assms(1)] by (fastforce simp: send_request_def cbind_run this_run)
qed

end

section \<open>Reading\<close>

text \<open>What a read leaves in the guest's memory.\<close>

definition scattered :: "iovec list \<Rightarrow> nat \<Rightarrow> disk \<Rightarrow> nat \<Rightarrow> mem \<Rightarrow> mem" where
  "scattered qiov k d off g = store_at (take k (iov_addrs qiov)) (\<lambda>i. d_bytes d (off + i)) 0 g"

text \<open>The reply thread on the reply to a read.\<close>

lemma completes_read:
  assumes m: "get_header m = Header_make False REQ_READ i v a" "req_size m = sz" "req_offset m = off"
    and a: "a \<noteq> 0" and x0: "acb_qiov x0 = Some qiov" "acb_callback x0" and sz: "unat sz \<le> max_data_size"
  shows "completes (cvbd_finish_aio :: 'b callback) c a x0 g0 (scattered qiov (unat sz) d (nat (sint off)) g0)
    (\<lambda>r. is_read_reply m r d) readreply_size"
proof -
  have "\<not> h_stop (get_header (memcpy (cl_reply_msg c) 0 r 0 readreply_size)) \<and>
        (\<exists>x. acb_ret x = 0 \<and> acb_resumed x = acb_resumed x0 \<and>
           co_reply_body (cvbd_finish_aio :: 'b callback) (memcpy (cl_reply_msg c) 0 r 0 readreply_size) s =
           (Ret (), s\<lparr>as_guest := scattered qiov (unat sz) d (nat (sint off)) g0, as_acbs := (as_acbs s)(a \<mapsto> x), as_bhs := as_bhs s @ [a]\<rparr>))"
    if r: "is_read_reply m r d" and s: "as_acbs s a = Some x0" "as_guest s = g0" for r and s :: "'b asys"
  proof -
    let ?r = "memcpy (cl_reply_msg c) 0 r 0 readreply_size"
    have f: "get_header ?r = Header_make False REQ_READ i v a" "get64 ?r 32 = sz"
      using r [unfolded is_read_reply_def m] by (simp_all add: mem_simps size_defs)
    have "?r (read_data_at + j) = d_bytes d (nat (sint off) + j)" if "j < unat sz" for j
      using that r [unfolded is_read_reply_def m] sz by (simp add: mem_simps size_defs)
    then have "store_at (take (unat sz) (iov_addrs qiov)) (\<lambda>i. ?r (read_data_at + i)) 0 g0 = scattered qiov (unat sz) d (nat (sint off)) g0"
      unfolding scattered_def by (intro store_at_cong) simp
    then show ?thesis
      using f s x0 a sz
      by (intro conjI exI [of _ "x0\<lparr>acb_ret := 0, acb_bh := True\<rparr>"])
        (simp_all add: co_reply_body_def Let_def Header_make_def min.coboundedI1 cmd_simps deref_acb_run set_acb_run the_qiov_def on_guest_run
          iov_from_buf_run cvbd_finish_aio_run finish_code_def)
  qed
  then show ?thesis unfolding completes_def by blast
qed

context storage_handler
begin

lemma served_read:
  assumes "msg_size msg = readrequest_size" "addressed REQ_READ (cl_volume c) (msg_bytes msg)" "in_range d (msg_bytes msg)"
  shows "served vol M (H M) c d msg (\<lambda>r. is_read_reply (msg_bytes msg) r d) readreply_size"
  unfolding served_def
proof (intro allI impI)
  fix t w ms
  assume "serving vol M (cl_request_mq c) (cl_volume c) (cl_reply_mq c) t w d"
    "mq_contents M (boost w) (cl_request_mq c) = msg # ms" "\<not> mq_full M (boost w) (cl_reply_mq c)"
  then show "\<exists>r t' w'. (\<forall>fuel. handle_requests (Suc fuel) M (H M) (cl_request_mq c) t w = handle_requests fuel M (H M) (cl_request_mq c) t' w') \<and>
      serving vol M (cl_request_mq c) (cl_volume c) (cl_reply_mq c) t' w' d \<and> is_read_reply (msg_bytes msg) r d \<and>
      mq_contents M (boost w') = (mq_contents M (boost w))(cl_request_mq c := ms,
        cl_reply_mq c := mq_contents M (boost w) (cl_reply_mq c) @ [mk_message r readreply_size])"
    by (rule serve_read [OF _ _ _ assms]) blast
qed

lemma co_readv_posts:
  assumes s: "async_connected vol M n s d" "as_next s < 2 ^ 64"
    and rq: "async_request_aligned bss sector_num nb_sectors" "sz = sector_bytes bss nb_sectors" "off = sector_num * bss"
    and range: "unat sz \<le> max_data_size" "0 \<le> sint off" "nat (sint off) + unat sz \<le> d_size d"
  obtains f s1 where "\<And>sched. cvbd_co_readv M (peer n M) sched stray bss sector_num nb_sectors qiov s = co_end sched (fl_acb f) s1"
    "in_flight vol M n f s1" "handled vol M (H M) f" "fl_acb f = word_of_nat (as_next s)" "fl_acb f \<noteq> 0"
    "fl_others f = as_acbs s" "fl_next f = Suc (as_next s)" "fl_disk f = d"
    "fl_after f = scattered qiov (unat sz) d (nat (sint off)) (as_guest s)"
proof -
  define a :: u64 where "a = word_of_nat (as_next s)"
  define x0 where "x0 = init_acb sz (Some qiov) stray"
  note new = new_acb_run(1) [OF s, of stray, folded a_def] new_acb_run(2) [OF s, folded a_def]
  from s(1) obtain c where c: "client_rel vol M n (as_sys s) c d []" by (auto simp: async_connected_def connected_def)
  from put_header_rel [OF c, of REQ_READ a] obtain y1 c1 where
    one: "put_request_header REQ_READ a (as_sys s) = (Ret (), y1)" "client_rel vol M n y1 c1 d []" "cl_volume c1 = cl_volume c"
      "cl_request_msg c1 = put_header (cl_request_msg c) (Header_make False REQ_READ (scast (cs_id (as_sys s) + 1)) (cl_volume c) a)"
    by blast
  define m where "m = ReadRequest_init (cl_request_msg c1) off sz"
  define c2 where "c2 = c1\<lparr>cl_request_msg := m\<rparr>"
  note two = set_request_msg_rel [OF one(2), of m, folded c2_def]
  have c1: "cs_client y1 = Some c1" using one(2) by (rule client_relE)
  from send_request_rel [OF two(2), of readrequest_size] obtain y3 where
    three: "send_request M (peer n M) readrequest_size (y1\<lparr>cs_client := Some c2\<rparr>) = (Ret (), y3)"
      "client_rel vol M n y3 c2 d [mk_message m readrequest_size]"
    using request_fits by (auto simp: c2_def)
  let ?msg = "mk_message m readrequest_size"
  have fields: "get_header (msg_bytes ?msg) = Header_make False REQ_READ (scast (cs_id (as_sys s) + 1)) (cl_volume c) a"
    "req_offset (msg_bytes ?msg) = off" "req_size (msg_bytes ?msg) = sz"
    by (simp_all add: mk_message_def m_def one(4) mem_simps size_defs)
  define f where "f = \<lparr>fl_acb = a, fl_block = x0, fl_others = as_acbs s, fl_next = Suc (as_next s), fl_before = as_guest s,
    fl_after = scattered qiov (unat sz) d (nat (sint off)) (as_guest s), fl_client = c2, fl_msg = ?msg,
    fl_reply = (\<lambda>r. is_read_reply (msg_bytes ?msg) r d), fl_len = readreply_size, fl_disk = d\<rparr>"
  define s1 where "s1 = s\<lparr>as_next := Suc (as_next s), as_acbs := (as_acbs s)(a \<mapsto> x0), as_sys := y3\<rparr>"
  show thesis
  proof (rule that [of f s1])
    show "cvbd_co_readv M (peer n M) sched stray bss sector_num nb_sectors qiov s = co_end sched (fl_acb f) s1" for sched
      using rq(1) new range(1) one(1) c1 two(1) three(1)
      by (simp add: cvbd_co_readv_def cvbd_co_rw_def co_rw_start_def co_run_def shared_mem_readv_def send_readv_def cbind_run catch_all_run assert_run ret_run
          set_acb_run deref_acb_run on_sys_run this_run x0_def init_acb_def f_def s1_def flip: rq(2,3) m_def)
    have "addressed REQ_READ (cl_volume c2) (msg_bytes ?msg)" "in_range d (msg_bytes ?msg)"
      using range one(3) by (simp_all add: addressed_def in_range_def fields Header_make_def c2_def)
    then show "handled vol M (H M) f"
      using completes_read [OF fields(1,3,2) new(2), of x0 qiov] served_read [of ?msg c2 d M] range(1)
      by (simp add: handled_def f_def x0_def init_acb_def)
    show "in_flight vol M n f s1"
      using s(1) three(2) by (intro in_flight.waiting) (simp_all add: f_def s1_def alive_def async_connected_def)
  qed (use new(2) in \<open>simp_all add: f_def a_def\<close>)
qed

end


section \<open>Flushing\<close>

lemma completes_fsync:
  assumes m: "get_header m = Header_make False REQ_FSYNC i v a" and a: "a \<noteq> 0" and x0: "acb_callback x0"
  shows "completes (cvbd_finish_aio :: 'b callback) c a x0 g0 g0 (is_fsync_reply m) getsizereply_size"
proof -
  have "\<not> h_stop (get_header (memcpy (cl_reply_msg c) 0 r 0 getsizereply_size)) \<and>
        (\<exists>x. acb_ret x = 0 \<and> acb_resumed x = acb_resumed x0 \<and>
           co_reply_body (cvbd_finish_aio :: 'b callback) (memcpy (cl_reply_msg c) 0 r 0 getsizereply_size) s =
           (Ret (), s\<lparr>as_guest := g0, as_acbs := (as_acbs s)(a \<mapsto> x), as_bhs := as_bhs s @ [a]\<rparr>))"
    if r: "is_fsync_reply m r" and s: "as_acbs s a = Some x0" "as_guest s = g0" for r and s :: "'b asys"
  proof -
    let ?r = "memcpy (cl_reply_msg c) 0 r 0 getsizereply_size"
    have f: "get_header ?r = Header_make False REQ_FSYNC i v a" "get32 ?r 32 = 0"
      using r [unfolded is_fsync_reply_def m] by (simp_all add: mem_simps size_defs)
    have "s\<lparr>as_guest := g0\<rparr> = s" using s(2) by simp
    with f s x0 a show ?thesis
      by (intro conjI exI [of _ "x0\<lparr>acb_ret := 0, acb_bh := True\<rparr>"])
        (simp_all add: co_reply_body_def Let_def Header_make_def cmd_simps deref_acb_run set_acb_run
          cvbd_finish_aio_run finish_code_def)
  qed
  then show ?thesis unfolding completes_def by blast
qed

context storage_handler
begin

lemma served_fsync:
  assumes "msg_size msg = fsyncrequest_size" "addressed REQ_FSYNC (cl_volume c) (msg_bytes msg)"
  shows "served vol M (H M) c d msg (is_fsync_reply (msg_bytes msg)) getsizereply_size"
  unfolding served_def
proof (intro allI impI)
  fix t w ms
  assume "serving vol M (cl_request_mq c) (cl_volume c) (cl_reply_mq c) t w d"
    "mq_contents M (boost w) (cl_request_mq c) = msg # ms" "\<not> mq_full M (boost w) (cl_reply_mq c)"
  then show "\<exists>r t' w'. (\<forall>fuel. handle_requests (Suc fuel) M (H M) (cl_request_mq c) t w = handle_requests fuel M (H M) (cl_request_mq c) t' w') \<and>
      serving vol M (cl_request_mq c) (cl_volume c) (cl_reply_mq c) t' w' d \<and> is_fsync_reply (msg_bytes msg) r \<and>
      mq_contents M (boost w') = (mq_contents M (boost w))(cl_request_mq c := ms,
        cl_reply_mq c := mq_contents M (boost w) (cl_reply_mq c) @ [mk_message r getsizereply_size])"
    by (rule serve_fsync [OF _ _ _ assms]) blast
qed

lemma co_flush_posts:
  assumes s: "async_connected vol M n s d" "as_next s < 2 ^ 64"
  obtains f s1 where "\<And>sched. cvbd_co_flush_to_disk M (peer n M) sched stray s = co_end sched (fl_acb f) s1"
    "in_flight vol M n f s1" "handled vol M (H M) f" "fl_acb f = word_of_nat (as_next s)" "fl_acb f \<noteq> 0"
    "fl_others f = as_acbs s" "fl_next f = Suc (as_next s)" "fl_disk f = d" "fl_after f = as_guest s"
proof -
  define a :: u64 where "a = word_of_nat (as_next s)"
  define x0 where "x0 = init_acb 0 None stray"
  note new = new_acb_run(1) [OF s, of stray, folded a_def] new_acb_run(2) [OF s, folded a_def]
  from s(1) obtain c where c: "client_rel vol M n (as_sys s) c d []" by (auto simp: async_connected_def connected_def)
  from put_header_rel [OF c, of REQ_FSYNC a] obtain y1 c1 where
    one: "put_request_header REQ_FSYNC a (as_sys s) = (Ret (), y1)" "client_rel vol M n y1 c1 d []" "cl_volume c1 = cl_volume c"
      "cl_request_msg c1 = put_header (cl_request_msg c) (Header_make False REQ_FSYNC (scast (cs_id (as_sys s) + 1)) (cl_volume c) a)"
    by blast
  let ?msg = "mk_message (cl_request_msg c1) fsyncrequest_size"
  from send_request_rel [OF one(2), of fsyncrequest_size] obtain y3 where
    three: "send_request M (peer n M) fsyncrequest_size y1 = (Ret (), y3)" "client_rel vol M n y3 c1 d [?msg]"
    using request_fits by auto
  have fields: "get_header (msg_bytes ?msg) = Header_make False REQ_FSYNC (scast (cs_id (as_sys s) + 1)) (cl_volume c) a"
    by (simp add: mk_message_def one(4) mem_simps size_defs)
  define f where "f = \<lparr>fl_acb = a, fl_block = x0, fl_others = as_acbs s, fl_next = Suc (as_next s), fl_before = as_guest s,
    fl_after = as_guest s, fl_client = c1, fl_msg = ?msg,
    fl_reply = is_fsync_reply (msg_bytes ?msg), fl_len = getsizereply_size, fl_disk = d\<rparr>"
  define s1 where "s1 = s\<lparr>as_next := Suc (as_next s), as_acbs := (as_acbs s)(a \<mapsto> x0), as_sys := y3\<rparr>"
  show thesis
  proof (rule that [of f s1])
    show "cvbd_co_flush_to_disk M (peer n M) sched stray s = co_end sched (fl_acb f) s1" for sched
      using new one(1) three(1)
      by (simp add: cvbd_co_flush_to_disk_def co_flush_start_def co_run_def shared_mem_fsync_def send_fsync_def cbind_run catch_all_run ret_run
          set_acb_run on_sys_run x0_def init_acb_def f_def s1_def)
    have "addressed REQ_FSYNC (cl_volume c1) (msg_bytes ?msg)"
      using one(3) by (simp add: addressed_def fields Header_make_def)
    then show "handled vol M (H M) f"
      using completes_fsync [OF fields new(2), of x0] served_fsync [of ?msg c1 M d]
      by (simp add: handled_def f_def x0_def init_acb_def)
    show "in_flight vol M n f s1"
      using s(1) three(2) by (intro in_flight.waiting) (simp_all add: f_def s1_def alive_def async_connected_def)
  qed (use new(2) in \<open>simp_all add: f_def a_def\<close>)
qed

end


section \<open>Writing\<close>

text \<open>The bytes a write takes from the guest's memory.\<close>

definition gathered :: "iovec list \<Rightarrow> mem \<Rightarrow> mem" where
  "gathered qiov g = (\<lambda>i. g (iov_addrs qiov ! i))"

context storage_handler
begin

lemma co_writev_posts:
  assumes s: "async_connected vol M n s d" "as_next s < 2 ^ 64"
    and rq: "async_request_aligned bss sector_num nb_sectors" "sz = sector_bytes bss nb_sectors" "off = sector_num * bss"
    and range: "unat sz \<le> max_data_size" "0 \<le> sint off" "nat (sint off) + unat sz \<le> d_size d" "unat sz \<le> iov_size qiov"
  obtains f s1 where "\<And>sched. cvbd_co_writev M (peer n M) sched stray bss sector_num nb_sectors qiov s = co_end sched (fl_acb f) s1"
    "finishing vol M n f s1" "fl_acb f = word_of_nat (as_next s)" "fl_acb f \<noteq> 0"
    "fl_others f = as_acbs s" "fl_next f = Suc (as_next s)"
    "fl_disk f = disk_write d (nat (sint off)) (gathered qiov (as_guest s)) 0 (unat sz)" "fl_after f = as_guest s"
proof -
  define a :: u64 where "a = word_of_nat (as_next s)"
  define x0 where "x0 = init_acb sz (Some qiov) stray"
  note new = new_acb_run(1) [OF s, of stray, folded a_def] new_acb_run(2) [OF s, folded a_def]
  from s(1) obtain c where c: "client_rel vol M n (as_sys s) c d []" by (auto simp: async_connected_def connected_def)
  from put_header_rel [OF c, of REQ_WRITE a] obtain y1 c1 where
    one: "put_request_header REQ_WRITE a (as_sys s) = (Ret (), y1)" "client_rel vol M n y1 c1 d []" "cl_volume c1 = cl_volume c"
      "cl_request_msg c1 = put_header (cl_request_msg c) (Header_make False REQ_WRITE (scast (cs_id (as_sys s) + 1)) (cl_volume c) a)"
    by blast
  define m0 where "m0 = WriteRequest_init (cl_request_msg c1) off sz"
  define data where "data = load_at (take (unat sz) (iov_addrs qiov)) (\<lambda>i. m0 (write_data_at + i)) 0 (as_guest s)"
  define m where "m = memcpy m0 write_data_at data 0 (unat sz)"
  define c2 where "c2 = c1\<lparr>cl_request_msg := m\<rparr>"
  note two = set_request_msg_rel [OF one(2), of m, folded c2_def]
  have c1: "cs_client y1 = Some c1" using one(2) by (rule client_relE)
  let ?msg = "mk_message m writerequest_size"
  from send_request_rel [OF two(2), of writerequest_size] obtain y3 where
    three: "send_request M (peer n M) writerequest_size (y1\<lparr>cs_client := Some c2\<rparr>) = (Ret (), y3)" "client_rel vol M n y3 c2 d [?msg]"
    using request_fits by (auto simp: c2_def)
  have sz: "req_size m0 = sz" "req_size m = sz" by (simp_all add: m_def m0_def mem_simps size_defs)
  have fields: "get_header (msg_bytes ?msg) = Header_make False REQ_WRITE (scast (cs_id (as_sys s) + 1)) (cl_volume c) a"
    "req_offset (msg_bytes ?msg) = off" "req_size (msg_bytes ?msg) = sz"
    by (simp_all add: mk_message_def m_def m0_def one(4) mem_simps size_defs)
  have "write_msg (cl_volume c2) d ?msg"
    using range one(3) by (simp add: write_msg_def addressed_def in_range_def fields Header_make_def c2_def)
  from client_rel_absorb [OF three(2) this]
  have rel: "client_rel vol M n y3 c2 (apply_write d (msg_bytes ?msg)) []" .
  have "msg_bytes ?msg (write_data_at + i) = gathered qiov (as_guest s) (0 + i)" if "i < unat sz" for i
    using that range(1,4) by (simp add: mk_message_def m_def data_def load_at_def gathered_def mem_simps size_defs)
  then have "memcpy (d_bytes d) k (msg_bytes ?msg) write_data_at (unat sz) = memcpy (d_bytes d) k (gathered qiov (as_guest s)) 0 (unat sz)" for k
    by (rule memcpy_cong)
  then have disk: "apply_write d (msg_bytes ?msg) = disk_write d (nat (sint off)) (gathered qiov (as_guest s)) 0 (unat sz)"
    by (simp add: apply_write_def disk_write_def fields)
  define x where "x = x0\<lparr>acb_ret := 0, acb_bh := True\<rparr>"
  define f where "f = \<lparr>fl_acb = a, fl_block = x0, fl_others = as_acbs s, fl_next = Suc (as_next s), fl_before = as_guest s,
    fl_after = as_guest s, fl_client = c2, fl_msg = ?msg, fl_reply = (\<lambda>r. False), fl_len = 0,
    fl_disk = disk_write d (nat (sint off)) (gathered qiov (as_guest s)) 0 (unat sz)\<rparr>"
  define s1 where "s1 = s\<lparr>as_next := Suc (as_next s), as_sys := y3, as_guest := as_guest s, as_acbs := (as_acbs s)(a \<mapsto> x), as_bhs := [a]\<rparr>"
  show thesis
  proof (rule that [of f s1])
    show "cvbd_co_writev M (peer n M) sched stray bss sector_num nb_sectors qiov s = co_end sched (fl_acb f) s1" for sched
      using rq(1) new range(1) one(1) c1 two(1) three(1) s(1)
      by (simp add: cvbd_co_writev_def cvbd_co_rw_def co_rw_start_def co_run_def shared_mem_writev_def send_writev_def cbind_run catch_all_run assert_run ret_run
          set_acb_run deref_acb_run on_sys_run on_guest_run this_run the_qiov_def iov_to_buf_run cvbd_finish_aio_run finish_code_def
          x0_def init_acb_def f_def s1_def x_def async_connected_def sz flip: rq(2,3) m0_def data_def m_def)
    show "finishing vol M n f s1"
      by (rule finishing.scheduled [of f s1 vol M n c2 x])
        (use s(1) rel disk in \<open>simp_all add: f_def s1_def alive_def async_connected_def x_def x0_def init_acb_def\<close>)
  qed (use new(2) in \<open>simp_all add: f_def a_def\<close>)
qed

end


section \<open>The contract of the coroutines\<close>

text \<open>A transfer the driver accepts and sends in one message: aligned, inside the disk, at most 512 KiB.\<close>

definition co_inside :: "u64 \<Rightarrow> u64 \<Rightarrow> u32 \<Rightarrow> nat \<Rightarrow> bool" where
  "co_inside bss sector nb n \<longleftrightarrow> async_request_aligned bss sector nb \<and> xfer_inside bss sector nb n \<and> xfer_size bss nb \<le> max_data_size"

lemma co_insideD:
  assumes "co_inside bss sector nb n"
  shows "async_request_aligned bss sector nb" "unat (sector_bytes bss nb) = xfer_size bss nb" "unat (sector_bytes bss nb) \<le> max_data_size"
    "0 \<le> sint (sector * bss)" "nat (sint (sector * bss)) = xfer_start bss sector"
    "nat (sint (sector * bss)) + unat (sector_bytes bss nb) \<le> n"
proof -
  have x: "xfer_inside bss sector nb n" using assms by (simp add: co_inside_def)
  then have "sint (sector * bss) = int (xfer_start bss sector)"
    using xfer_bytes(1) [OF x] sint_nonneg [of "sector * bss"] by (auto simp: xfer_inside_def)
  with assms x xfer_bytes [OF x]
  show "async_request_aligned bss sector nb" "unat (sector_bytes bss nb) = xfer_size bss nb" "unat (sector_bytes bss nb) \<le> max_data_size"
    "0 \<le> sint (sector * bss)" "nat (sint (sector * bss)) = xfer_start bss sector"
    "nat (sint (sector * bss)) + unat (sector_bytes bss nb) \<le> n"
    by (simp_all add: co_inside_def xfer_inside_def)
qed

lemma in_flight_backlog: "in_flight vol M n f s \<Longrightarrow> backlog M (as_sys s) \<le> max_queue_size"
  by (erule in_flight.cases; (erule finishing.cases)?) (auto simp: backlog_def answered_def elim!: client_relE)

context storage_handler
begin

lemma co_readv_ends:
  assumes s: "async_connected vol M n s d" "as_next s < 2 ^ 64" and x: "co_inside bss sector nb (d_size d)"
  shows "interleaving M (H M) sched \<Longrightarrow> ends vol M n s d (scattered qiov (xfer_size bss nb) d (xfer_start bss sector) (as_guest s))
      (cvbd_co_readv M (peer n M) sched stray bss sector nb qiov s)" (is "?I \<Longrightarrow> ?A")
    and "max_queue_size \<le> k \<Longrightarrow> fst (cvbd_co_readv M (peer n M) (round_robin k M (H M)) stray bss sector nb qiov s) = Ret 0" (is "?K \<Longrightarrow> ?B")
proof -
  note x' = co_insideD [OF x]
  obtain f s1 where f: "\<And>sched. cvbd_co_readv M (peer n M) sched stray bss sector nb qiov s = co_end sched (fl_acb f) s1"
    "in_flight vol M n f s1" "handled vol M (H M) f" "fl_acb f = word_of_nat (as_next s)" "fl_acb f \<noteq> 0"
    "fl_others f = as_acbs s" "fl_next f = Suc (as_next s)" "fl_disk f = d"
    "fl_after f = scattered qiov (xfer_size bss nb) d (xfer_start bss sector) (as_guest s)"
    by (rule co_readv_posts [OF s x'(1) refl refl x'(3,4,6), of stray qiov], unfold x'(2,5), rule that)
  note e = in_flight_ends [OF f(2,3,4) s(2) f(5-7) s(1)]
  show ?A if ?I using e(1) [OF that] by (simp only: f)
  show ?B if ?K using e(2) [of k] in_flight_backlog [OF f(2)] that by (simp add: f(1) size_defs)
qed

lemma co_flush_ends:
  assumes s: "async_connected vol M n s d" "as_next s < 2 ^ 64"
  shows "interleaving M (H M) sched \<Longrightarrow> ends vol M n s d (as_guest s) (cvbd_co_flush_to_disk M (peer n M) sched stray s)" (is "?I \<Longrightarrow> ?A")
    and "max_queue_size \<le> k \<Longrightarrow> fst (cvbd_co_flush_to_disk M (peer n M) (round_robin k M (H M)) stray s) = Ret 0" (is "?K \<Longrightarrow> ?B")
proof -
  obtain f s1 where f: "\<And>sched. cvbd_co_flush_to_disk M (peer n M) sched stray s = co_end sched (fl_acb f) s1"
    "in_flight vol M n f s1" "handled vol M (H M) f" "fl_acb f = word_of_nat (as_next s)" "fl_acb f \<noteq> 0"
    "fl_others f = as_acbs s" "fl_next f = Suc (as_next s)" "fl_disk f = d" "fl_after f = as_guest s"
    by (rule co_flush_posts [OF s, of stray], rule that)
  note e = in_flight_ends [OF f(2,3,4) s(2) f(5-7) s(1)]
  show ?A if ?I using e(1) [OF that] by (simp only: f)
  show ?B if ?K using e(2) [of k] in_flight_backlog [OF f(2)] that by (simp add: f(1) size_defs)
qed

lemma co_writev_ends:
  assumes s: "async_connected vol M n s d" "as_next s < 2 ^ 64" and x: "co_inside bss sector nb (d_size d)" "xfer_size bss nb \<le> iov_size qiov"
  shows "interleaving M (H M) sched \<Longrightarrow>
      ends vol M n s (disk_write d (xfer_start bss sector) (gathered qiov (as_guest s)) 0 (xfer_size bss nb)) (as_guest s)
        (cvbd_co_writev M (peer n M) sched stray bss sector nb qiov s)" (is "?I \<Longrightarrow> ?A")
    and "0 < k \<Longrightarrow> fst (cvbd_co_writev M (peer n M) (round_robin k M (H M)) stray bss sector nb qiov s) = Ret 0" (is "?K \<Longrightarrow> ?B")
proof -
  note x' = co_insideD [OF x(1)]
  have q: "unat (sector_bytes bss nb) \<le> iov_size qiov" using x(2) x'(2) by simp
  obtain f s1 where f: "\<And>sched. cvbd_co_writev M (peer n M) sched stray bss sector nb qiov s = co_end sched (fl_acb f) s1"
    "finishing vol M n f s1" "fl_acb f = word_of_nat (as_next s)" "fl_acb f \<noteq> 0"
    "fl_others f = as_acbs s" "fl_next f = Suc (as_next s)"
    "fl_disk f = disk_write d (xfer_start bss sector) (gathered qiov (as_guest s)) 0 (xfer_size bss nb)" "fl_after f = as_guest s"
    by (rule co_writev_posts [OF s x'(1) refl refl x'(3,4,6) q, of stray], unfold x'(2,5), rule that)
  note e = finishing_ends [OF f(2,3) s(2) f(4-6) s(1)]
  show ?A if ?I using e(1) [OF that] by (simp only: f)
  show ?B if ?K using e(2) [OF that] by (simp only: f)
qed

lemma co_flush_barrier:
  assumes "async_connected vol M n s d" "as_next s < 2 ^ 64" "interleaving M (H M) sched"
    and "cvbd_co_flush_to_disk M (peer n M) sched stray s = (Ret r, s')"
  shows "backlog M (as_sys s') = 0"
proof -
  obtain f s1 where f: "\<And>sched. cvbd_co_flush_to_disk M (peer n M) sched stray s = co_end sched (fl_acb f) s1"
    "in_flight vol M n f s1" "handled vol M (H M) f" "fl_acb f \<noteq> 0"
    by (rule co_flush_posts [OF assms(1,2), of stray], rule that)
  show ?thesis by (rule in_flight_barrier [OF f(2-4) assms(3)]) (use assms(4) in \<open>simp only: f(1)\<close>)
qed

end

text \<open>
  What a sequence of requests relies on, once the schedule lets every request end: each returns 0
  and acts on the disk and on the guest's memory. \<open>k\<close> counts the control blocks that are left.
\<close>

locale coroutine_store =
  fixes rdv :: "'env \<Rightarrow> u64 \<Rightarrow> u64 \<Rightarrow> u32 \<Rightarrow> iovec list \<Rightarrow> ('s, int) cmd"
    and wrv :: "'env \<Rightarrow> u64 \<Rightarrow> u64 \<Rightarrow> u32 \<Rightarrow> iovec list \<Rightarrow> ('s, int) cmd"
    and fls :: "'env \<Rightarrow> ('s, int) cmd"
    and holds :: "'env \<Rightarrow> nat \<Rightarrow> 's \<Rightarrow> disk \<Rightarrow> mem \<Rightarrow> bool"
  assumes rdv_law: "holds env (Suc k) s d g \<Longrightarrow> co_inside bss sector nb (d_size d) \<Longrightarrow>
      \<exists>s'. rdv env bss sector nb qiov s = (Ret 0, s') \<and> holds env k s' d (scattered qiov (xfer_size bss nb) d (xfer_start bss sector) g)"
    and wrv_law: "holds env (Suc k) s d g \<Longrightarrow> co_inside bss sector nb (d_size d) \<Longrightarrow> xfer_size bss nb \<le> iov_size qiov \<Longrightarrow>
      \<exists>s'. wrv env bss sector nb qiov s = (Ret 0, s') \<and>
        holds env k s' (disk_write d (xfer_start bss sector) (gathered qiov g) 0 (xfer_size bss nb)) g"
    and fls_law: "holds env (Suc k) s d g \<Longrightarrow> \<exists>s'. fls env s = (Ret 0, s') \<and> holds env k s' d g"

text \<open>A sequence of requests, each started when the one before it has ended; and its meaning on a disk and a memory.\<close>

datatype co_op = Co_read u64 u32 "iovec list" | Co_write u64 u32 "iovec list" | Co_flush

fun run_co_op :: "(u64 \<Rightarrow> u64 \<Rightarrow> u32 \<Rightarrow> iovec list \<Rightarrow> ('s, int) cmd) \<Rightarrow> (u64 \<Rightarrow> u64 \<Rightarrow> u32 \<Rightarrow> iovec list \<Rightarrow> ('s, int) cmd) \<Rightarrow>
    ('s, int) cmd \<Rightarrow> u64 \<Rightarrow> co_op \<Rightarrow> ('s, int) cmd" where
  "run_co_op rdv wrv fls bss (Co_read sector nb qiov) = rdv bss sector nb qiov"
| "run_co_op rdv wrv fls bss (Co_write sector nb qiov) = wrv bss sector nb qiov"
| "run_co_op rdv wrv fls bss Co_flush = fls"

fun run_co_ops :: "(u64 \<Rightarrow> u64 \<Rightarrow> u32 \<Rightarrow> iovec list \<Rightarrow> ('s, int) cmd) \<Rightarrow> (u64 \<Rightarrow> u64 \<Rightarrow> u32 \<Rightarrow> iovec list \<Rightarrow> ('s, int) cmd) \<Rightarrow>
    ('s, int) cmd \<Rightarrow> u64 \<Rightarrow> co_op list \<Rightarrow> ('s, int list) cmd" where
  "run_co_ops rdv wrv fls bss [] = ret []"
| "run_co_ops rdv wrv fls bss (x # xs) =
     cbind (run_co_op rdv wrv fls bss x) (\<lambda>r. cbind (run_co_ops rdv wrv fls bss xs) (\<lambda>rs. ret (r # rs)))"

fun co_effect :: "u64 \<Rightarrow> co_op \<Rightarrow> disk \<times> mem \<Rightarrow> disk \<times> mem" where
  "co_effect bss (Co_read sector nb qiov) (d, g) = (d, scattered qiov (xfer_size bss nb) d (xfer_start bss sector) g)"
| "co_effect bss (Co_write sector nb qiov) (d, g) = (disk_write d (xfer_start bss sector) (gathered qiov g) 0 (xfer_size bss nb), g)"
| "co_effect bss Co_flush (d, g) = (d, g)"

fun co_op_inside :: "u64 \<Rightarrow> nat \<Rightarrow> co_op \<Rightarrow> bool" where
  "co_op_inside bss n (Co_read sector nb qiov) = co_inside bss sector nb n"
| "co_op_inside bss n (Co_write sector nb qiov) \<longleftrightarrow> co_inside bss sector nb n \<and> xfer_size bss nb \<le> iov_size qiov"
| "co_op_inside bss n Co_flush = True"

lemma co_effect_size [simp]: "d_size (fst (co_effect bss x (d, g))) = d_size d"
  by (cases x) simp_all

context coroutine_store
begin

lemma run_co_op_refines:
  assumes "holds env (Suc k) s d g" "co_op_inside bss (d_size d) x"
  shows "\<exists>s'. run_co_op (rdv env) (wrv env) (fls env) bss x s = (Ret 0, s') \<and>
    holds env k s' (fst (co_effect bss x (d, g))) (snd (co_effect bss x (d, g)))"
  using assms rdv_law [OF assms(1)] wrv_law [OF assms(1)] fls_law [OF assms(1)] by (cases x) auto

lemma run_co_ops_refines:
  assumes "holds env (length xs + k) s d g" "\<forall>x \<in> set xs. co_op_inside bss (d_size d) x"
  shows "\<exists>s'. run_co_ops (rdv env) (wrv env) (fls env) bss xs s = (Ret (replicate (length xs) 0), s') \<and>
    holds env k s' (fst (fold (co_effect bss) xs (d, g))) (snd (fold (co_effect bss) xs (d, g)))"
  using assms
proof (induction xs arbitrary: s d g)
  case (Cons x xs)
  from Cons.prems(1) have "holds env (Suc (length xs + k)) s d g" by simp
  from run_co_op_refines [OF this, of bss x] Cons.prems(2) obtain s1 where
    one: "run_co_op (rdv env) (wrv env) (fls env) bss x s = (Ret 0, s1)"
      "holds env (length xs + k) s1 (fst (co_effect bss x (d, g))) (snd (co_effect bss x (d, g)))" by auto
  from Cons.IH [OF one(2)] Cons.prems(2) one(1) show ?case by (fastforce simp: cbind_run ret_run)
qed (simp add: ret_run)

end

text \<open>The driver's coroutines keep this contract under rounds that empty a full queue.\<close>

definition co_holds :: "('b boost_mq \<Rightarrow> 'b world \<Rightarrow> u64 \<Rightarrow> mqid \<Rightarrow> disk \<Rightarrow> bool) \<Rightarrow>
    'b boost_mq \<times> nat \<times> nat \<times> acb \<Rightarrow> nat \<Rightarrow> 'b asys \<Rightarrow> disk \<Rightarrow> mem \<Rightarrow> bool" where
  "co_holds vol env j s d g \<longleftrightarrow> (case env of (M, n, k, stray) \<Rightarrow> max_queue_size \<le> k \<and> async_connected vol M n s d \<and>
     as_guest s = g \<and> as_next s + j \<le> 2 ^ 64)"

lemma co_holds_step:
  assumes "co_holds vol (M, n, k, stray) (Suc j) s d0 g0" "ends vol M n s d g r" "fst r = Ret 0"
  shows "\<exists>s'. r = (Ret 0, s') \<and> co_holds vol (M, n, k, stray) j s' d g"
  using assms by (cases r) (auto simp: co_holds_def ends_def)

sublocale storage_handler \<subseteq> coro: coroutine_store
  "\<lambda>(M, n, k, stray). cvbd_co_readv M (server_run n M (H M)) (round_robin k M (H M)) stray"
  "\<lambda>(M, n, k, stray). cvbd_co_writev M (server_run n M (H M)) (round_robin k M (H M)) stray"
  "\<lambda>(M, n, k, stray). cvbd_co_flush_to_disk M (server_run n M (H M)) (round_robin k M (H M)) stray" "co_holds vol"
proof (unfold_locales, goal_cases)
  case (1 env j s d g bss sector nb qiov)
  obtain M n k stray where env: "env = (M, n, k, stray)" by (cases env)
  have s: "async_connected vol M n s d" "as_next s < 2 ^ 64" "max_queue_size \<le> k" "as_guest s = g"
    using 1(1) by (auto simp: env co_holds_def)
  show ?case
    unfolding env prod.case s(4) [symmetric]
    by (rule co_holds_step [OF _ co_readv_ends(1) [OF s(1,2) 1(2) round_robin_interleaving] co_readv_ends(2) [OF s(1,2) 1(2) s(3)]])
      (use 1(1) in \<open>simp add: env\<close>)
next
  case (2 env j s d g bss sector nb qiov)
  obtain M n k stray where env: "env = (M, n, k, stray)" by (cases env)
  have s: "async_connected vol M n s d" "as_next s < 2 ^ 64" "0 < k" "as_guest s = g"
    using 2(1) by (auto simp: env co_holds_def size_defs)
  show ?case
    unfolding env prod.case s(4) [symmetric]
    by (rule co_holds_step [OF _ co_writev_ends(1) [OF s(1,2) 2(2,3) round_robin_interleaving] co_writev_ends(2) [OF s(1,2) 2(2,3) s(3)]])
      (use 2(1) in \<open>simp add: env\<close>)
next
  case (3 env j s d g)
  obtain M n k stray where env: "env = (M, n, k, stray)" by (cases env)
  have s: "async_connected vol M n s d" "as_next s < 2 ^ 64" "max_queue_size \<le> k" "as_guest s = g"
    using 3(1) by (auto simp: env co_holds_def)
  show ?case
    unfolding env prod.case s(4) [symmetric]
    by (rule co_holds_step [OF _ co_flush_ends(1) [OF s(1,2) round_robin_interleaving] co_flush_ends(2) [OF s(1,2) s(3)]])
      (use 3(1) in \<open>simp add: env\<close>)
qed

end
