(* ===== verification/Async_Properties.thy ===== *)
theory Async_Properties
  imports Async_Requests
begin

text \<open>
  The properties of the requests of \<open>src/cvbd.c\<close> against the server of \<open>src/server.c\<close>: their effect
  under every interleaving of the server, the reply thread and the main loop, whole sequences of
  requests, the flush as a barrier, and the requests the driver refuses or dies of.
\<close>

section \<open>A sample process\<close>

text \<open>The asynchronous client of the sample volume, with a guest memory and a vector of two pieces.\<close>

definition sample_asys :: "fifo asys" where
  "sample_asys = \<lparr>as_sys = sample_csys, as_guest = (\<lambda>i. word_of_nat i), as_acbs = (\<lambda>_. None), as_next = 1, as_bhs = [],
     as_reply = Running, as_main = Running, as_wait = Not_waiting\<rparr>"

definition sample_iov :: "iovec list" where
  "sample_iov = [\<lparr>iov_base = 8192, iov_len = 1024\<rparr>, \<lparr>iov_base = 65536, iov_len = 3072\<rparr>]"

definition sample_acb :: acb where
  "sample_acb = \<lparr>acb_size = 0, acb_ret = 0, acb_qiov = None, acb_callback = False, acb_bh = False, acb_resumed = False\<rparr>"

lemma sample_async_connected: "async_connected ioh_volume fifo_mq 32 sample_asys sample_disk"
  using sample_connected by (simp add: async_connected_def sample_asys_def)

lemma sample_next: "as_next sample_asys = 1"
  by (simp add: sample_asys_def)

lemma sample_co_inside: "co_inside 512 8 8 (d_size sample_disk)"
  by (simp add: co_inside_def async_request_aligned_def sector_bytes_def CVBD_BLKSIZE_def xfer_inside_def xfer_start_def
      xfer_size_def sample_disk_def size_defs)

lemma sample_iov_size: "iov_size sample_iov = 4096" "xfer_size 512 8 = 4096" "xfer_start 512 8 = 4096"
  by (simp_all add: sample_iov_def xfer_size_def xfer_start_def)

section \<open>One request, in any order of the turns\<close>

text \<open>C10. A read of the asynchronous driver, whatever the order in which the server, the reply thread and
  the main loop take their turns: either work is left when the schedule ends and the coroutine is
  still suspended, or it returns 0, the disk's bytes are scattered over the request's vector, the
  rest of the guest's memory and the disk are unchanged and the control block is freed.\<close>

theorem async_read_any_order:
  fixes M :: "'b boost_mq"
  assumes "async_connected ioh_volume M n s d" "as_next s < 2 ^ 64" "co_inside bss sector nb (d_size d)"
    and "interleaving M (IOHandler M) sched"
  shows "\<exists>s'. cvbd_co_readv M (server_run n M (IOHandler M)) sched stray bss sector nb qiov s = (Fail Hang, s') \<and> \<not> settled M s' \<or>
    cvbd_co_readv M (server_run n M (IOHandler M)) sched stray bss sector nb qiov s = (Ret 0, s') \<and>
      async_connected ioh_volume M n s' d \<and> as_acbs s' = as_acbs s \<and>
      as_guest s' = store_at (take (xfer_size bss nb) (iov_addrs qiov)) (\<lambda>i. d_bytes d (xfer_start bss sector + i)) 0 (as_guest s)"
  using ioh.co_readv_ends(1) [OF assms, of qiov stray]
  by (cases "cvbd_co_readv M (server_run n M (IOHandler M)) sched stray bss sector nb qiov s") (auto simp: ends_def scattered_def)

theorem async_read_any_order_witness:
  "\<exists>s'. cvbd_co_readv fifo_mq (server_run 32 fifo_mq (IOHandler fifo_mq)) (round_robin 32 fifo_mq (IOHandler fifo_mq))
      sample_acb 512 8 8 sample_iov sample_asys = (Ret 0, s') \<and>
    as_guest s' = store_at (take 4096 (iov_addrs sample_iov)) (\<lambda>i. d_bytes sample_disk (4096 + i)) 0 (as_guest sample_asys)"
  using async_read_any_order [OF sample_async_connected _ sample_co_inside round_robin_interleaving [of _ _ 32], of sample_acb sample_iov]
    ioh.co_readv_ends(2) [OF sample_async_connected _ sample_co_inside, of 32 sample_acb sample_iov]
  by (auto simp: sample_next sample_iov_size size_defs)

text \<open>C11. A write of the asynchronous driver, whatever the order of the turns: either the coroutine is
  still suspended with work left, or it returns 0, the disk holds the bytes of the request's
  vector, gathered from the guest's memory, and the memory is unchanged.\<close>

theorem async_write_any_order:
  fixes M :: "'b boost_mq"
  assumes "async_connected ioh_volume M n s d" "as_next s < 2 ^ 64" "co_inside bss sector nb (d_size d)"
    and "xfer_size bss nb \<le> iov_size qiov" "interleaving M (IOHandler M) sched"
  shows "\<exists>s'. cvbd_co_writev M (server_run n M (IOHandler M)) sched stray bss sector nb qiov s = (Fail Hang, s') \<and> \<not> settled M s' \<or>
    cvbd_co_writev M (server_run n M (IOHandler M)) sched stray bss sector nb qiov s = (Ret 0, s') \<and>
      async_connected ioh_volume M n s'
        (disk_write d (xfer_start bss sector) (\<lambda>i. as_guest s (iov_addrs qiov ! i)) 0 (xfer_size bss nb)) \<and>
      as_acbs s' = as_acbs s \<and> as_guest s' = as_guest s"
  using ioh.co_writev_ends(1) [OF assms, of stray]
  by (cases "cvbd_co_writev M (server_run n M (IOHandler M)) sched stray bss sector nb qiov s") (auto simp: ends_def gathered_def)

theorem async_write_any_order_witness:
  "\<exists>s'. cvbd_co_writev fifo_mq (server_run 32 fifo_mq (IOHandler fifo_mq)) (round_robin 32 fifo_mq (IOHandler fifo_mq))
      sample_acb 512 8 8 sample_iov sample_asys = (Ret 0, s') \<and>
    async_connected ioh_volume fifo_mq 32 s' (disk_write sample_disk 4096 (\<lambda>i. as_guest sample_asys (iov_addrs sample_iov ! i)) 0 4096)"
proof -
  have "as_next sample_asys < 2 ^ 64" "xfer_size 512 8 \<le> iov_size sample_iov" by (simp_all add: sample_next sample_iov_size)
  note s = sample_async_connected this(1) sample_co_inside this(2)
  from async_write_any_order [OF s round_robin_interleaving [of _ _ 32], of sample_acb] ioh.co_writev_ends(2) [OF s, of 32 sample_acb]
  show ?thesis by (auto simp: sample_iov_size)
qed

text \<open>C13. A flush is a barrier: when it returns, under any order of the turns, it returns 0 and the
  volume's file itself holds every write that was acknowledged before.\<close>

theorem flush_is_a_barrier:
  fixes M :: "'b boost_mq"
  assumes "async_connected ioh_volume M n s d" "as_next s < 2 ^ 64" "interleaving M (IOHandler M) sched"
    and "cvbd_co_flush_to_disk M (server_run n M (IOHandler M)) sched stray s = (Ret r, s')"
  shows "r = 0 \<and> async_connected ioh_volume M n s' d \<and> (\<exists>v q. ioh_volume M (sv_world (cs_server (as_sys s'))) v q d)"
proof -
  have e: "r = 0" "async_connected ioh_volume M n s' d"
    using ioh.co_flush_ends(1) [OF assms(1-3), of stray] by (simp_all add: assms(4) ends_def)
  from e(2) obtain c where rel: "client_rel ioh_volume M n (as_sys s') c d []" by (auto simp: async_connected_def connected_def)
  then obtain t w d0 ws where w: "cs_client (as_sys s') = Some c"
    "cs_server (as_sys s') = \<lparr>sv_request_mqs = [Some (cl_request_mq c)], sv_threads = [t], sv_world = w\<rparr>"
    "serving ioh_volume M (cl_request_mq c) (cl_volume c) (cl_reply_mq c) t w d0"
    "mq_contents M (boost w) (cl_request_mq c) = ws @ []" "d = foldl (\<lambda>d m. apply_write d (msg_bytes m)) d0 ws" by (rule client_relE)
  with ioh.co_flush_barrier [OF assms] have "ws = []" by (simp add: backlog_def)
  with w have "ioh_volume M (sv_world (cs_server (as_sys s'))) (cl_volume c) (cl_reply_mq c) d" by (simp add: serving_def)
  with e show ?thesis by blast
qed

theorem flush_is_a_barrier_witness:
  "\<exists>s'. cvbd_co_flush_to_disk fifo_mq (server_run 32 fifo_mq (IOHandler fifo_mq)) (round_robin 32 fifo_mq (IOHandler fifo_mq)) sample_acb sample_asys =
      (Ret 0, s') \<and> (\<exists>v q. ioh_volume fifo_mq (sv_world (cs_server (as_sys s'))) v q sample_disk)"
proof -
  have "as_next sample_asys < 2 ^ 64" by (simp add: sample_next)
  note s = sample_async_connected this
  have "max_queue_size \<le> 32" by (simp add: size_defs)
  from ioh.co_flush_ends(2) [OF s this, of sample_acb] obtain s' where
    "cvbd_co_flush_to_disk fifo_mq (server_run 32 fifo_mq (IOHandler fifo_mq)) (round_robin 32 fifo_mq (IOHandler fifo_mq)) sample_acb sample_asys = (Ret 0, s')"
    by (metis prod.collapse)
  with flush_is_a_barrier [OF s round_robin_interleaving this] show ?thesis by blast
qed

section \<open>Sequences of requests\<close>

text \<open>C12. Any sequence of reads, writes and flushes inside the disk, with each part of the process getting
  its turns, returns 0 for every request and leaves the disk and the guest's memory as the same
  sequence of scatters and gathers on a plain byte array does.\<close>

theorem async_sequence_refines_disk:
  fixes M :: "'b boost_mq"
  assumes "async_connected ioh_volume M n s d" "as_next s + length xs \<le> 2 ^ 64" "\<forall>x \<in> set xs. co_op_inside bss (d_size d) x"
    and "max_queue_size \<le> k"
  shows "\<exists>s'. run_co_ops (cvbd_co_readv M (server_run n M (IOHandler M)) (round_robin k M (IOHandler M)) stray)
      (cvbd_co_writev M (server_run n M (IOHandler M)) (round_robin k M (IOHandler M)) stray)
      (cvbd_co_flush_to_disk M (server_run n M (IOHandler M)) (round_robin k M (IOHandler M)) stray) bss xs s =
        (Ret (replicate (length xs) 0), s') \<and>
    async_connected ioh_volume M n s' (fst (fold (co_effect bss) xs (d, as_guest s))) \<and>
    as_guest s' = snd (fold (co_effect bss) xs (d, as_guest s))"
  using ioh.coro.run_co_ops_refines [of "(M, n, k, stray)" xs 0 s d "as_guest s" bss] assms by (simp add: co_holds_def) blast

theorem async_sequence_refines_disk_witness:
  "\<exists>s'. run_co_ops (cvbd_co_readv fifo_mq (server_run 32 fifo_mq (IOHandler fifo_mq)) (round_robin 32 fifo_mq (IOHandler fifo_mq)) sample_acb)
      (cvbd_co_writev fifo_mq (server_run 32 fifo_mq (IOHandler fifo_mq)) (round_robin 32 fifo_mq (IOHandler fifo_mq)) sample_acb)
      (cvbd_co_flush_to_disk fifo_mq (server_run 32 fifo_mq (IOHandler fifo_mq)) (round_robin 32 fifo_mq (IOHandler fifo_mq)) sample_acb)
      512 [Co_write 8 8 sample_iov, Co_flush, Co_read 8 8 sample_iov] sample_asys = (Ret [0, 0, 0], s') \<and>
    as_guest s' = snd (fold (co_effect 512) [Co_write 8 8 sample_iov, Co_flush, Co_read 8 8 sample_iov] (sample_disk, as_guest sample_asys))"
proof -
  let ?xs = "[Co_write 8 8 sample_iov, Co_flush, Co_read 8 8 sample_iov]"
  have "as_next sample_asys + length ?xs \<le> 2 ^ 64" "\<forall>x \<in> set ?xs. co_op_inside 512 (d_size sample_disk) x" "max_queue_size \<le> 32"
    using sample_co_inside by (simp_all add: sample_next sample_iov_size size_defs)
  from async_sequence_refines_disk [OF sample_async_connected this, of sample_acb] show ?thesis
    by (simp add: numeral_3_eq_3) blast
qed

section \<open>Requests that are refused\<close>

text \<open>C21. A misaligned request returns \<open>-EINVAL\<close> without a message, but the control block allocated for it
  is not freed. An aligned request of more than 512 KiB is not split: it fails an assertion, which
  ends the process.\<close>

theorem async_request_refused:
  fixes M :: "'b boost_mq"
  assumes "as_next s < 2 ^ 64" "0 < as_next s"
  shows "if \<not> async_request_aligned bss sector nb
    then cvbd_co_rw M peer sched stray bss sector nb qiov write s =
      (Ret (- EINVAL), s\<lparr>as_acbs := (as_acbs s)(word_of_nat (as_next s) \<mapsto> stray), as_next := Suc (as_next s)\<rparr>)
    else max_data_size < unat (sector_bytes bss nb) \<longrightarrow>
      fst (cvbd_co_rw M peer sched stray bss sector nb qiov write s) = Fail Abort"
proof -
  have "(word_of_nat (as_next s) :: u64) \<noteq> 0"
    using assms by (auto simp: word_of_nat_eq_0_iff dest: dvd_imp_le)
  then show ?thesis
    using assms by (simp add: cvbd_co_rw_def co_rw_start_def co_run_def new_acb_def set_acb_run deref_acb_run cmd_simps Let_def shared_mem_writev_def shared_mem_readv_def
        send_writev_def send_readv_def init_acb_def)
qed

theorem async_request_refused_witness:
  "cvbd_co_rw fifo_mq (\<lambda>x. x) (\<lambda>x. x) sample_acb 512 1 8 sample_iov True sample_asys =
      (Ret (- EINVAL), sample_asys\<lparr>as_acbs := (as_acbs sample_asys)(1 \<mapsto> sample_acb), as_next := 2\<rparr>) \<and>
   fst (cvbd_co_rw fifo_mq (\<lambda>x. x) (\<lambda>x. x) sample_acb 512 8 1032 sample_iov False sample_asys) = Fail Abort"
proof -
  have n: "as_next sample_asys < 2 ^ 64" "0 < as_next sample_asys" by (simp_all add: sample_next)
  have a: "\<not> async_request_aligned 512 1 8" "async_request_aligned 512 8 1032" "max_data_size < unat (sector_bytes 512 1032)"
    by (simp_all add: async_request_aligned_def sector_bytes_def CVBD_BLKSIZE_def size_defs)
  from async_request_refused [OF n, of 512 1 8 fifo_mq "\<lambda>x. x" "\<lambda>x. x" sample_acb sample_iov True] a(1)
    async_request_refused [OF n, of 512 8 1032 fifo_mq "\<lambda>x. x" "\<lambda>x. x" sample_acb sample_iov False] a(2,3)
  show ?thesis by (simp add: sample_next eval_nat_numeral)
qed

end
