(* ===== verification/Async_Session.thy ===== *)
theory Async_Session
  imports Async_Properties
begin

text \<open>
  Opening an image, asking for its length and closing it with the asynchronous client of
  \<open>src/SharedMemClientASync.cpp\<close>. The replies to an open and to a size query only signal a condition
  variable; the main results say exactly when the open returns and when it waits for ever, and
  what the size query returns.
\<close>

section \<open>Replies that are signalled\<close>

text \<open>
  A request whose reply only signals goes through three states of the client and the server: it is
  sent, replied to, and its reply is taken by the reply thread. The laws say how a turn of the
  server and of the reply thread moves between them.
\<close>

definition signal :: "wait_state \<Rightarrow> wait_state" where
  "signal x = (if x = Waiting then Signalled else x)"

lemma signal_simps [simp]: "signal Waiting = Signalled" "signal Not_waiting = Not_waiting"
  by (simp_all add: signal_def)

locale signalled_reply =
  fixes H :: "'b boost_mq \<Rightarrow> 'b handler_ops"
    and sent :: "'env \<Rightarrow> 'b boost_mq \<Rightarrow> 'b csys \<Rightarrow> bool"
    and replied :: "'env \<Rightarrow> 'b boost_mq \<Rightarrow> 'b csys \<Rightarrow> bool"
    and taken :: "'env \<Rightarrow> 'b boost_mq \<Rightarrow> 'b csys \<Rightarrow> bool"
  assumes sent_serve: "sent e M y \<Longrightarrow> backlog M y = Suc k \<Longrightarrow>
      sent e M (serve_one M (H M) y) \<and> backlog M (serve_one M (H M) y) = k \<or> replied e M (serve_one M (H M) y)"
    and sent_backlog: "sent e M y \<Longrightarrow> 0 < backlog M y"
    and replied_serve: "replied e M y \<Longrightarrow> serve_one M (H M) y = y"
    and taken_serve: "taken e M y \<Longrightarrow> serve_one M (H M) y = y"
    and sent_turn: "sent e M (as_sys s) \<Longrightarrow> reply_turn M s = s"
    and replied_turn: "replied e M (as_sys s) \<Longrightarrow> as_reply s = Running \<Longrightarrow>
      \<exists>y. reply_turn M s = s\<lparr>as_sys := y, as_wait := signal (as_wait s)\<rparr> \<and> taken e M y"
    and taken_turn: "taken e M (as_sys s) \<Longrightarrow> reply_turn M s = s"
    and pending: "sent e M (as_sys s) \<or> replied e M (as_sys s) \<Longrightarrow> \<not> settled M s"
begin

text \<open>Once the reply is taken, nothing moves any more.\<close>

lemma taken_steps:
  assumes "(async_step M (H M))\<^sup>*\<^sup>* s t" "taken e M (as_sys s)" "as_bhs s = []"
  shows "t = s"
  using assms
proof (induction rule: rtranclp_induct)
  case (step t u)
  then have "t = s" by simp
  with step(2) show ?case
    using taken_turn [OF assms(2)] taken_serve [OF assms(2)] assms(3)
    by (cases rule: async_step.cases) (simp_all add: server_turn_eq bh_turn_none)
qed simp

text \<open>The states that turns can reach: the request is pending and nobody was signalled, or the reply was taken with a signal.\<close>

abbreviation reaches :: "'env \<Rightarrow> 'b boost_mq \<Rightarrow> 'b asys \<Rightarrow> 'b asys \<Rightarrow> bool" where
  "reaches e M s t \<equiv> \<exists>y. t = s\<lparr>as_sys := y\<rparr> \<and> (sent e M y \<or> replied e M y) \<or>
     t = s\<lparr>as_sys := y, as_wait := signal (as_wait s)\<rparr> \<and> taken e M y"

lemma reaches_serve:
  assumes "reaches e M s t"
  shows "reaches e M s (server_turn M (H M) t)"
proof -
  from assms obtain y where "t = s\<lparr>as_sys := y\<rparr> \<and> (sent e M y \<or> replied e M y) \<or>
     t = s\<lparr>as_sys := y, as_wait := signal (as_wait s)\<rparr> \<and> taken e M y" by blast
  then show ?thesis
  proof (elim disjE conjE)
    assume t: "t = s\<lparr>as_sys := y\<rparr>" "sent e M y"
    from sent_backlog [OF t(2)] obtain k where "backlog M y = Suc k" by (cases "backlog M y") auto
    from sent_serve [OF t(2) this] t(1) show ?thesis by (auto simp: server_turn_eq)
  next
    assume t: "t = s\<lparr>as_sys := y, as_wait := signal (as_wait s)\<rparr>" "taken e M y"
    then show ?thesis by (intro exI [of _ y]) (simp add: server_turn_eq taken_serve)
  qed (auto simp: server_turn_eq replied_serve)
qed

lemma reaches_reply:
  assumes "reaches e M s t" "as_reply s = Running"
  shows "reaches e M s (reply_turn M t)"
proof -
  from assms obtain y where "t = s\<lparr>as_sys := y\<rparr> \<and> (sent e M y \<or> replied e M y) \<or>
     t = s\<lparr>as_sys := y, as_wait := signal (as_wait s)\<rparr> \<and> taken e M y" by blast
  then show ?thesis
  proof (elim disjE conjE)
    assume t: "t = s\<lparr>as_sys := y\<rparr>" "sent e M y"
    then show ?thesis using sent_turn [of e M t] by auto
  next
    assume t: "t = s\<lparr>as_sys := y\<rparr>" "replied e M y"
    then show ?thesis using replied_turn [of e M t] assms(2) by auto
  next
    assume t: "t = s\<lparr>as_sys := y, as_wait := signal (as_wait s)\<rparr>" "taken e M y"
    then show ?thesis using taken_turn [of e M t] by auto
  qed
qed

lemma sent_steps:
  assumes "(async_step M (H M))\<^sup>*\<^sup>* s t" "sent e M (as_sys s) \<or> replied e M (as_sys s)" "as_bhs s = []" "as_reply s = Running"
  shows "reaches e M s t"
  using assms(1)
proof (induction rule: rtranclp_induct)
  case base
  from assms(2) show ?case by (intro exI [of _ "as_sys s"]) simp
next
  case (step t u)
  have bhs: "as_bhs t = []" using step(3) assms(3) by auto
  from step(2) show ?case
  proof (cases rule: async_step.cases)
    case server_step
    with reaches_serve [OF step(3)] show ?thesis by simp
  next
    case reply_step
    with reaches_reply [OF step(3) assms(4)] show ?thesis by simp
  next
    case bh_step
    with bhs step(3) show ?thesis by (simp add: bh_turn_none)
  qed
qed

text \<open>As many rounds as there are messages in front of the reply take it.\<close>

lemma sent_rounds:
  assumes "sent e M (as_sys s)" "backlog M (as_sys s) \<le> k" "as_bhs s = []" "as_reply s = Running"
  shows "\<exists>y. round_robin k M (H M) s = s\<lparr>as_sys := y, as_wait := signal (as_wait s)\<rparr> \<and> taken e M y"
  using assms
proof (induction k arbitrary: s)
  case 0
  then show ?case using sent_backlog by force
next
  case (Suc k)
  let ?t = "server_turn M (H M) s"
  have rr: "round_robin (Suc k) M (H M) s = round_robin k M (H M) (async_round M (H M) s)" for s
    by (simp add: round_robin_def funpow_Suc_right del: funpow.simps)
  from sent_backlog [OF Suc.prems(1)] obtain j where j: "backlog M (as_sys s) = Suc j" by (cases "backlog M (as_sys s)") auto
  from sent_serve [OF Suc.prems(1) j] consider "sent e M (as_sys ?t)" "backlog M (as_sys ?t) = j" | "replied e M (as_sys ?t)"
    by (auto simp: server_turn_eq)
  then show ?case
  proof cases
    case 1
    then have "async_round M (H M) s = ?t"
      using sent_turn Suc.prems(3) by (simp add: async_round_def server_turn_eq bh_turn_none)
    with Suc.IH [OF 1(1)] 1(2) j Suc.prems show ?thesis by (simp add: rr server_turn_eq)
  next
    case 2
    from replied_turn [OF 2] Suc.prems(3,4) obtain y where
      y: "async_round M (H M) s = s\<lparr>as_sys := y, as_wait := signal (as_wait s)\<rparr>" "taken e M y"
      by (auto simp: async_round_def server_turn_eq bh_turn_none)
    have "round_robin k M (H M) (async_round M (H M) s) = async_round M (H M) s"
      using round_robin_interleaving [of M "H M" k] y Suc.prems(3)
      by (intro taken_steps [where e = e]) (simp_all add: interleaving_def)
    with y show ?thesis by (auto simp: rr)
  qed
qed

text \<open>The wait for the signal.\<close>

lemma wait_after_taken:
  assumes "taken e M (as_sys s)" "as_bhs s = []" "interleaving M (H M) env"
  shows "wait_to_complete env s = (Fail Hang, s\<lparr>as_wait := Waiting\<rparr>)"
proof -
  have "env (s\<lparr>as_wait := Waiting\<rparr>) = s\<lparr>as_wait := Waiting\<rparr>"
    using assms by (intro taken_steps [where e = e]) (simp_all add: interleaving_def)
  then show ?thesis by (simp add: wait_to_complete_def)
qed

lemma wait_before_taken:
  assumes "sent e M (as_sys s) \<or> replied e M (as_sys s)" "as_bhs s = []" "as_reply s = Running" "interleaving M (H M) env"
  shows "(\<exists>y. wait_to_complete env s = (Ret (), s\<lparr>as_sys := y, as_wait := Not_waiting\<rparr>) \<and> taken e M y) \<or>
    (\<exists>s'. wait_to_complete env s = (Fail Hang, s') \<and> \<not> settled M s')"
proof -
  have "reaches e M (s\<lparr>as_wait := Waiting\<rparr>) (env (s\<lparr>as_wait := Waiting\<rparr>))"
    using assms by (intro sent_steps) (simp_all add: interleaving_def)
  then show ?thesis
    using pending by (force simp: wait_to_complete_def Let_def)
qed

end


section \<open>The length\<close>

text \<open>A size query of client \<open>c\<close> with message \<open>m\<close>, over the disk \<open>d\<close>.\<close>

definition size_request :: "client \<Rightarrow> message \<Rightarrow> bool" where
  "size_request c m \<longleftrightarrow> msg_size m = getsizerequest_size \<and> addressed REQ_GETSIZE (cl_volume c) (msg_bytes m)"

definition size_sent :: "('b boost_mq \<Rightarrow> 'b world \<Rightarrow> u64 \<Rightarrow> mqid \<Rightarrow> disk \<Rightarrow> bool) \<Rightarrow> nat \<times> client \<times> disk \<times> message \<Rightarrow> 'b boost_mq \<Rightarrow> 'b csys \<Rightarrow> bool" where
  "size_sent vol e M y \<longleftrightarrow> (case e of (n, c, d, m) \<Rightarrow> size_request c m \<and> client_rel vol M n y c d [m])"

definition size_replied :: "('b boost_mq \<Rightarrow> 'b world \<Rightarrow> u64 \<Rightarrow> mqid \<Rightarrow> disk \<Rightarrow> bool) \<Rightarrow> nat \<times> client \<times> disk \<times> message \<Rightarrow> 'b boost_mq \<Rightarrow> 'b csys \<Rightarrow> bool" where
  "size_replied vol e M y \<longleftrightarrow> (case e of (n, c, d, m) \<Rightarrow> size_request c m \<and>
     answered vol M n y c d (\<lambda>r. is_getsize_reply (msg_bytes m) r d) getsizereply_size)"

definition size_taken :: "('b boost_mq \<Rightarrow> 'b world \<Rightarrow> u64 \<Rightarrow> mqid \<Rightarrow> disk \<Rightarrow> bool) \<Rightarrow> nat \<times> client \<times> disk \<times> message \<Rightarrow> 'b boost_mq \<Rightarrow> 'b csys \<Rightarrow> bool" where
  "size_taken vol e M y \<longleftrightarrow> (case e of (n, c, d, m) \<Rightarrow> backlog M y = 0 \<and>
     (\<exists>c'. client_rel vol M n y c' d [] \<and> get64 (cl_reply_msg c') 32 = word_of_nat (d_size d)))"

context storage_handler
begin

lemma served_getsize:
  assumes "size_request c m"
  shows "served vol M (H M) c d m (\<lambda>r. is_getsize_reply (msg_bytes m) r d) getsizereply_size"
  unfolding served_def
proof (intro allI impI)
  fix t w ms
  assume "serving vol M (cl_request_mq c) (cl_volume c) (cl_reply_mq c) t w d"
    "mq_contents M (boost w) (cl_request_mq c) = m # ms" "\<not> mq_full M (boost w) (cl_reply_mq c)"
  then show "\<exists>r t' w'. (\<forall>fuel. handle_requests (Suc fuel) M (H M) (cl_request_mq c) t w = handle_requests fuel M (H M) (cl_request_mq c) t' w') \<and>
      serving vol M (cl_request_mq c) (cl_volume c) (cl_reply_mq c) t' w' d \<and> is_getsize_reply (msg_bytes m) r d \<and>
      mq_contents M (boost w') = (mq_contents M (boost w))(cl_request_mq c := ms,
        cl_reply_mq c := mq_contents M (boost w) (cl_reply_mq c) @ [mk_message r getsizereply_size])"
    by (rule serve_getsize) (use assms in \<open>auto simp: size_request_def\<close>)
qed

lemma client_rel_idle:
  assumes "client_rel vol M n y c d []" "backlog M y = 0"
  shows "serve_one M (H M) y = y"
  using assms(1)
proof (rule client_relE)
  fix t w d0 ws
  assume "cs_client y = Some c" "cs_server y = \<lparr>sv_request_mqs = [Some (cl_request_mq c)], sv_threads = [t], sv_world = w\<rparr>"
    "serving vol M (cl_request_mq c) (cl_volume c) (cl_reply_mq c) t w d0"
  with assms(2) show ?thesis
    using vol_laws by (intro serve_one_idle [where q = "cl_request_mq c" and t = t and w = w]) (auto simp: serving_def backlog_def)
qed

end


text \<open>What the reply thread does with a reply that it only signals.\<close>

lemma co_reply_signals:
  "h_type (get_header r) = type_code REQ_OPEN \<or> h_type (get_header r) = type_code REQ_GETSIZE \<Longrightarrow>
   co_reply_body callback r s = (Ret (), s\<lparr>as_wait := signal (as_wait s)\<rparr>)"
  by (auto simp: co_reply_body_def Let_def signal_completion_def modify_run signal_def)

sublocale storage_handler \<subseteq> sizing: signalled_reply H "size_sent vol" "size_replied vol" "size_taken vol"
proof (unfold_locales, goal_cases)
  case (1 e M y k)
  obtain n c d m where e: "e = (n, c, d, m)" by (cases e)
  from 1(1) have m: "size_request c m" "client_rel vol M n y c d [m]" by (auto simp: e size_sent_def)
  from serve_one_request [OF m(2) served_getsize [OF m(1)]] m(1) 1(2) show ?case
    by (auto simp: e size_sent_def size_replied_def)
next
  case (2 e M y)
  then show ?case by (auto simp: size_sent_def backlog_def elim!: client_relE split: prod.splits)
next
  case (3 e M y)
  then show ?case by (auto simp: size_replied_def split: prod.splits intro: serve_one_answered)
next
  case (4 e M y)
  then show ?case by (auto simp: size_taken_def split: prod.splits intro: client_rel_idle)
next
  case (5 e M s)
  then show ?case by (auto simp: size_sent_def split: prod.splits intro: reply_turn_connected)
next
  case (6 e M s)
  obtain n c d m where e: "e = (n, c, d, m)" by (cases e)
  from 6(1) have m: "size_request c m"
    and a: "answered vol M n (as_sys s) c d (\<lambda>r. is_getsize_reply (msg_bytes m) r d) getsizereply_size"
    by (auto simp: e size_replied_def)
  have r: "h_type (get_header r') = type_code REQ_GETSIZE" "\<not> h_stop (get_header r')" "get64 r' 32 = word_of_nat (d_size d)"
    if "is_getsize_reply (msg_bytes m) r d" "r' = memcpy (cl_reply_msg c) 0 r 0 getsizereply_size" for r r'
    using that m by (simp_all add: size_request_def addressed_def is_getsize_reply_def mem_simps size_defs)
  obtain r y where "is_getsize_reply (msg_bytes m) r d"
    "client_rel vol M n y (c\<lparr>cl_reply_msg := memcpy (cl_reply_msg c) 0 r 0 getsizereply_size\<rparr>) d []" "backlog M y = 0"
    "reply_turn M s = (case co_reply_body cvbd_finish_aio (memcpy (cl_reply_msg c) 0 r 0 getsizereply_size) (s\<lparr>as_sys := y\<rparr>) of
       (Ret _, t) \<Rightarrow> t | (Fail e, t) \<Rightarrow> t\<lparr>as_reply := Dead e\<rparr>)"
    using answered_receives [OF a 6(2)] r(2) by blast
  with r [OF this(1) refl] show ?case
    by (intro exI [of _ y]) (auto simp: e size_taken_def co_reply_signals)
next
  case (7 e M s)
  then show ?case by (auto simp: size_taken_def split: prod.splits intro: reply_turn_connected)
next
  case (8 e M s)
  then show ?case
    by (auto simp: size_sent_def size_replied_def settled_def answered_def elim!: client_relE split: prod.splits)
qed

context storage_handler
begin

text \<open>\<open>send_getsize\<close> up to the read of the reply buffer.\<close>

lemma getsize_posts:
  assumes "client_rel vol M n (as_sys s) c d []"
  obtains y c1 m where "\<And>early. async_send_getsize M (peer n M) early s =
      (let t = early (s\<lparr>as_sys := y\<rparr>) in case cs_client (as_sys t) of None \<Rightarrow> (Fail Undef, t) | Some c \<Rightarrow> (Ret (get64 (cl_reply_msg c) 32), t))"
    "size_sent vol (n, c1, d, m) M y" "cl_reply_msg c1 = cl_reply_msg c"
proof -
  have "cs_client (as_sys s) = Some c" using assms by (rule client_relE)
  then have hdr: "put_request_header REQ_GETSIZE 0 (as_sys s) = (Ret (), (as_sys s)\<lparr>cs_id := cs_id (as_sys s) + 1,
      cs_client := Some (c\<lparr>cl_request_msg := put_header (cl_request_msg c)
        (Header_make False REQ_GETSIZE (scast (cs_id (as_sys s) + 1)) (cl_volume c) 0)\<rparr>)\<rparr>)" (is "_ = (_, ?y1)")
    by (simp add: put_request_header_def set_request_msg_def this_def cmd_simps)
  let ?c1 = "c\<lparr>cl_request_msg := put_header (cl_request_msg c) (Header_make False REQ_GETSIZE (scast (cs_id (as_sys s) + 1)) (cl_volume c) 0)\<rparr>"
  have "client_rel vol M n ?y1 ?c1 d []" by (rule client_rel_frame [OF assms]) simp_all
  from send_request_rel [OF this, of getsizerequest_size] obtain y where
    y: "send_request M (peer n M) getsizerequest_size ?y1 = (Ret (), y)"
      "client_rel vol M n y ?c1 d [mk_message (cl_request_msg ?c1) getsizerequest_size]" using request_fits by auto
  let ?m = "mk_message (cl_request_msg ?c1) getsizerequest_size"
  have "size_request ?c1 ?m"
    by (simp add: size_request_def addressed_def mk_message_def Header_make_def mem_simps size_defs)
  with y hdr show thesis
    by (intro that [of y ?c1 ?m])
      (auto simp: size_sent_def async_send_getsize_def cmd_simps on_sys_run this_def Let_def split: option.split)
qed

end

text \<open>C19. The length query does not wait for its reply. If the other threads do not get to run between its
  send and its return, it returns whatever the reply buffer held before (after an open: the
  server's handle of the volume) whatever the size of the disk; if they work their queues off in
  between, it returns the disk's size.\<close>

theorem async_length_races_its_reply:
  fixes M :: "'b boost_mq"
  assumes "async_connected ioh_volume M n (ab_client b) d" "cs_client (as_sys (ab_client b)) = Some c" "d_size d < 2 ^ 63"
    and "max_queue_size \<le> k"
  shows "fst (async_getlength M (server_run n M (IOHandler M)) (\<lambda>s. s) b) = Ret (sint (get64 (cl_reply_msg c) 32)) \<and>
    fst (async_getlength M (server_run n M (IOHandler M)) (round_robin k M (IOHandler M)) b) = Ret (int (d_size d))"
proof -
  let ?s = "ab_client b"
  from assms(1) obtain c0 where c0: "client_rel ioh_volume M n (as_sys ?s) c0 d []" by (auto simp: async_connected_def connected_def)
  then have "cs_client (as_sys ?s) = Some c0" by (rule client_relE)
  with assms(1,2) c0 have rel: "client_rel ioh_volume M n (as_sys ?s) c d []" "as_bhs ?s = []" "as_reply ?s = Running"
    by (simp_all add: async_connected_def)
  from ioh.getsize_posts [OF rel(1)] obtain y c1 m where
    run: "\<And>early. async_send_getsize M (server_run n M (IOHandler M)) early ?s =
      (let t = early (?s\<lparr>as_sys := y\<rparr>) in case cs_client (as_sys t) of None \<Rightarrow> (Fail Undef, t) | Some c \<Rightarrow> (Ret (get64 (cl_reply_msg c) 32), t))"
    and sent: "size_sent ioh_volume (n, c1, d, m) M y" "cl_reply_msg c1 = cl_reply_msg c" by blast
  have y: "cs_client y = Some c1" "backlog M y \<le> k"
    using sent(1) assms(4) by (auto simp: size_sent_def backlog_def elim!: client_relE)
  obtain y' where y': "round_robin k M (IOHandler M) (?s\<lparr>as_sys := y\<rparr>) = ?s\<lparr>as_sys := y', as_wait := signal (as_wait ?s)\<rparr>"
    "size_taken ioh_volume (n, c1, d, m) M y'"
    using ioh.sizing.sent_rounds [of "(n, c1, d, m)" M "?s\<lparr>as_sys := y\<rparr>" k] sent(1) y(2) rel by auto
  then obtain c' where c': "cs_client y' = Some c'" "get64 (cl_reply_msg c') 32 = word_of_nat (d_size d)"
    by (auto simp: size_taken_def elim!: client_relE)
  have "sint (word_of_nat (d_size d) :: u64) = int (d_size d)"
    using sint_nonneg [of "word_of_nat (d_size d)"] assms(3) by (simp add: unsigned_of_nat take_bit_nat_eq_self)
  with y(1) sent(2) y' c' show ?thesis
    by (simp add: async_getlength_def async_getsize_volume_def on_async_def zoom_run cbind_run ret_run catch_all_run run Let_def)
qed

definition sample_abds :: "fifo abds" where
  "sample_abds = \<lparr>ab_request_alignment = 4096, ab_missingReads = 0, ab_reads = 0, ab_writes = 0, ab_readModifyWrites = 0,
     ab_client = sample_asys\<rparr>"

theorem async_length_races_its_reply_witness:
  "fst (async_getlength fifo_mq (server_run 32 fifo_mq (IOHandler fifo_mq)) (\<lambda>s. s) sample_abds) = Ret 0 \<and>
   fst (async_getlength fifo_mq (server_run 32 fifo_mq (IOHandler fifo_mq)) (round_robin 32 fifo_mq (IOHandler fifo_mq)) sample_abds) = Ret (2 ^ 34)"
proof -
  have c: "cs_client (as_sys (ab_client sample_abds)) = Some sample_client" "ab_client sample_abds = sample_asys"
    "d_size sample_disk < 2 ^ 63" "max_queue_size \<le> 32" "get64 (cl_reply_msg sample_client) 32 = 0" "int (d_size sample_disk) = 2 ^ 34"
    by (simp_all add: sample_abds_def sample_asys_def sample_csys_def sample_client_def sample_disk_def size_defs get64_def)
  from async_length_races_its_reply [OF _ c(1,3,4), of fifo_mq 32] sample_async_connected c show ?thesis by simp
qed

section \<open>Opening\<close>

text \<open>
  A request of client \<open>c\<close> to open the volume \<open>nm\<close>, with the message \<open>m\<close> before the names were put in;
  \<open>v\<close> is the handle and \<open>d\<close> the disk it will get.
\<close>

type_synonym open_call = "nat \<times> client \<times> mem \<times> string \<times> u64 \<times> disk"

definition open_sent :: "open_call \<Rightarrow> 'b boost_mq \<Rightarrow> 'b csys \<Rightarrow> bool" where
  "open_sent e M y \<longleftrightarrow> (case e of (n, c, m, nm, v, d) \<Rightarrow>
     max_queue_size \<le> n \<and> mq_laws M \<and> cs_client y = Some c \<and> cl_request_mq c \<noteq> cl_reply_mq c \<and>
     addressed REQ_OPEN (cl_volume c) m \<and> nul_free nm \<and> length nm < path_max \<and>
     m (volume_name_at + length nm) = 0 \<and> m (reply_mq_name_at + length nm) = 0 \<and>
     (\<exists>t w. cs_server y = \<lparr>sv_request_mqs = [Some (cl_request_mq c)], sv_threads = [t], sv_world = w\<rparr> \<and> th_state t = Running \<and>
        wf_world w \<and> os_script (os w) = [] \<and> brk w < 2 ^ 64 \<and> v = word_of_nat (brk w) \<and> d = opened_disk (os w) nm \<and>
        mq_limits M (boost w) (cl_request_mq c) = (max_queue_size, request_size) \<and>
        mq_contents M (boost w) (cl_request_mq c) = [mk_message (open_request m nm) openrequest_size] \<and>
        mq_names M (boost w) nm = Some (cl_reply_mq c) \<and> mq_limits M (boost w) (cl_reply_mq c) = (max_queue_size, reply_size) \<and>
        mq_contents M (boost w) (cl_reply_mq c) = []))"

text \<open>Once the server has replied, the client would be connected if it held the handle \<open>v\<close>.\<close>

definition with_volume :: "u64 \<Rightarrow> 'b csys \<Rightarrow> 'b csys" where
  "with_volume v y = y\<lparr>cs_client := map_option (\<lambda>c. c\<lparr>cl_volume := v\<rparr>) (cs_client y)\<rparr>"

definition open_replied :: "open_call \<Rightarrow> 'b boost_mq \<Rightarrow> 'b csys \<Rightarrow> bool" where
  "open_replied e M y \<longleftrightarrow> (case e of (n, c, m, nm, v, d) \<Rightarrow> cs_client y = Some c \<and> addressed REQ_OPEN (cl_volume c) m \<and>
     answered ioh_volume M n (with_volume v y) (c\<lparr>cl_volume := v\<rparr>) d (\<lambda>r. is_open_reply m r v) openreply_size)"

definition open_taken :: "open_call \<Rightarrow> 'b boost_mq \<Rightarrow> 'b csys \<Rightarrow> bool" where
  "open_taken e M y \<longleftrightarrow> (case e of (n, c, m, nm, v, d) \<Rightarrow> backlog M y = 0 \<and>
     (\<exists>c'. cs_client y = Some c' \<and> client_rel ioh_volume M n (with_volume v y) (c'\<lparr>cl_volume := v\<rparr>) d [] \<and>
        h_type (get_header (cl_reply_msg c')) = type_code REQ_OPEN \<and> get32 (cl_reply_msg c') 40 = 0 \<and> get64 (cl_reply_msg c') 32 = v))"

lemma with_volume_simps [simp]:
  "cs_server (with_volume v y) = cs_server y" "cs_client y = Some c \<Longrightarrow> cs_client (with_volume v y) = Some (c\<lparr>cl_volume := v\<rparr>)"
  "backlog M (with_volume v y) = backlog M y"
  by (simp_all add: with_volume_def backlog_def split: option.split)

lemma with_volume_serve: "serve_one M H (with_volume v y) = with_volume v (serve_one M H y)"
  by (simp add: serve_one_def with_volume_def)

lemma with_volume_cancel: "with_volume v y = with_volume v z \<Longrightarrow> cs_client y = cs_client z \<Longrightarrow> y = z"
  by (cases y; cases z) (simp add: with_volume_def)

lemma open_sent_serve:
  fixes M :: "'b boost_mq"
  assumes "open_sent e M y"
  shows "open_replied e M (serve_one M (IOHandler M) y)"
proof -
  obtain n c m nm v d where e: "e = (n, c, m, nm, v, d)" by (cases e)
  from assms obtain t w where n: "max_queue_size \<le> n" "mq_laws M" "cs_client y = Some c" "cl_request_mq c \<noteq> cl_reply_mq c"
    and m: "addressed REQ_OPEN (cl_volume c) m" "nul_free nm" "length nm < path_max"
      "m (volume_name_at + length nm) = 0" "m (reply_mq_name_at + length nm) = 0"
    and w: "cs_server y = \<lparr>sv_request_mqs = [Some (cl_request_mq c)], sv_threads = [t], sv_world = w\<rparr>" "th_state t = Running"
      "wf_world w" "os_script (os w) = []" "brk w < 2 ^ 64" "v = word_of_nat (brk w)" "d = opened_disk (os w) nm"
    and q: "mq_limits M (boost w) (cl_request_mq c) = (max_queue_size, request_size)"
      "mq_contents M (boost w) (cl_request_mq c) = [mk_message (open_request m nm) openrequest_size]"
      "mq_names M (boost w) nm = Some (cl_reply_mq c)" "mq_limits M (boost w) (cl_reply_mq c) = (max_queue_size, reply_size)"
      "mq_contents M (boost w) (cl_reply_mq c) = []"
    unfolding e open_sent_def prod.case by (elim conjE exE) (rule that)
  obtain t' w' r where one: "\<And>fuel. handle_requests (Suc fuel) M (IOHandler M) (cl_request_mq c) t w = handle_requests fuel M (IOHandler M) (cl_request_mq c) t' w'"
    and r: "serving ioh_volume M (cl_request_mq c) v (cl_reply_mq c) t' w' d" "is_open_reply m r v"
      "mq_contents M (boost w') (cl_request_mq c) = []" "mq_contents M (boost w') (cl_reply_mq c) = [mk_message r openreply_size]"
    by (rule serve_open [OF n(2) w(2-5) q(1,2) n(4) q(3-5) refl m, folded w(6,7)], rule that)
  have "serve_one M (IOHandler M) y = y\<lparr>cs_server := \<lparr>sv_request_mqs = [Some (cl_request_mq c)], sv_threads = [t'], sv_world = w'\<rparr>\<rparr>"
    using one [of 0] w(1,2) by (simp add: serve_one_def server_run_single del: handle_requests.simps(2))
  with n r m show ?thesis unfolding e open_replied_def prod.case answered_def
    by (intro conjI exI [of _ t'] exI [of _ w'] exI [of _ r]) simp_all
qed

lemma open_replied_turn:
  fixes M :: "'b boost_mq"
  assumes "open_replied e M (as_sys s)" "as_reply s = Running"
  shows "\<exists>y. reply_turn M s = s\<lparr>as_sys := y, as_wait := signal (as_wait s)\<rparr> \<and> open_taken e M y"
proof -
  obtain n c m nm v d where e: "e = (n, c, m, nm, v, d)" by (cases e)
  from assms(1) obtain t w r where a: "cs_client (as_sys s) = Some c" "addressed REQ_OPEN (cl_volume c) m" "max_queue_size \<le> n"
      "is_open_reply m r v"
    and w: "cs_server (as_sys s) = \<lparr>sv_request_mqs = [Some (cl_request_mq c)], sv_threads = [t], sv_world = w\<rparr>"
      "serving ioh_volume M (cl_request_mq c) v (cl_reply_mq c) t w d"
      "mq_contents M (boost w) (cl_request_mq c) = []" "mq_contents M (boost w) (cl_reply_mq c) = [mk_message r openreply_size]"
    by (auto simp: e open_replied_def answered_def)
  define r' where "r' = memcpy (cl_reply_msg c) 0 r 0 openreply_size"
  have r': "h_type (get_header r') = type_code REQ_OPEN" "\<not> h_stop (get_header r')" "get32 r' 40 = 0" "get64 r' 32 = v"
    using a(2) a(4) [unfolded is_open_reply_def] by (simp_all add: r'_def addressed_def mem_simps size_defs)
  have laws: "mq_laws M" "snd (mq_limits M (cs_boost (as_sys s)) (cl_reply_mq c)) \<le> reply_size"
    "mq_contents M (cs_boost (as_sys s)) (cl_reply_mq c) = [mk_message r openreply_size]"
    using w by (simp_all add: serving_def ioh_volume_def)
  from reply_turn_receives [OF laws(1) a(1) assms(2) laws(2,3) r'_def r'(2)] obtain b where
    b: "mq_changes M (boost w) (cl_reply_mq c) [] b"
      "reply_turn M s = (case co_reply_body cvbd_finish_aio r' (s\<lparr>as_sys := (set_boost b (as_sys s))\<lparr>cs_client := Some (c\<lparr>cl_reply_msg := r'\<rparr>)\<rparr>\<rparr>) of
         (Ret _, t) \<Rightarrow> t | (Fail e, t) \<Rightarrow> t\<lparr>as_reply := Dead e\<rparr>)"
    using w(1) by auto
  define y where "y = (set_boost b (as_sys s))\<lparr>cs_client := Some (c\<lparr>cl_reply_msg := r'\<rparr>)\<rparr>"
  have "client_rel ioh_volume M n (with_volume v y) (c\<lparr>cl_reply_msg := r', cl_volume := v\<rparr>) d []"
    using a(3) w b(1) ioh_volume_frame [of M w v "cl_reply_mq c" d "cl_reply_mq c" "[]" b] unfolding client_rel_def
    by (intro conjI exI [of _ t] exI [of _ "w\<lparr>boost := b\<rparr>"] exI [of _ d] exI [of _ "[]"])
      (auto simp: y_def with_volume_def set_boost_def serving_def mq_changes_def)
  moreover have "backlog M y = 0" using w b(1) by (simp add: backlog_def y_def mq_changes_def serving_def)
  ultimately have "open_taken e M y" using r' by (auto simp: e open_taken_def y_def)
  with b(2) r'(1) show ?thesis by (intro exI [of _ y]) (simp add: co_reply_signals flip: y_def)
qed

lemma open_taken_idle:
  fixes M :: "'b boost_mq"
  assumes "open_taken e M y"
  shows "serve_one M (IOHandler M) y = y" "as_sys s = y \<Longrightarrow> reply_turn M s = s" "as_sys s = y \<Longrightarrow> as_bhs s = [] \<Longrightarrow> settled M s"
proof -
  obtain n c m nm v d where e: "e = (n, c, m, nm, v, d)" by (cases e)
  from assms obtain c' where c': "cs_client y = Some c'"
    "client_rel ioh_volume M n (with_volume v y) (c'\<lparr>cl_volume := v\<rparr>) d []" "backlog M y = 0"
    by (auto simp: e open_taken_def)
  from ioh.client_rel_idle [OF c'(2)] c'(3)
  have "with_volume v (serve_one M (IOHandler M) y) = with_volume v y" by (simp add: with_volume_serve)
  then show "serve_one M (IOHandler M) y = y"
    by (rule with_volume_cancel) (simp add: serve_one_def)
  from c'(2) obtain t w d0 where
    w: "cs_server y = \<lparr>sv_request_mqs = [Some (cl_request_mq c')], sv_threads = [t], sv_world = w\<rparr>"
    "serving ioh_volume M (cl_request_mq c') v (cl_reply_mq c') t w d0" "mq_contents M (boost w) (cl_reply_mq c') = []"
    by (rule client_relE) simp
  then show "reply_turn M s = s" if "as_sys s = y"
    using c'(1) that by (intro reply_turn_idle [of M s c' max_queue_size]) (auto simp: serving_def ioh_volume_def)
  show "settled M s" if "as_sys s = y" "as_bhs s = []"
    using w c'(1,3) that by (simp add: settled_def backlog_def)
qed

interpretation opn: signalled_reply IOHandler open_sent open_replied open_taken
proof (unfold_locales, goal_cases)
  case (1 e M y k)
  then show ?case using open_sent_serve by blast
next
  case (2 e M y)
  then show ?case by (auto simp: open_sent_def backlog_def split: prod.splits)
next
  case (3 e M y)
  then obtain n c m nm v d where e: "e = (n, c, m, nm, v, d)" and
    a: "answered ioh_volume M n (with_volume v y) (c\<lparr>cl_volume := v\<rparr>) d (\<lambda>r. is_open_reply m r v) openreply_size"
    by (auto simp: open_replied_def split: prod.splits)
  from ioh.serve_one_answered [OF a] have "with_volume v (serve_one M (IOHandler M) y) = with_volume v y" by (simp add: with_volume_serve)
  then show ?case by (rule with_volume_cancel) (simp add: serve_one_def)
next
  case (4 e M y)
  then show ?case by (rule open_taken_idle(1))
next
  case (5 e M s)
  then obtain c where "mq_laws M" "cs_client (as_sys s) = Some c" "mq_limits M (cs_boost (as_sys s)) (cl_reply_mq c) = (max_queue_size, reply_size)"
    "mq_contents M (cs_boost (as_sys s)) (cl_reply_mq c) = []" by (auto simp: open_sent_def split: prod.splits)
  then show ?case by (rule reply_turn_idle)
next
  case (6 e M s)
  then show ?case by (rule open_replied_turn)
next
  case (7 e M s)
  then show ?case by (rule open_taken_idle(2)) simp
next
  case (8 e M s)
  then show ?case by (auto simp: open_sent_def open_replied_def settled_def answered_def split: prod.splits)
qed

section \<open>The open call\<close>

text \<open>A client that the constructor has made for the volume \<open>nm\<close>, with the server waiting for requests.\<close>

definition ready_to_open :: "'b boost_mq \<Rightarrow> nat \<Rightarrow> string \<Rightarrow> 'b asys \<Rightarrow> bool" where
  "ready_to_open M n nm s \<longleftrightarrow> max_queue_size \<le> n \<and> mq_laws M \<and> nul_free nm \<and> length nm < path_max \<and>
     as_reply s = Running \<and> as_main s = Running \<and> as_bhs s = [] \<and> as_wait s = Not_waiting \<and> 0 < as_next s \<and>
     (\<forall>k. as_next s \<le> k \<longrightarrow> k < 2 ^ 64 \<longrightarrow> as_acbs s (word_of_nat k) = None) \<and>
     (\<exists>c t w. cs_client (as_sys s) = Some c \<and> cl_volume_name c = nm \<and> cl_request_mq c \<noteq> cl_reply_mq c \<and>
        (\<forall>i \<ge> volume_name_at. cl_request_msg c i = 0) \<and>
        cs_server (as_sys s) = \<lparr>sv_request_mqs = [Some (cl_request_mq c)], sv_threads = [t], sv_world = w\<rparr> \<and> th_state t = Running \<and>
        wf_world w \<and> os_script (os w) = [] \<and> brk w < 2 ^ 64 \<and>
        mq_limits M (boost w) (cl_request_mq c) = (max_queue_size, request_size) \<and> mq_contents M (boost w) (cl_request_mq c) = [] \<and>
        mq_names M (boost w) nm = Some (cl_reply_mq c) \<and> mq_limits M (boost w) (cl_reply_mq c) = (max_queue_size, reply_size) \<and>
        mq_contents M (boost w) (cl_reply_mq c) = [])"

lemma open_posts:
  fixes M :: "'b boost_mq"
  assumes "ready_to_open M n nm s"
  obtains y c m v where "on_sys (open_send M peer) s = (Ret (), s\<lparr>as_sys := y\<rparr>)"
    "open_sent (n, c, m, nm, v, opened_disk (os (sv_world (cs_server (as_sys s)))) nm) M y" "as_bhs s = []" "as_reply s = Running" "as_wait s = Not_waiting"
proof -
  from assms obtain c t w where n: "max_queue_size \<le> n" "mq_laws M" "nul_free nm" "length nm < path_max"
    and s: "as_bhs s = []" "as_reply s = Running" "as_wait s = Not_waiting" "cs_client (as_sys s) = Some c" "cl_volume_name c = nm"
      "cl_request_mq c \<noteq> cl_reply_mq c" "\<forall>i \<ge> volume_name_at. cl_request_msg c i = 0"
    and w: "cs_server (as_sys s) = \<lparr>sv_request_mqs = [Some (cl_request_mq c)], sv_threads = [t], sv_world = w\<rparr>" "th_state t = Running"
      "wf_world w" "os_script (os w) = []" "brk w < 2 ^ 64"
    and q: "mq_limits M (boost w) (cl_request_mq c) = (max_queue_size, request_size)" "mq_contents M (boost w) (cl_request_mq c) = []"
      "mq_names M (boost w) nm = Some (cl_reply_mq c)" "mq_limits M (boost w) (cl_reply_mq c) = (max_queue_size, reply_size)"
      "mq_contents M (boost w) (cl_reply_mq c) = []"
    unfolding ready_to_open_def by (elim conjE exE) (rule that)
  define m where "m = put_header (cl_request_msg c) (Header_make False REQ_OPEN (scast (cs_id (as_sys s) + 1)) (cl_volume c) 0)"
  have m: "m (volume_name_at + length nm) = 0" "m (reply_mq_name_at + length nm) = 0" "addressed REQ_OPEN (cl_volume c) m"
    using s(7) by (simp_all add: m_def mem_simps size_defs addressed_def Header_make_def)
  obtain y b where b: "mq_changes M (boost w) (cl_request_mq c) [mk_message (open_request m nm) openrequest_size] b"
    and y: "cs_server y = \<lparr>sv_request_mqs = [Some (cl_request_mq c)], sv_threads = [t], sv_world = w\<lparr>boost := b\<rparr>\<rparr>"
      "cs_client y = Some (c\<lparr>cl_request_msg := open_request m nm\<rparr>)"
      "open_send M peer (as_sys s) = (Ret (), y)"
    by (rule open_message_sent [OF n(2) w(1) s(4) refl s(5) q(1,2) n(3,4) m_def, of peer, folded open_send_def], rule that)
  have "wf_world (w\<lparr>boost := b\<rparr>)" using w(3) by (simp add: wf_world_def)
  then have "open_sent (n, c\<lparr>cl_request_msg := open_request m nm\<rparr>, m, nm, word_of_nat (brk w), opened_disk (os w) nm) M y"
    using n s w m q b y unfolding open_sent_def prod.case
    by (intro conjI exI [of _ t] exI [of _ "w\<lparr>boost := b\<rparr>"]) (simp_all add: mq_changes_def)
  then show thesis using y(3) s w(1) by (intro that [of y]) (simp_all add: on_sys_run)
qed

text \<open>The use of a reply that the reply thread has taken.\<close>

lemma open_result_taken:
  fixes M :: "'b boost_mq"
  assumes "open_taken (n, c, m, nm, v, d) M y"
  shows "\<exists>y'. open_result y = (Ret 0, y') \<and> connected ioh_volume M n y' d"
proof -
  from assms obtain c' where c': "cs_client y = Some c'" "client_rel ioh_volume M n (with_volume v y) (c'\<lparr>cl_volume := v\<rparr>) d []"
    "h_type (get_header (cl_reply_msg c')) = type_code REQ_OPEN" "get32 (cl_reply_msg c') 40 = 0" "get64 (cl_reply_msg c') 32 = v"
    by (auto simp: open_taken_def)
  then have "open_result y = (Ret 0, with_volume v y)"
    by (simp add: open_result_def this_def cmd_simps Let_def with_volume_def)
  with c'(2) show ?thesis by (auto simp: connected_def)
qed

text \<open>The call from the state \<open>t\<close> in which the other threads leave the process before the wait begins.\<close>

lemma create_volume_run:
  assumes "on_sys (open_send M peer) s = (Ret (), s1)"
  shows "async_create_volume M peer early env s =
    catch_all (cbind (wait_to_complete env) (\<lambda>_. on_sys open_result)) (gets (\<lambda>s. - cs_errno (as_sys s))) (early s1)"
  using assms by (simp add: async_create_volume_def async_send_open_def catch_all_run cbind_run modify_run)

lemma open_reached:
  fixes M :: "'b boost_mq"
  assumes "open_sent e M y" "as_bhs s = []" "as_reply s = Running" "as_wait s = Not_waiting" "interleaving M (IOHandler M) early"
  obtains (waits) y' where "early (s\<lparr>as_sys := y\<rparr>) = s\<lparr>as_sys := y'\<rparr>" "open_sent e M y' \<or> open_replied e M y'" "\<not> settled M (s\<lparr>as_sys := y'\<rparr>)"
  | (missed) y' where "early (s\<lparr>as_sys := y\<rparr>) = s\<lparr>as_sys := y'\<rparr>" "open_taken e M y'" "settled M (s\<lparr>as_sys := y'\<rparr>)"
proof -
  have "(async_step M (IOHandler M))\<^sup>*\<^sup>* (s\<lparr>as_sys := y\<rparr>) (early (s\<lparr>as_sys := y\<rparr>))" using assms(5) by (simp add: interleaving_def)
  from opn.sent_steps [OF this, of e] assms(1-3) obtain y' where
    "early (s\<lparr>as_sys := y\<rparr>) = s\<lparr>as_sys := y'\<rparr> \<and> (open_sent e M y' \<or> open_replied e M y') \<or>
     early (s\<lparr>as_sys := y\<rparr>) = s\<lparr>as_sys := y', as_wait := signal (as_wait s)\<rparr> \<and> open_taken e M y'" by auto
  moreover have "s\<lparr>as_sys := y', as_wait := signal (as_wait s)\<rparr> = s\<lparr>as_sys := y'\<rparr>" using assms(4) by simp
  ultimately show thesis
    using opn.pending [of e M "s\<lparr>as_sys := y'\<rparr>"] open_taken_idle(3) [of e M y' "s\<lparr>as_sys := y'\<rparr>"] assms(2)
    by (auto intro: waits missed)
qed


lemma sample_ready: "ready_to_open fifo_mq 32 ''vol'' sample_asys"
  unfolding ready_to_open_def
  by (intro conjI exI [of _ sample_client] exI [of _ sample_thread] exI [of _ sample_world] fifo_mq_laws sample_wf)
    (use sample_names in \<open>simp_all add: sample_asys_def sample_csys_def sample_client_def sample_thread_def sample_mq size_defs\<close>,
     simp_all add: sample_os_def sample_world_def)




text \<open>C18. The lost wake-up: \<open>send_open\<close> waits on a condition variable without a predicate, so if the server
  and the reply thread are done with the request before the caller starts to wait, the signal is
  lost and \<open>create_volume\<close> never returns, whatever runs afterwards, short of a spurious wake-up.\<close>

theorem async_open_lost_wakeup:
  fixes M :: "'b boost_mq"
  assumes "ready_to_open M n nm s" "interleaving M (IOHandler M) early" "interleaving M (IOHandler M) env"
    and "settled M (early (snd (on_sys (open_send M (server_run n M (IOHandler M))) s)))"
  shows "fst (async_create_volume M (server_run n M (IOHandler M)) early env s) = Fail Hang"
proof -
  let ?peer = "server_run n M (IOHandler M)" and ?d = "opened_disk (os (sv_world (cs_server (as_sys s)))) nm"
  obtain y c m v where y: "on_sys (open_send M ?peer) s = (Ret (), s\<lparr>as_sys := y\<rparr>)" "open_sent (n, c, m, nm, v, ?d) M y"
      "as_bhs s = []" "as_reply s = Running" "as_wait s = Not_waiting" by (rule open_posts [OF assms(1)])
  note run = create_volume_run [OF y(1), of early env]
  from y(2-5) assms(2) show ?thesis
  proof (cases rule: open_reached)
    case (waits y')
    then show ?thesis using assms(4) y(1) by simp
  next
    case (missed y')
    have "wait_to_complete env (s\<lparr>as_sys := y'\<rparr>) = (Fail Hang, s\<lparr>as_sys := y', as_wait := Waiting\<rparr>)"
      using opn.wait_after_taken [of "(n, c, m, nm, v, ?d)" M "s\<lparr>as_sys := y'\<rparr>" env] missed(2) y(3) assms(3) by simp
    with missed(1) run show ?thesis by (simp add: catch_all_run cbind_run)
  qed
qed

lemma sample_open_missed:
  "settled fifo_mq (round_robin 1 fifo_mq (IOHandler fifo_mq) (snd (on_sys (open_send fifo_mq (server_run 32 fifo_mq (IOHandler fifo_mq))) sample_asys)))"
proof -
  obtain y c m v where y: "on_sys (open_send fifo_mq (server_run 32 fifo_mq (IOHandler fifo_mq))) sample_asys = (Ret (), sample_asys\<lparr>as_sys := y\<rparr>)"
    "open_sent (32, c, m, ''vol'', v, opened_disk (os (sv_world (cs_server (as_sys sample_asys)))) ''vol'') fifo_mq y"
    by (rule open_posts [OF sample_ready])
  from opn.sent_rounds [OF _ _ , of "(32, c, m, ''vol'', v, opened_disk (os (sv_world (cs_server (as_sys sample_asys)))) ''vol'')" fifo_mq "sample_asys\<lparr>as_sys := y\<rparr>" 1]
  obtain z where z: "round_robin 1 fifo_mq (IOHandler fifo_mq) (sample_asys\<lparr>as_sys := y\<rparr>) =
      sample_asys\<lparr>as_sys := z, as_wait := signal (as_wait sample_asys)\<rparr>"
    "open_taken (32, c, m, ''vol'', v, opened_disk (os (sv_world (cs_server (as_sys sample_asys)))) ''vol'') fifo_mq z"
    using y(2) by (auto simp: sample_asys_def open_sent_def backlog_def)
  from open_taken_idle(3) [OF z(2), of "sample_asys\<lparr>as_sys := z, as_wait := signal (as_wait sample_asys)\<rparr>"] show ?thesis
    using y(1) z(1) by (simp add: sample_asys_def)
qed

theorem async_open_lost_wakeup_witness:
  "fst (async_create_volume fifo_mq (server_run 32 fifo_mq (IOHandler fifo_mq)) (round_robin 1 fifo_mq (IOHandler fifo_mq))
     (round_robin 1000 fifo_mq (IOHandler fifo_mq)) sample_asys) = Fail Hang"
  by (rule async_open_lost_wakeup [OF sample_ready round_robin_interleaving round_robin_interleaving sample_open_missed])

section \<open>Opening and closing an image\<close>

text \<open>The constructor is that of the synchronous client, followed by the start of the reply thread.\<close>

lemma async_make_client_run:
  "async_make_client M stray v nm s =
     (case shared_mem_make_client M stray v nm (as_sys s) of
        (Ret True, y) \<Rightarrow> (Ret True, s\<lparr>as_sys := y, as_reply := Running, as_wait := Not_waiting\<rparr>)
      | (r, y) \<Rightarrow> (r, s\<lparr>as_sys := y\<rparr>))"
proof (cases nm)
  case (Some x)
  then show ?thesis
    by (auto simp: async_make_client_def shared_mem_make_client_def async_client_new_def catch_all_run cbind_run on_sys_run modify_run ret_run
        split: prod.split outcome.split failure.split)
qed (simp add: async_make_client_def shared_mem_make_client_def fail_run)

lemma async_make_client_ready:
  fixes M :: "'b boost_mq"
  assumes sv: "idle_server M (cs_server (as_sys s))" and n: "max_queue_size \<le> n" and nm: "good_name nm"
    and stray: "\<forall>i \<ge> volume_name_at. stray i = 0"
    and s: "as_main s = Running" "as_bhs s = []" "0 < as_next s" "\<forall>k. as_next s \<le> k \<longrightarrow> k < 2 ^ 64 \<longrightarrow> as_acbs s (word_of_nat k) = None"
  shows "(\<not> gets_reply_queue M nm (cs_server (as_sys s)) \<and> (\<exists>s'. async_make_client M stray v (Some nm) s = (Ret False, s'))) \<or>
    (gets_reply_queue M nm (cs_server (as_sys s)) \<and> (\<exists>s'. async_make_client M stray v (Some nm) s = (Ret True, s') \<and> ready_to_open M n nm s' \<and>
       os (sv_world (cs_server (as_sys s'))) = os (sv_world (cs_server (as_sys s))) \<and> as_next s' = as_next s))"
proof -
  from sv obtain q t w where i: "mq_laws M"
    "cs_server (as_sys s) = \<lparr>sv_request_mqs = [Some q], sv_threads = [t], sv_world = w\<rparr>" "th_state t = Running"
    "mq_names M (boost w) (request_mq_name 0) = Some q" "mq_contents M (boost w) q = []"
    "mq_limits M (boost w) q = (max_queue_size, request_size)" "wf_world w" "os_script (os w) = []" "brk w < 2 ^ 64"
    by (rule idle_serverE)
  have nm': "nm \<noteq> []" "nm \<noteq> request_mq_name 0" "nul_free nm" "length nm < path_max" using nm by (auto simp: good_name_def)
  have wf: "wf_world (w\<lparr>boost := b\<rparr>)" for b using i(7) by (simp add: wf_world_def)
  from make_client_run [OF i(1) nm'(1,2) i(2,4), of stray v] show ?thesis
  proof (elim disjE exE conjE, goal_cases)
    case (2 rq b)
    let ?c = "\<lparr>cl_request_mq = q, cl_reply_mq = rq, cl_request_msg = stray, cl_reply_msg = stray, cl_volume_name = nm, cl_volume = v\<rparr>"
    have "ready_to_open M n nm (s\<lparr>as_sys := (as_sys s)\<lparr>cs_client := Some ?c,
        cs_server := \<lparr>sv_request_mqs = [Some q], sv_threads = [t], sv_world = w\<lparr>boost := b\<rparr>\<rparr>\<rparr>, as_reply := Running, as_wait := Not_waiting\<rparr>)"
      using 2 i n nm' s stray wf unfolding ready_to_open_def
      by (intro conjI exI [of _ ?c] exI [of _ t] exI [of _ "w\<lparr>boost := b\<rparr>"]) simp_all
    with 2 i(2) show ?thesis by (intro disjI2) (auto simp: async_make_client_run)
  qed (auto simp: async_make_client_run)
qed

text \<open>When the other threads run only while the caller waits, an open succeeds.\<close>

lemma create_volume_connects:
  fixes M :: "'b boost_mq"
  assumes "ready_to_open M n nm s" "0 < k"
  shows "\<exists>s'. async_create_volume M (server_run n M (IOHandler M)) (\<lambda>s. s) (round_robin k M (IOHandler M)) s = (Ret 0, s') \<and>
    async_connected ioh_volume M n s' (opened_disk (os (sv_world (cs_server (as_sys s)))) nm) \<and> as_next s' = as_next s"
proof -
  let ?peer = "server_run n M (IOHandler M)" and ?d = "opened_disk (os (sv_world (cs_server (as_sys s)))) nm"
  obtain y c m v where y: "on_sys (open_send M ?peer) s = (Ret (), s\<lparr>as_sys := y\<rparr>)" "open_sent (n, c, m, nm, v, ?d) M y"
      "as_bhs s = []" "as_reply s = Running" by (rule open_posts [OF assms(1)])
  have "open_sent (n, c, m, nm, v, ?d) M (as_sys (s\<lparr>as_sys := y, as_wait := Waiting\<rparr>))" "backlog M (as_sys (s\<lparr>as_sys := y, as_wait := Waiting\<rparr>)) \<le> k"
    using y(2) assms(2) by (auto simp: open_sent_def backlog_def)
  from opn.sent_rounds [OF this] y(3,4) obtain z where z: "round_robin k M (IOHandler M) (s\<lparr>as_sys := y, as_wait := Waiting\<rparr>) =
      s\<lparr>as_sys := z, as_wait := Signalled\<rparr>" "open_taken (n, c, m, nm, v, ?d) M z" by auto
  from open_result_taken [OF z(2)] obtain z' where "open_result z = (Ret 0, z')" "connected ioh_volume M n z' ?d" by blast
  with create_volume_run [OF y(1), of "\<lambda>s. s"] z(1) assms(1) show ?thesis
    by (intro exI [of _ "s\<lparr>as_sys := z', as_wait := Not_waiting\<rparr>"])
      (simp add: wait_to_complete_def Let_def catch_all_run cbind_run on_sys_run async_connected_def ready_to_open_def)
qed

text \<open>Opening an image with the asynchronous driver on a server that waits for requests, when the other
  threads run only while \<open>send_open\<close> waits: either the queue cannot be made and the call reports
  \<open>-EINVAL\<close>, or it succeeds and the driver is connected to the disk of the volume's file.\<close>

lemma async_open_runs:
  fixes M :: "'b boost_mq" and b :: "'b abds"
  assumes "idle_server M (cs_server (as_sys (ab_client b)))" "max_queue_size \<le> n" "good_name nm"
    and "\<forall>i \<ge> volume_name_at. stray i = 0" "qdict_get_try_str Q options ''export'' = Some nm"
    and "as_main (ab_client b) = Running" "as_bhs (ab_client b) = []" "0 < as_next (ab_client b)"
      "\<forall>k. as_next (ab_client b) \<le> k \<longrightarrow> k < 2 ^ 64 \<longrightarrow> as_acbs (ab_client b) (word_of_nat k) = None" "0 < k"
  shows "\<exists>r b'. async_open M Q (server_run n M (IOHandler M)) (\<lambda>s. s) (round_robin k M (IOHandler M)) stray v options dict b =
      (Ret (r, async_config Q dict), b') \<and> ab_request_alignment b' = CVBD_BLKSIZE \<and>
    r = (if gets_reply_queue M nm (cs_server (as_sys (ab_client b))) then 0 else - EINVAL) \<and>
    (r = - EINVAL \<or> r = 0 \<and> async_connected ioh_volume M n (ab_client b') (opened_disk (os (sv_world (cs_server (as_sys (ab_client b))))) nm) \<and>
       as_next (ab_client b') = as_next (ab_client b))"
  using async_make_client_ready [OF assms(1-4,6-9), of v]
proof (elim disjE exE conjE)
  fix s' assume s': "async_make_client M stray v (Some nm) (ab_client b) = (Ret True, s')" "ready_to_open M n nm s'"
    "os (sv_world (cs_server (as_sys s'))) = os (sv_world (cs_server (as_sys (ab_client b))))" "as_next s' = as_next (ab_client b)"
    and g: "gets_reply_queue M nm (cs_server (as_sys (ab_client b)))"
  from create_volume_connects [OF s'(2) assms(10)] s'(1,3,4) g assms(5) show ?thesis
    by (auto simp: async_open_def Let_def cmd_simps on_async_def)
qed (use assms(5) in \<open>auto simp: async_open_def Let_def cmd_simps on_async_def\<close>)

definition sample_idle_abds :: "fifo abds" where
  "sample_idle_abds = sample_abds\<lparr>ab_client := sample_asys\<lparr>as_sys := sample_idle_csys\<rparr>\<rparr>"

text \<open>C20. Closing an image leaves the reply thread running on the buffers and the queue object that the
  destructor frees: the next turn of that thread, which the destructor itself causes by its stop
  request, is undefined behaviour. The close itself returns only where the machine lets the
  destructor read past the stop request's header.\<close>

theorem async_close_undefined_turn:
  fixes M :: "'b boost_mq"
  assumes "async_connected ioh_volume M n (ab_client b) d"
  shows "\<exists>b'. async_close M (server_run n M (IOHandler M)) behind b = (if behind = None then Fail Undef else Ret (), b') \<and>
    as_reply (ab_client b') = Running \<and> as_reply (reply_turn M (ab_client b')) = Dead Undef"
proof -
  let ?s = "ab_client b"
  from assms obtain c where c: "client_rel ioh_volume M n (as_sys ?s) c d []" "as_reply ?s = Running"
    by (auto simp: async_connected_def connected_def)
  from ioh.put_header_rel [OF c(1), of REQ_CLOSE 0] obtain y1 c1 where
    one: "put_request_header REQ_CLOSE 0 (as_sys ?s) = (Ret (), y1)" "client_rel ioh_volume M n y1 c1 d []" by blast
  from ioh.send_request_rel [OF one(2), of closerequest_size] obtain y2 where
    two: "send_request M (server_run n M (IOHandler M)) closerequest_size y1 = (Ret (), y2)"
      "client_rel ioh_volume M n y2 c1 d [mk_message (cl_request_msg c1) closerequest_size]" using request_fits by auto
  from two(2) obtain t w d0 where y2: "cs_client y2 = Some c1"
    "cs_server y2 = \<lparr>sv_request_mqs = [Some (cl_request_mq c1)], sv_threads = [t], sv_world = w\<rparr>"
    "serving ioh_volume M (cl_request_mq c1) (cl_volume c1) (cl_reply_mq c1) t w d0" "mq_contents M (boost w) (cl_reply_mq c1) = []"
    by (rule client_relE)
  then have laws: "mq_laws M" "mq_limits M (boost w) (cl_reply_mq c1) = (max_queue_size, reply_size)" by (auto simp: serving_def ioh_volume_def)
  obtain x b1 where rm: "mq_remove M (cl_volume_name c1) (boost w) = (x, b1)" "mq_contents M b1 = mq_contents M (boost w)"
    "mq_limits M b1 = mq_limits M (boost w)" by (rule mq_removeE [OF laws(1)])
  have fits: "msg_size (stop_message reply_size m) \<le> snd (mq_limits M b1 (cl_reply_mq c1))" "\<not> mq_full M b1 (cl_reply_mq c1)" for m
    using rm laws(2) y2(4) by (simp_all add: stop_message_def mk_message_def mq_full_def size_defs)
  have "\<exists>b2. mq_try_send M (cl_reply_mq c1) (stop_message reply_size m) 0 b1 = (MQ_ok True, b2)" for m
    by (rule mq_try_sendE [OF laws(1) fits]) blast
  then obtain b2 where "\<And>m. mq_try_send M (cl_reply_mq c1) (stop_message reply_size m) 0 b1 = (MQ_ok True, b2 m)" by metis
  with one(1) two(1) y2(1,2) rm(1) c(2) show ?thesis
    by (cases behind) (simp_all add: async_close_def on_async_def zoom_run async_release_volume_def async_send_close_def async_destroy_client_def
        async_client_delete_def async_stop_request_def stop_request_run cmd_simps on_sys_run this_def on_mq_def try_mq_def
        mq_outcome_def set_boost_def reply_turn_def)
qed

theorem async_close_undefined_turn_witness:
  "\<exists>b'. async_close fifo_mq (server_run 32 fifo_mq (IOHandler fifo_mq)) (Some (\<lambda>_. 0)) sample_abds = (Ret (), b') \<and>
    as_reply (reply_turn fifo_mq (ab_client b')) = Dead Undef"
proof -
  have "async_connected ioh_volume fifo_mq 32 (ab_client sample_abds) sample_disk"
    using sample_async_connected by (simp add: sample_abds_def)
  from async_close_undefined_turn [OF this, of "Some (\<lambda>_. 0)"] show ?thesis by auto
qed

end
