(* ===== verification/Server_Lifecycle.thy ===== *)
theory Server_Lifecycle
  imports Open_Session
begin

text \<open>
  The life of the server object of \<open>src/SharedMemServer.h\<close> around its request loop: the constructor
  leaves a server that waits for requests, the loop keeps the handler's invariant and applies
  writes in order, a stop request ends it, and the destructor races with the thread, if the read
  past its stop request's header is let through at all.
\<close>

section \<open>The loop\<close>

lemma keeps_dispatch: "keeps wf_world (dispatch (IOHandler M) req reply)"
  unfolding dispatch_def Let_def IOHandler_def handler_ops.simps
  by (intro keeps_if keeps_cbind keeps_ret ioh_keeps)

lemma wf_world_boost [simp]: "wf_world (w\<lparr>boost := b\<rparr>) \<longleftrightarrow> wf_world w"
  by (simp add: wf_world_def)

text \<open>C24. Whatever messages arrive, well-formed or not, and however long the server thread runs, it
  keeps the invariant between volumes and descriptors.\<close>

theorem server_loop_keeps_wf_world:
  assumes "wf_world w"
  shows "wf_world (snd (handle_requests fuel M (IOHandler M) q t w))"
  using assms
proof (induction fuel arbitrary: t w)
  case (Suc fuel)
  have "wf_world w'" if "dispatch (IOHandler M) req reply (w\<lparr>boost := b\<rparr>) = (r, w')" for req reply b r w'
    using keepsD [OF keeps_dispatch _ that] Suc.prems by simp
  with Suc show ?case
    by (auto simp: Let_def split: prod.splits mq_result.splits outcome.splits)
qed simp

theorem server_loop_keeps_wf_world_witness:
  "wf_world sample_world \<and> wf_world (snd (handle_requests 5 fifo_mq (IOHandler fifo_mq) 0
     \<lparr>th_request_msg = (\<lambda>_. 0), th_reply_msg = (\<lambda>_. 0), th_state = Running\<rparr> sample_world))"
  using sample_wf server_loop_keeps_wf_world [OF sample_wf] by blast

text \<open>Requests to write that wait in the queue are applied to the volume's disk in the order they
  were sent, and the thread then waits for more.\<close>

lemma server_applies_writes_in_order:
  fixes M :: "'b boost_mq"
  assumes "serving ioh_volume M q v rq t w d" "mq_contents M (boost w) q = ws" "\<forall>m \<in> set ws. write_msg v d m"
    and "length ws \<le> fuel"
  shows "\<exists>t' w'. handle_requests fuel M (IOHandler M) q t w = (t', w') \<and> th_state t' = Running \<and>
    mq_contents M (boost w') q = [] \<and> ioh_volume M w' v rq (foldl (\<lambda>d m. apply_write d (msg_bytes m)) d ws)"
proof -
  from ioh.serve_writes [OF assms(1) _ assms(3), of "[]"] assms(2) obtain t' w' where
    r: "\<And>fuel. handle_requests (length ws + fuel) M (IOHandler M) q t w = handle_requests fuel M (IOHandler M) q t' w'"
      "serving ioh_volume M q v rq t' w' (foldl (\<lambda>d m. apply_write d (msg_bytes m)) d ws)"
      "mq_changes M (boost w) q [] (boost w')" by auto
  have "handle_requests (fuel - length ws) M (IOHandler M) q t' w' = (t', w')"
    using r(2,3) by (intro handle_requests_wait) (auto simp: serving_def ioh_volume_def mq_changes_def)
  with r(1) [of "fuel - length ws"] r(2,3) assms(4) show ?thesis
    by (auto simp: serving_def mq_changes_def)
qed

text \<open>One write of four bytes waits in the sample state's request queue.\<close>

definition sample_queued :: "fifo world" where
  "sample_queued = sample_world\<lparr>boost := fifo_enqueue 0 (mk_message (sample_request REQ_WRITE) writerequest_size) sample_boost\<rparr>"

lemma sample_write_msg: "write_msg 1 sample_disk (mk_message (sample_request REQ_WRITE) writerequest_size)"
proof -
  have "get_header (msg_bytes (mk_message (sample_request REQ_WRITE) writerequest_size)) = get_header (sample_request REQ_WRITE)"
    "req_offset (msg_bytes (mk_message (sample_request REQ_WRITE) writerequest_size)) = 4096"
    "req_size (msg_bytes (mk_message (sample_request REQ_WRITE) writerequest_size)) = 4"
    by (simp_all add: mk_message_def mem_simps size_defs sample_request_fields)
  then show ?thesis
    by (simp add: write_msg_def addressed_def in_range_def sample_request_fields sample_disk_def size_defs)
qed

lemma sample_serving:
  "serving ioh_volume fifo_mq 0 1 2 sample_thread sample_queued sample_disk"
  "mq_contents fifo_mq (boost sample_queued) 0 = [mk_message (sample_request REQ_WRITE) writerequest_size]"
  using sample_volume
  by (simp_all add: serving_def sample_thread_def sample_queued_def ioh_volume_def fifo_mq_def fifo_enqueue_def
      sample_world_def sample_boost_def)

lemma server_applies_writes_in_order_witness:
  "\<exists>t' w'. handle_requests 1 fifo_mq (IOHandler fifo_mq) 0 sample_thread sample_queued = (t', w') \<and>
    ioh_volume fifo_mq w' 1 2 (apply_write sample_disk (msg_bytes (mk_message (sample_request REQ_WRITE) writerequest_size)))"
  using server_applies_writes_in_order [OF sample_serving, of 1] sample_write_msg by fastforce

lemma stop_message_stops: "header_size \<le> n \<Longrightarrow> h_stop (get_header (recv_into buf (stop_message n m)))"
  by (simp add: stop_message_def mem_simps size_defs)

lemma handle_stop:
  assumes "mq_laws M" "th_state t = Running" "snd (mq_limits M (boost w) q) \<le> request_size"
    and "mq_contents M (boost w) q = msg # ms" "h_stop (get_header (recv_into (th_request_msg t) msg))"
  obtains b where "mq_changes M (boost w) q ms b"
    "\<And>fuel. handle_requests (Suc fuel) M H q t w =
       (t\<lparr>th_request_msg := recv_into (th_request_msg t) msg, th_state := Returned\<rparr>, w\<lparr>boost := b\<rparr>)"
  by (rule handle_requests_turn [OF assms(1-4), of H], rule that) (simp_all add: assms(5))

section \<open>Starting\<close>

text \<open>C28. The constructor of the server throws exactly if Boost does not create its queue; otherwise it
  leaves a server that waits for requests: its only queue exists under the name the clients look
  up, is empty, and its thread runs.\<close>

theorem server_start_idle:
  fixes M :: "'b boost_mq" and w :: "'b world"
  assumes "mq_laws M" "wf_world w" "os_script (os w) = []" "brk w < 2 ^ 64"
  shows "(\<not> mq_creates M (request_mq_name 0) max_queue_size request_size (boost w) \<and>
      (\<exists>e w'. SharedMemServer_new M stray (unat max_queue_num) w = (Fail (Throw e), w'))) \<or>
    (mq_creates M (request_mq_name 0) max_queue_size request_size (boost w) \<and> (\<exists>sv w'. SharedMemServer_new M stray (unat max_queue_num) w = (Ret sv, w') \<and> idle_server M sv \<and>
       sv_world sv = w' \<and> os w' = os w \<and> heap w' = heap w))"
proof -
  obtain x b1 where rm: "mq_remove M (request_mq_name 0) (boost w) = (x, b1)" by (rule mq_removeE [OF assms(1)])
  note run = SharedMemServer_new_def max_queue_num_def cbind_run ret_run gets_run mqr_def mqc_def rm mq_creates_def
  from assms(1) show ?thesis
  proof (cases rule: mq_createE [where nm = "request_mq_name 0" and k = max_queue_size and n = request_size and b = b1])
    case (created q b2)
    then show ?thesis using assms by (intro disjI2) (simp add: run idle_server_def)
  next
    case (thrown e)
    then show ?thesis by (intro disjI1) (simp add: run)
  qed
qed

lemma fifo_mq_create:
  "mq_create_only fifo_mq nm k n b = fifo_create nm k n b"
  "mq_remove fifo_mq nm b = (fifo_lookup b nm \<noteq> None, b\<lparr>f_names := (fifo_lookup b)(nm := None)\<rparr>)"
  by (simp_all add: fifo_mq_def)

theorem server_start_idle_witness:
  "\<exists>sv w'. SharedMemServer_new fifo_mq (\<lambda>_. 0) (unat max_queue_num) sample_world = (Ret sv, w') \<and> idle_server fifo_mq sv"
proof -
  have "os_script (os sample_world) = []" "brk sample_world < 2 ^ 64" by (simp_all add: sample_world_def sample_os_def)
  from server_start_idle [OF fifo_mq_laws sample_wf this, of "\<lambda>_. 0"] show ?thesis by (auto simp: fifo_creates)
qed

section \<open>Stopping\<close>

text \<open>A server with one queue and its thread.\<close>

abbreviation one_thread :: "mqid option \<Rightarrow> thread \<Rightarrow> 'b world \<Rightarrow> 'b server" where
  "one_thread p t w \<equiv> \<lparr>sv_request_mqs = [p], sv_threads = [t], sv_world = w\<rparr>"

lemma run_thread_one:
  "run_thread fuel M H 0 (one_thread (Some q) t w) =
     (if th_state t = Running then case handle_requests fuel M H q t w of (t', w') \<Rightarrow> one_thread (Some q) t' w'
      else one_thread (Some q) t w)"
  by (simp add: run_thread_def split: prod.split)

lemma run_thread_reset:
  "run_thread fuel M H 0 (one_thread None t w) =
     one_thread None (if th_state t = Running then t\<lparr>th_state := Dead Undef\<rparr> else t) w"
  by (simp add: run_thread_def)

lemma join_reset:
  "handle_requests_thread_join fuel M H (one_thread None t w) =
     (case th_state t of Returned \<Rightarrow> (Ret (), one_thread None t w) | Running \<Rightarrow> (Fail Undef, one_thread None (t\<lparr>th_state := Dead Undef\<rparr>) w)
      | Dead e \<Rightarrow> (Fail e, one_thread None t w))"
  by (simp add: handle_requests_thread_join_def join_thread_def cmd_simps run_thread_reset split: thread_state.split)

text \<open>The queues' part of the destructor, for a server with one queue.\<close>

lemma stop_queue_one:
  assumes laws: "mq_laws M" and send: "mq_try_send M q (stop_message request_size m) 0 (boost w) = (MQ_ok sent, b)"
    and run: "one_thread (Some q) t' w' = (if early then run_thread fuel M H 0 (one_thread (Some q) t (w\<lparr>boost := b\<rparr>))
      else one_thread (Some q) t (w\<lparr>boost := b\<rparr>))"
  obtains b' where "stop_queue fuel M H (Some m) early 0 (one_thread (Some q) t w) = (Ret (), one_thread None t' (w'\<lparr>boost := b'\<rparr>))"
    "mq_names M b' = (mq_names M (boost w'))(request_mq_name 0 := None)" "mq_contents M b' = mq_contents M (boost w')"
    "mq_limits M b' = mq_limits M (boost w')"
proof (rule mq_removeE [OF laws, of "request_mq_name 0" "boost w'"])
  fix b' assume rm: "mq_remove M (request_mq_name 0) (boost w') = (mq_names M (boost w') (request_mq_name 0) \<noteq> None, b')"
    and b': "mq_names M b' = (mq_names M (boost w'))(request_mq_name 0 := None)" "mq_contents M b' = mq_contents M (boost w')"
    "mq_limits M b' = mq_limits M (boost w')"
  have "stop_queue fuel M H (Some m) early 0 (one_thread (Some q) t w) = (Ret (), one_thread None t' (w'\<lparr>boost := b'\<rparr>))"
    using send run [symmetric] rm by (cases early) (simp_all add: stop_queue_def stop_request_run cmd_simps mqc_def mqr_def)
  from that [OF this b'] show thesis .
qed

text \<open>
  The destructor on a machine that lets the read past the header through, when the thread gets to
  see the stop request before the queue object is dropped: the writes that waited in the queue are
  on the disk, the thread has returned, the queue object is gone and its name removed. Both
  conditions are needed (below).
\<close>

lemma server_shutdown_drains:
  fixes M :: "'b boost_mq"
  assumes s: "serving ioh_volume M q v rq t w d" and ws: "mq_contents M (boost w) q = ws" "\<forall>m \<in> set ws. write_msg v d m"
    and room: "length ws < max_queue_size" and fuel: "length ws < fuel"
  shows "\<exists>t' w'. SharedMemServer_delete fuel M (IOHandler M) (Some m) True (one_thread (Some q) t w) = (Ret (), one_thread None t' w') \<and>
    th_state t' = Returned \<and> mq_names M (boost w') (request_mq_name 0) = None \<and> mq_contents M (boost w') q = [] \<and>
    ioh_volume M w' v rq (foldl (\<lambda>d m. apply_write d (msg_bytes m)) d ws)"
proof -
  let ?d = "foldl (\<lambda>d m. apply_write d (msg_bytes m)) d ws"
  have laws: "mq_laws M" "th_state t = Running" "mq_limits M (boost w) q = (max_queue_size, request_size)"
    using s ioh.vol_laws by (auto simp: serving_def)
  have "msg_size (stop_message request_size m) \<le> snd (mq_limits M (boost w) q)" "\<not> mq_full M (boost w) q"
    using laws(3) ws(1) room by (simp_all add: stop_message_def mq_full_def)
  from mq_try_sendE [OF laws(1) this] obtain b where
    send: "mq_try_send M q (stop_message request_size m) 0 (boost w) = (MQ_ok True, b)"
      "mq_changes M (boost w) q (ws @ [stop_message request_size m]) b" using ws(1) by auto
  have s1: "serving ioh_volume M q v rq t (w\<lparr>boost := b\<rparr>) d"
    using s send(2) ioh_volume_frame [of M w v rq d q] by (auto simp: serving_def mq_changes_def)
  from ioh.serve_writes [OF s1, of ws "[stop_message request_size m]"] send(2) ws(2) obtain t1 w1 where
    one: "\<And>fuel. handle_requests (length ws + fuel) M (IOHandler M) q t (w\<lparr>boost := b\<rparr>) = handle_requests fuel M (IOHandler M) q t1 w1"
      "serving ioh_volume M q v rq t1 w1 ?d" "mq_changes M b q [stop_message request_size m] (boost w1)" by (auto simp: mq_changes_def)
  have "snd (mq_limits M (boost w1) q) \<le> request_size" "mq_contents M (boost w1) q = stop_message request_size m # []" "th_state t1 = Running"
    using one(2,3) by (auto simp: serving_def mq_changes_def)
  from handle_stop [OF laws(1) this(3,1,2) stop_message_stops, of "IOHandler M"] obtain b2 where
    two: "mq_changes M (boost w1) q [] b2" "\<And>fuel. handle_requests (Suc fuel) M (IOHandler M) q t1 w1 =
       (t1\<lparr>th_request_msg := recv_into (th_request_msg t1) (stop_message request_size m), th_state := Returned\<rparr>, w1\<lparr>boost := b2\<rparr>)" by (auto simp: size_defs)
  define t' where "t' = t1\<lparr>th_request_msg := recv_into (th_request_msg t1) (stop_message request_size m), th_state := Returned\<rparr>"
  have "fuel = length ws + Suc (fuel - length ws - 1)" using fuel by simp
  then have "handle_requests fuel M (IOHandler M) q t (w\<lparr>boost := b\<rparr>) = (t', w1\<lparr>boost := b2\<rparr>)"
    using one(1) two(2) by (metis t'_def)
  then have "one_thread (Some q) t' (w1\<lparr>boost := b2\<rparr>) = (if True then run_thread fuel M (IOHandler M) 0 (one_thread (Some q) t (w\<lparr>boost := b\<rparr>))
      else one_thread (Some q) t (w\<lparr>boost := b\<rparr>))"
    using laws(2) by (simp add: run_thread_one)
  from stop_queue_one [OF laws(1) send(1) this] obtain b3 where
    stop: "stop_queue fuel M (IOHandler M) (Some m) True 0 (one_thread (Some q) t w) = (Ret (), one_thread None t' (w1\<lparr>boost := b3\<rparr>))"
      "mq_names M b3 = (mq_names M b2)(request_mq_name 0 := None)" "mq_contents M b3 = mq_contents M b2" "mq_limits M b3 = mq_limits M b2"
    by auto
  then have "SharedMemServer_delete fuel M (IOHandler M) (Some m) True (one_thread (Some q) t w) = (Ret (), one_thread None t' (w1\<lparr>boost := b3\<rparr>))"
    by (simp add: SharedMemServer_delete_def cmd_simps join_reset) (simp add: t'_def)
  moreover have "ioh_volume M (w1\<lparr>boost := b3\<rparr>) v rq ?d"
    using one(2) two(1) stop(4) by (simp add: serving_def ioh_volume_def mq_changes_def)
  ultimately show ?thesis using stop(2,3) two(1) by (auto simp: t'_def mq_changes_def)
qed

lemma server_shutdown_drains_witness:
  "\<exists>t' w'. SharedMemServer_delete 5 fifo_mq (IOHandler fifo_mq) (Some (\<lambda>_. 0)) True (one_thread (Some 0) sample_thread sample_queued) =
      (Ret (), one_thread None t' w') \<and> th_state t' = Returned"
  using server_shutdown_drains [OF sample_serving, of 5 "\<lambda>_. 0"] sample_write_msg by (fastforce simp: size_defs)

text \<open>The stop request is sent from a \<open>Header\<close>, with the size of a whole request: where the read past the
  object is not let through, the destructor is undefined before it has sent anything.\<close>

lemma server_shutdown_overread:
  "SharedMemServer_delete fuel M H None early (one_thread (Some q) t w) = (Fail Undef, one_thread (Some q) t w)"
  by (simp add: SharedMemServer_delete_def stop_queue_def stop_request_run cmd_simps)

text \<open>C30. A destructor that drops the queue object while the thread still uses it: \<open>reset ()\<close> right
  after the stop request leaves the thread with a null pointer, whatever the queue held, whatever
  bytes follow the stop request's header and whether or not it fitted into the queue. The thread's
  next use of the pointer is undefined. The destructor does not even get there where the machine
  does not let it read past the header (\<open>behind = None\<close>).\<close>

theorem server_shutdown_race:
  fixes M :: "'b boost_mq"
  assumes "mq_laws M" "th_state t = Running" "mq_limits M (boost w) q = (max_queue_size, request_size)"
  shows "\<exists>s'. SharedMemServer_delete fuel M H behind False (one_thread (Some q) t w) = (Fail Undef, s') \<and>
    (behind = None \<longrightarrow> s' = one_thread (Some q) t w) \<and>
    (behind \<noteq> None \<longrightarrow> sv_request_mqs s' = [None] \<and> map th_state (sv_threads s') = [Dead Undef])"
proof (cases behind)
  case (Some m)
  have "msg_size (stop_message request_size m) \<le> snd (mq_limits M (boost w) q)" using assms(3) by (simp add: stop_message_def)
  then obtain sent b where send: "mq_try_send M q (stop_message request_size m) 0 (boost w) = (MQ_ok sent, b)"
    using mq_try_sendE [OF assms(1)] mq_try_send_full [OF assms(1)] by meson
  from stop_queue_one [OF assms(1) send, of t "w\<lparr>boost := b\<rparr>" False fuel H t] obtain b3 where
    "stop_queue fuel M H (Some m) False 0 (one_thread (Some q) t w) = (Ret (), one_thread None t (w\<lparr>boost := b3\<rparr>))" by auto
  then show ?thesis using assms(2) Some by (simp add: SharedMemServer_delete_def cmd_simps join_reset)
qed (simp add: server_shutdown_overread)

theorem server_shutdown_race_witness:
  "\<exists>s'. SharedMemServer_delete 5 fifo_mq (IOHandler fifo_mq) (Some (\<lambda>_. 0)) False (one_thread (Some 0) sample_thread sample_world) =
     (Fail Undef, s') \<and> map th_state (sv_threads s') = [Dead Undef]"
proof -
  have "mq_limits fifo_mq (boost sample_world) 0 = (max_queue_size, request_size)" "th_state sample_thread = Running"
    by (simp_all add: sample_mq sample_thread_def)
  from server_shutdown_race [OF fifo_mq_laws this(2,1), of 5 "IOHandler fifo_mq" "Some (\<lambda>_. 0)"] show ?thesis by auto
qed

end
