(* ===== verification/Many_Volumes.thy ===== *)
theory Many_Volumes
  imports Server_Lifecycle Cvbd_Sync
begin

text \<open>
  Several volumes behind one server. The server of \<open>src/server.c\<close> has one request queue, so the
  messages of all clients share it. Each request acts on the volume whose handle it carries and is
  answered on that volume's queue; the other volumes, if they are backed by other files, do not
  change.
\<close>

section \<open>What a handler leaves alone\<close>

lemma volume_file_frame: "heap w' = heap w \<Longrightarrow> os_fds (os w') = os_fds (os w) \<Longrightarrow> volume_file w' = volume_file w"
  by (simp add: volume_file_def fun_eq_iff split: option.split)

lemma ioh_volume_boost:
  "ioh_volume M w u p e \<Longrightarrow> mq_limits M b = mq_limits M (boost w) \<Longrightarrow> ioh_volume M (w\<lparr>boost := b\<rparr>) u p e"
  by (auto simp: ioh_volume_def)

text \<open>A write changes one file, the requests that are answered change a queue only.\<close>

lemma ioh_write_file:
  assumes "ioh_volume M w v q d" "h_volume (get_header req) = v" "in_range d req"
  obtains g path where "volume_file w v = Some path" "os_files (os w) path \<noteq> None" "ioh_write req w = (Ret (), w\<lparr>os := put_file path g (os w)\<rparr>)"
proof -
  from assms(1) obtain vs path f where v: "v \<noteq> 0" "os_script (os w) = []" "heap w v = Some vs"
    "fd_file (os w) (vs_fd vs) = Some (path, f)" by (rule ioh_volumeE)
  then have "\<exists>g. ioh_write req w = (Ret (), w\<lparr>os := put_file path g (os w)\<rparr>)"
    using assms(2,3)
    by (auto simp: ioh_write_def deref_run cmd_simps sysc_def sys_pwrite_def next_result_def moved_def in_range_def)
  moreover have "volume_file w v = Some path" "os_files (os w) path \<noteq> None" using v by (auto simp: volume_file_def fd_file_iff)
  ultimately show thesis using that by blast
qed

lemma ioh_reply_frame:
  assumes "ioh_volume M w v q d" "h_volume (get_header req) = v"
  shows "ioh_read M req reply w = (Ret r, w') \<Longrightarrow> in_range d req \<Longrightarrow> w' = w\<lparr>boost := boost w'\<rparr>"
    and "ioh_getsize M req reply w = (Ret r, w') \<Longrightarrow> w' = w\<lparr>boost := boost w'\<rparr>"
    and "ioh_fsync M req reply w = (Ret r, w') \<Longrightarrow> w' = w\<lparr>boost := boost w'\<rparr>"
proof -
  from assms(1) obtain vs path f where v: "v \<noteq> 0" "os_script (os w) = []" "heap w v = Some vs"
    "fd_file (os w) (vs_fd vs) = Some (path, f)" by (rule ioh_volumeE)
  note run = deref_run cmd_simps sysc_def next_result_def moved_def mqc_def errno_def Let_def
  show "w' = w\<lparr>boost := boost w'\<rparr>" if "ioh_read M req reply w = (Ret r, w')" "in_range d req"
    using that v assms(2)
    by (auto simp: in_range_def ioh_read_def sys_pread_def run split: if_splits prod.splits mq_result.splits outcome.splits)
  show "w' = w\<lparr>boost := boost w'\<rparr>" if "ioh_getsize M req reply w = (Ret r, w')"
    using that v assms(2)
    by (auto simp: ioh_getsize_def sys_fstat_def run split: if_splits prod.splits mq_result.splits outcome.splits)
  show "w' = w\<lparr>boost := boost w'\<rparr>" if "ioh_fsync M req reply w = (Ret r, w')"
    using that v assms(2)
    by (auto simp: ioh_fsync_def sys_fsync_def run split: if_splits prod.splits mq_result.splits outcome.splits)
qed

text \<open>
  A view of the world beyond volume \<open>v\<close>, which stays true when queues change and when bytes of the
  volume's own file do. Reads, writes, size queries and flushes of the volume keep every such view.
\<close>

locale volume_view =
  fixes P :: "'b boost_mq \<Rightarrow> 'b world \<Rightarrow> u64 \<Rightarrow> bool"
  assumes view_boost: "P M w v \<Longrightarrow> mq_changes M (boost w) q ms b \<Longrightarrow> P M (w\<lparr>boost := b\<rparr>) v"
    and view_file: "P M w v \<Longrightarrow> volume_file w v = Some path \<Longrightarrow> os_files (os w) path \<noteq> None \<Longrightarrow>
      P M (w\<lparr>os := put_file path g (os w)\<rparr>) v"
begin

lemma view_reply:
  assumes "P M w v" "w' = w\<lparr>boost := boost w'\<rparr>" "mq_changes M (boost w) q ms (boost w')"
  shows "P M w' v"
  using view_boost [OF assms(1,3)] assms(2) by simp

lemma view_handler: "storage_handler IOHandler (\<lambda>M w v q d. ioh_volume M w v q d \<and> P M w v)"
proof (unfold_locales, goal_cases)
  case (1 M w v q d)
  then show ?case by (simp add: ioh_volume_def)
next
  case (2 M w v q d q' ms b)
  then show ?case by (simp add: view_boost ioh_volume_frame)
next
  case (3 M w v q d)
  then show ?case by (simp add: ioh_volume_def)
next
  case (4 M w v q d m)
  then have v: "ioh_volume M w v q d" "P M w v" by simp_all
  from ioh.write_law [OF v(1) 4(2,3)] obtain w' where
    w': "ioh_write m w = (Ret (), w')" "boost w' = boost w" "ioh_volume M w' v q (apply_write d m)" by (auto simp: IOHandler_def)
  obtain g path where run: "volume_file w v = Some path" "os_files (os w) path \<noteq> None"
    "ioh_write m w = (Ret (), w\<lparr>os := put_file path g (os w)\<rparr>)"
    by (rule ioh_write_file [OF v(1) 4(2,3)])
  with w' view_file [OF v(2) run(1,2), of g] show ?case by (simp add: IOHandler_def)
next
  case (5 M w v q d m reply)
  then have v: "ioh_volume M w v q d" "P M w v" by simp_all
  from ioh.read_law [OF v(1) 5(2-4), of reply] ioh_reply_frame(1) [OF v(1) 5(2) _ 5(4)] view_reply [OF v(2)] show ?case
    by (fastforce simp: IOHandler_def)
next
  case (6 M w v q d m reply)
  then have v: "ioh_volume M w v q d" "P M w v" by simp_all
  from ioh.getsize_law [OF v(1) 6(2,3), of reply] ioh_reply_frame(2) [OF v(1) 6(2)] view_reply [OF v(2)] show ?case
    by (fastforce simp: IOHandler_def)
next
  case (7 M w v q d m reply)
  then have v: "ioh_volume M w v q d" "P M w v" by simp_all
  from ioh.fsync_law [OF v(1) 7(2,3), of reply] ioh_reply_frame(3) [OF v(1) 7(2)] view_reply [OF v(2)] show ?case
    by (fastforce simp: IOHandler_def)
qed

end

section \<open>One volume beside others\<close>

text \<open>
  Volume \<open>v\<close> stores \<open>d\<close>, and each of the volumes \<open>F\<close> (handle, reply queue, disk) is backed by another
  file. \<open>at\<close> gives the file behind each handle.
\<close>

definition others_kept :: "(u64 \<Rightarrow> string option) \<Rightarrow> (u64 \<times> mqid \<times> disk) set \<Rightarrow> 'b boost_mq \<Rightarrow> 'b world \<Rightarrow> u64 \<Rightarrow> bool" where
  "others_kept at F M w v \<longleftrightarrow> volume_file w = at \<and> (\<forall>(u, p, e) \<in> F. ioh_volume M w u p e \<and> at u \<noteq> at v)"

definition ioh_beside :: "(u64 \<Rightarrow> string option) \<Rightarrow> (u64 \<times> mqid \<times> disk) set \<Rightarrow>
    'b boost_mq \<Rightarrow> 'b world \<Rightarrow> u64 \<Rightarrow> mqid \<Rightarrow> disk \<Rightarrow> bool" where
  "ioh_beside at F = (\<lambda>M w v q d. ioh_volume M w v q d \<and> others_kept at F M w v)"

lemmas ioh_beside_defs = ioh_beside_def others_kept_def

interpretation others_view: volume_view "others_kept at F" for at F
proof unfold_locales
  show "others_kept at F M (w\<lparr>boost := b\<rparr>) v" if "others_kept at F M w v" "mq_changes M (boost w) q ms b"
    for M :: "'a boost_mq" and w v q ms b
    using that volume_file_frame [of "w\<lparr>boost := b\<rparr>" w] ioh_volume_boost [of M w _ _ _ b]
    by (auto simp: others_kept_def mq_changes_def)
  show "others_kept at F M (w\<lparr>os := put_file path g (os w)\<rparr>) v" if "others_kept at F M w v" "volume_file w v = Some path"
    for M :: "'a boost_mq" and w v path g
    using that volume_file_frame [of "w\<lparr>os := put_file path g (os w)\<rparr>" w]
    by (auto simp: others_kept_def put_file_def [of path g "os w"] intro!: ioh_volume_other [unfolded put_file_def])
qed

interpretation beside: storage_handler IOHandler "ioh_beside at F" for at F
  unfolding ioh_beside_def by (rule others_view.view_handler)

section \<open>Many volumes behind one request queue\<close>

text \<open>
  What one request for volume \<open>v\<close> asks of its disk \<open>d\<close>: the messages it is answered with and the
  disk it leaves. A write is not answered.
\<close>

inductive answers :: "u64 \<Rightarrow> disk \<Rightarrow> message \<Rightarrow> message list \<Rightarrow> disk \<Rightarrow> bool" where
  a_write: "write_msg v d m \<Longrightarrow> answers v d m [] (apply_write d (msg_bytes m))"
| a_read: "msg_size m = readrequest_size \<Longrightarrow> addressed REQ_READ v (msg_bytes m) \<Longrightarrow> in_range d (msg_bytes m) \<Longrightarrow>
    is_read_reply (msg_bytes m) r d \<Longrightarrow> answers v d m [mk_message r readreply_size] d"
| a_getsize: "msg_size m = getsizerequest_size \<Longrightarrow> addressed REQ_GETSIZE v (msg_bytes m) \<Longrightarrow>
    is_getsize_reply (msg_bytes m) r d \<Longrightarrow> answers v d m [mk_message r getsizereply_size] d"
| a_fsync: "msg_size m = fsyncrequest_size \<Longrightarrow> addressed REQ_FSYNC v (msg_bytes m) \<Longrightarrow>
    is_fsync_reply (msg_bytes m) r \<Longrightarrow> answers v d m [mk_message r getsizereply_size] d"

text \<open>The requests \<open>ms\<close>, one after the other.\<close>

inductive answers_all :: "u64 \<Rightarrow> disk \<Rightarrow> message list \<Rightarrow> message list \<Rightarrow> disk \<Rightarrow> bool" where
  Nil: "answers_all v d [] [] d"
| Cons: "answers v d m rs d' \<Longrightarrow> answers_all v d' ms rs' d'' \<Longrightarrow> answers_all v d (m # ms) (rs @ rs') d''"

text \<open>A message that a client of volume \<open>v\<close> may send: a write or read inside its disk \<open>d\<close>, a size query or a flush.\<close>

definition own_request :: "u64 \<Rightarrow> disk \<Rightarrow> message \<Rightarrow> bool" where
  "own_request v d m \<longleftrightarrow> write_msg v d m \<or>
     msg_size m = readrequest_size \<and> addressed REQ_READ v (msg_bytes m) \<and> in_range d (msg_bytes m) \<or>
     msg_size m = getsizerequest_size \<and> addressed REQ_GETSIZE v (msg_bytes m) \<or>
     msg_size m = fsyncrequest_size \<and> addressed REQ_FSYNC v (msg_bytes m)"

definition for_volume :: "u64 \<Rightarrow> message \<Rightarrow> bool" where
  "for_volume v m \<longleftrightarrow> h_volume (get_header (msg_bytes m)) = v"

definition wants_reply :: "message \<Rightarrow> bool" where
  "wants_reply m \<longleftrightarrow> h_type (get_header (msg_bytes m)) \<noteq> type_code REQ_WRITE"

lemma own_request_volume: "own_request v d m \<Longrightarrow> for_volume u m \<longleftrightarrow> u = v"
  by (auto simp: own_request_def write_msg_def addressed_def for_volume_def)

lemma own_request_size: "d_size d = d_size d' \<Longrightarrow> own_request v d = own_request v d'"
  by (simp add: own_request_def write_msg_def in_range_def fun_eq_iff)

lemma answers_size: "answers v d m rs d' \<Longrightarrow> d_size d' = d_size d"
  by (induction rule: answers.induct) simp_all

lemma answers_length: "answers v d m rs d' \<Longrightarrow> length rs = (if wants_reply m then 1 else 0)"
  by (induction rule: answers.induct) (auto simp: wants_reply_def write_msg_def addressed_def)

context storage_handler
begin

lemma serve_own:
  assumes s: "serving vol M q v rq t w d" "mq_contents M (boost w) q = m # ms" "own_request v d m"
    and room: "wants_reply m \<Longrightarrow> \<not> mq_full M (boost w) rq"
  shows "\<exists>t' w' rs d'. (\<forall>fuel. handle_requests (Suc fuel) M (H M) q t w = handle_requests fuel M (H M) q t' w') \<and>
    serving vol M q v rq t' w' d' \<and> answers v d m rs d' \<and> mq_limits M (boost w') = mq_limits M (boost w) \<and>
    mq_contents M (boost w') = (mq_contents M (boost w))(q := ms, rq := mq_contents M (boost w) rq @ rs)"
  using s(3) unfolding own_request_def
proof (elim disjE conjE)
  assume m: "write_msg v d m"
  have "q \<noteq> rq" using s(1) by (simp add: serving_def)
  obtain t' w' where "\<And>fuel. handle_requests (Suc fuel) M (H M) q t w = handle_requests fuel M (H M) q t' w'"
    "serving vol M q v rq t' w' (apply_write d (msg_bytes m))" "mq_changes M (boost w) q ms (boost w')"
    using serve_write [OF s(1,2) m] by blast
  with \<open>q \<noteq> rq\<close> answers.a_write [OF m] show ?thesis
    by (intro exI [of _ t'] exI [of _ w'] exI [of _ "[]"] exI [of _ "apply_write d (msg_bytes m)"])
      (simp add: mq_changes_def fun_eq_iff del: handle_requests.simps)
next
  assume m: "msg_size m = readrequest_size" "addressed REQ_READ v (msg_bytes m)" "in_range d (msg_bytes m)"
  then have "\<not> mq_full M (boost w) rq" using room by (simp add: wants_reply_def addressed_def)
  from serve_read [OF s(1,2) this m] answers.a_read [OF m] show ?thesis by (metis (no_types))
next
  assume m: "msg_size m = getsizerequest_size" "addressed REQ_GETSIZE v (msg_bytes m)"
  then have "\<not> mq_full M (boost w) rq" using room by (simp add: wants_reply_def addressed_def)
  from serve_getsize [OF s(1,2) this m] answers.a_getsize [OF m] show ?thesis by (metis (no_types))
next
  assume m: "msg_size m = fsyncrequest_size" "addressed REQ_FSYNC v (msg_bytes m)"
  then have "\<not> mq_full M (boost w) rq" using room by (simp add: wants_reply_def addressed_def)
  from serve_fsync [OF s(1,2) this m] answers.a_fsync [OF m] show ?thesis by (metis (no_types))
qed

end

text \<open>
  The open volumes of a server, each with its reply queue and its disk: they are backed by
  different files and answer on different queues, none of which is the request queue.
\<close>

type_synonym volumes = "u64 \<rightharpoonup> mqid \<times> disk"

definition ioh_volumes :: "'b boost_mq \<Rightarrow> mqid \<Rightarrow> 'b world \<Rightarrow> volumes \<Rightarrow> bool" where
  "ioh_volumes M q w D \<longleftrightarrow>
     (\<forall>v p d. D v = Some (p, d) \<longrightarrow> ioh_volume M w v p d \<and> q \<noteq> p) \<and>
     (\<forall>u p e v p' d. D u = Some (p, e) \<longrightarrow> D v = Some (p', d) \<longrightarrow> u \<noteq> v \<longrightarrow>
       p \<noteq> p' \<and> volume_file w u \<noteq> volume_file w v)"

lemma ioh_volumesD:
  assumes "ioh_volumes M q w D" "D v = Some (p, d)"
  shows "ioh_volume M w v p d" "q \<noteq> p"
    and "D u = Some (p', e) \<Longrightarrow> u \<noteq> v \<Longrightarrow> p' \<noteq> p \<and> volume_file w u \<noteq> volume_file w v"
  using assms unfolding ioh_volumes_def by blast+

text \<open>The volumes other than \<open>v\<close>.\<close>

abbreviation others :: "volumes \<Rightarrow> u64 \<Rightarrow> (u64 \<times> mqid \<times> disk) set" where
  "others D v \<equiv> {(u, p, e). D u = Some (p, e) \<and> u \<noteq> v}"

lemma ioh_volumes_beside:
  assumes "ioh_volumes M q w D" "D v = Some (p, d)"
  shows "ioh_beside (volume_file w) (others D v) M w v p d"
  using ioh_volumesD(1) [OF assms(1)] ioh_volumesD(3) [OF assms] assms(2) by (auto simp: ioh_beside_defs)

text \<open>The messages of \<open>ms\<close> are requests of the volumes \<open>D\<close>, and their replies fit.\<close>

definition requests_for :: "'b boost_mq \<Rightarrow> 'b \<Rightarrow> volumes \<Rightarrow> message list \<Rightarrow> bool" where
  "requests_for M b D ms \<longleftrightarrow>
     (\<forall>m \<in> set ms. \<exists>v p d. D v = Some (p, d) \<and> own_request v d m) \<and>
     (\<forall>v p d. D v = Some (p, d) \<longrightarrow>
       length (mq_contents M b p) + length (filter (\<lambda>m. for_volume v m \<and> wants_reply m) ms) \<le> max_queue_size)"

lemma requests_forD:
  assumes "requests_for M b D ms"
  shows "m \<in> set ms \<Longrightarrow> \<exists>v p d. D v = Some (p, d) \<and> own_request v d m"
    and "D v = Some (p, d) \<Longrightarrow>
      length (mq_contents M b p) + length (filter (\<lambda>m. for_volume v m \<and> wants_reply m) ms) \<le> max_queue_size"
  using assms unfolding requests_for_def by blast+

lemma ioh_beside_volumes:
  assumes "ioh_volumes M q w D" "D v = Some (p, d)" "ioh_beside (volume_file w) (others D v) M w' v p d'"
  shows "ioh_volumes M q w' (D(v \<mapsto> (p, d')))"
proof -
  have "volume_file w' = volume_file w" using assms(3) by (simp add: ioh_beside_defs)
  moreover have "ioh_volume M w' u p' e" if "(D(v \<mapsto> (p, d'))) u = Some (p', e)" for u p' e
    using that assms(3) by (auto simp: ioh_beside_defs split: if_splits)
  moreover have "q \<noteq> p'" if "(D(v \<mapsto> (p, d'))) u = Some (p', e)" for u p' e
    using that assms(1,2) by (auto simp: ioh_volumes_def split: if_splits)
  moreover have "p' \<noteq> p'' \<and> volume_file w u \<noteq> volume_file w x"
    if "(D(v \<mapsto> (p, d'))) u = Some (p', e)" "(D(v \<mapsto> (p, d'))) x = Some (p'', e')" "u \<noteq> x" for u x p' p'' e e'
  proof -
    have old: "\<exists>e. D y = Some (r, e)" if "(D(v \<mapsto> (p, d'))) y = Some (r, e)" for y r e
      using that assms(2) by (auto split: if_splits)
    from old [OF that(1)] old [OF that(2)] ioh_volumesD(3) [OF assms(1)] that(3) show ?thesis by blast
  qed
  ultimately show ?thesis unfolding ioh_volumes_def by simp
qed

lemma ioh_volumes_boost:
  assumes "ioh_volumes M q w D" "mq_changes M (boost w) q' ms b"
  shows "ioh_volumes M q (w\<lparr>boost := b\<rparr>) D"
proof -
  have "volume_file (w\<lparr>boost := b\<rparr>) = volume_file w" by (rule volume_file_frame) simp_all
  with assms(1) ioh_volume_frame [OF _ assms(2)] show ?thesis unfolding ioh_volumes_def by simp
qed

lemma requests_for_step:
  assumes "ioh_volumes M q w D" "requests_for M (boost w) D (m # ms)" "D v = Some (p, d)" "own_request v d m" "answers v d m rs d'"
    and "mq_contents M (boost w') = (mq_contents M (boost w))(q := ms', p := mq_contents M (boost w) p @ rs)"
  shows "requests_for M (boost w') (D(v \<mapsto> (p, d'))) ms"
proof -
  have own: "own_request v d' = own_request v d" by (rule own_request_size) (rule answers_size [OF assms(5)])
  have "\<exists>u p' e. (D(v \<mapsto> (p, d'))) u = Some (p', e) \<and> own_request u e x" if "x \<in> set ms" for x
  proof -
    from assms(2) that obtain u p' e where u: "D u = Some (p', e)" "own_request u e x" by (auto simp: requests_for_def)
    with assms(3) own show ?thesis by (cases "u = v") auto
  qed
  moreover have "length (mq_contents M (boost w') p') + length (filter (\<lambda>m. for_volume u m \<and> wants_reply m) ms) \<le> max_queue_size"
    if "(D(v \<mapsto> (p, d'))) u = Some (p', e)" for u p' e
  proof (cases "u = v")
    case True
    with that requests_forD(2) [OF assms(2,3)] own_request_volume [OF assms(4)] answers_length [OF assms(5)] show ?thesis
      by (auto simp: assms(6) split: if_splits)
  next
    case False
    then have "D u = Some (p', e)" using that by simp
    then show ?thesis
      using False ioh_volumesD(3) [OF assms(1,3)] ioh_volumesD(2) [OF assms(1)] requests_forD(2) [OF assms(2)]
        own_request_volume [OF assms(4)] by (fastforce simp: assms(6))
  qed
  ultimately show ?thesis unfolding requests_for_def by blast
qed

text \<open>
  Between two states of the queues, the requests \<open>ms\<close> have turned the volumes \<open>D\<close> into \<open>D'\<close>: each volume has
  seen the requests with its handle only, in their order.
\<close>

definition serves_each :: "'b boost_mq \<Rightarrow> 'b \<Rightarrow> 'b \<Rightarrow> volumes \<Rightarrow> message list \<Rightarrow> volumes \<Rightarrow> bool" where
  "serves_each M b b' D ms D' \<longleftrightarrow> dom D' = dom D \<and>
     (\<forall>v p d. D v = Some (p, d) \<longrightarrow> (\<exists>rs d'. D' v = Some (p, d') \<and>
       mq_contents M b' p = mq_contents M b p @ rs \<and> answers_all v d (filter (for_volume v) ms) rs d'))"

lemma serves_eachD:
  assumes "serves_each M b b' D ms D'" "D v = Some (p, d)"
  shows "\<exists>rs d'. D' v = Some (p, d') \<and> mq_contents M b' p = mq_contents M b p @ rs \<and>
    answers_all v d (filter (for_volume v) ms) rs d'"
  using assms unfolding serves_each_def by blast

lemma serves_each_Cons:
  assumes "ioh_volumes M q w D" "D v = Some (p, d)" "own_request v d m" "answers v d m rs d1"
    and "mq_contents M (boost w1) = (mq_contents M (boost w))(q := ms', p := mq_contents M (boost w) p @ rs)"
    and rest: "serves_each M (boost w1) b' (D(v \<mapsto> (p, d1))) ms D'"
  shows "serves_each M (boost w) b' D (m # ms) D'"
  unfolding serves_each_def
proof (intro conjI allI impI)
  show "dom D' = dom D" using rest assms(2) by (auto simp: serves_each_def)
next
  fix u r e assume u: "D u = Some (r, e)"
  show "\<exists>rs d'. D' u = Some (r, d') \<and> mq_contents M b' r = mq_contents M (boost w) r @ rs \<and>
    answers_all u e (filter (for_volume u) (m # ms)) rs d'"
  proof (cases "u = v")
    case True
    then have "u = v" "r = p" "e = d" using u assms(2) by simp_all
    moreover from rest obtain rs' d' where "D' v = Some (p, d')" "mq_contents M b' p = mq_contents M (boost w1) p @ rs'"
      "answers_all v d1 (filter (for_volume v) ms) rs' d'" using serves_eachD [OF rest, of v] by auto
    ultimately show ?thesis
      using answers_all.Cons [OF assms(4)] own_request_volume [OF assms(3)] by (auto simp: assms(5))
  next
    case False
    then have "r \<noteq> p" "q \<noteq> r" using ioh_volumesD(3) [OF assms(1,2) u] ioh_volumesD(2) [OF assms(1) u] by auto
    with False u serves_eachD [OF rest, of u] own_request_volume [OF assms(3), of u] assms(5) show ?thesis by simp
  qed
qed

text \<open>The request queue is none of the reply queues.\<close>

lemma serves_each_other:
  assumes "serves_each M b0 b D ms D'" "ioh_volumes M q w D" "mq_changes M b q ns b'"
  shows "serves_each M b0 b' D ms D'"
proof -
  have "mq_contents M b' p = mq_contents M b p" if "D v = Some (p, d)" for v p d
    using ioh_volumesD(2) [OF assms(2) that] assms(3) by (simp add: mq_changes_def)
  with assms(1) show ?thesis unfolding serves_each_def by simp
qed

lemma requests_for_other:
  assumes "requests_for M b D ms" "ioh_volumes M q w D" "mq_changes M b q ns b'"
  shows "requests_for M b' D ms"
proof -
  have "mq_contents M b' p = mq_contents M b p" if "D v = Some (p, d)" for v p d
    using ioh_volumesD(2) [OF assms(2) that] assms(3) by (simp add: mq_changes_def)
  with assms(1) show ?thesis unfolding requests_for_def by simp
qed

lemma serve_volumes:
  fixes M :: "'b boost_mq"
  assumes "ioh_volumes M q w D" "requests_for M (boost w) D ms" "mq_contents M (boost w) q = ms @ rest"
    and "mq_limits M (boost w) q = (max_queue_size, request_size)" "th_state t = Running"
  shows "\<exists>t' w' D'. (\<forall>fuel. handle_requests (length ms + fuel) M (IOHandler M) q t w = handle_requests fuel M (IOHandler M) q t' w') \<and>
    th_state t' = Running \<and> mq_contents M (boost w') q = rest \<and> mq_limits M (boost w') q = (max_queue_size, request_size) \<and>
    ioh_volumes M q w' D' \<and> serves_each M (boost w) (boost w') D ms D'"
  using assms
proof (induction ms arbitrary: t w D)
  case Nil
  then show ?case
    by (intro exI [of _ t] exI [of _ w] exI [of _ D]) (simp add: serves_each_def answers_all.Nil del: handle_requests.simps)
next
  case (Cons m ms)
  from requests_forD(1) [OF Cons.prems(2), of m] obtain v p d where v: "D v = Some (p, d)" "own_request v d m" by auto
  let ?B = "ioh_beside (volume_file w) (others D v)"
  note vol = ioh_volumesD [OF Cons.prems(1) v(1)]
  have s: "serving ?B M q v p t w d"
    using ioh_volumes_beside [OF Cons.prems(1) v(1)] Cons.prems vol(2) by (simp add: serving_def)
  have "\<not> mq_full M (boost w) p" if "wants_reply m"
    using that requests_forD(2) [OF Cons.prems(2) v(1)] own_request_volume [OF v(2)] beside.vol_limits [OF s [unfolded serving_def, THEN conjunct1]]
    by (simp add: mq_full_def)
  with beside.serve_own [OF s _ v(2), of "ms @ rest"] Cons.prems(3) obtain t1 w1 rs d1 where
    one: "\<And>fuel. handle_requests (Suc fuel) M (IOHandler M) q t w = handle_requests fuel M (IOHandler M) q t1 w1"
      "serving ?B M q v p t1 w1 d1" "answers v d m rs d1" "mq_limits M (boost w1) = mq_limits M (boost w)"
      "mq_contents M (boost w1) = (mq_contents M (boost w))(q := ms @ rest, p := mq_contents M (boost w) p @ rs)" by auto
  have "ioh_volumes M q w1 (D(v \<mapsto> (p, d1)))"
    using ioh_beside_volumes [OF Cons.prems(1) v(1)] one(2) by (simp add: serving_def)
  moreover have "requests_for M (boost w1) (D(v \<mapsto> (p, d1))) ms"
    by (rule requests_for_step [OF Cons.prems(1,2) v one(3,5)])
  moreover have "mq_contents M (boost w1) q = ms @ rest" "th_state t1 = Running" using one(2,5) vol(2) by (simp_all add: serving_def)
  moreover have "mq_limits M (boost w1) q = (max_queue_size, request_size)" using Cons.prems(4) one(4) by simp
  ultimately obtain t' w' D' where
    two: "\<And>fuel. handle_requests (length ms + fuel) M (IOHandler M) q t1 w1 = handle_requests fuel M (IOHandler M) q t' w'"
      "th_state t' = Running" "mq_contents M (boost w') q = rest" "mq_limits M (boost w') q = (max_queue_size, request_size)"
      "ioh_volumes M q w' D'" "serves_each M (boost w1) (boost w') (D(v \<mapsto> (p, d1))) ms D'"
    using Cons.IH [of w1 "D(v \<mapsto> (p, d1))" t1] by blast
  have "handle_requests (length (m # ms) + fuel) M (IOHandler M) q t w = handle_requests fuel M (IOHandler M) q t' w'" for fuel
    using one(1) [of "length ms + fuel"] two(1) [of fuel] by (simp del: handle_requests.simps)
  with two(2-5) serves_each_Cons [OF Cons.prems(1) v one(3,5) two(6)] show ?case by blast
qed

text \<open>C4. One request queue with the requests of any number of clients, interleaved in any way: if the
  volumes are backed by different files, their reply queues have room and no system call fails, the
  server thread serves all of them, and each volume's disk and replies are those of its own requests
  alone, in the order they were sent.\<close>

theorem server_serves_each_volume:
  fixes M :: "'b boost_mq"
  assumes "ioh_volumes M q w D" "requests_for M (boost w) D (mq_contents M (boost w) q)"
    and "mq_limits M (boost w) q = (max_queue_size, request_size)" "th_state t = Running" "mq_laws M"
    and "length (mq_contents M (boost w) q) \<le> fuel"
  shows "\<exists>t' w' D'. handle_requests fuel M (IOHandler M) q t w = (t', w') \<and> th_state t' = Running \<and>
    mq_contents M (boost w') q = [] \<and> ioh_volumes M q w' D' \<and>
    serves_each M (boost w) (boost w') D (mq_contents M (boost w) q) D'"
proof -
  let ?ms = "mq_contents M (boost w) q"
  from serve_volumes [OF assms(1,2) _ assms(3,4), of "[]"] obtain t' w' D' where
    r: "\<And>fuel. handle_requests (length ?ms + fuel) M (IOHandler M) q t w = handle_requests fuel M (IOHandler M) q t' w'"
      "th_state t' = Running" "mq_contents M (boost w') q = []" "mq_limits M (boost w') q = (max_queue_size, request_size)"
      "ioh_volumes M q w' D'" "serves_each M (boost w) (boost w') D ?ms D'" by auto
  have "handle_requests (fuel - length ?ms) M (IOHandler M) q t' w' = (t', w')"
    using r(3,4) by (intro handle_requests_wait [OF assms(5)]) simp_all
  with r(1) [of "fuel - length ?ms"] assms(6) r(2,3,5,6) show ?thesis by auto
qed

text \<open>C29. A request with \<open>stop\<close> set ends the server: the requests that were sent before it, by any number
  of clients, are all served, each volume ends up with the effect of its own; then the thread
  returns, so that \<open>handle_requests_thread_join\<close> does, and what was sent later stays in the queue.\<close>

theorem stop_request_ends_service:
  fixes M :: "'b boost_mq"
  assumes "ioh_volumes M q w D" "requests_for M (boost w) D ms" "mq_contents M (boost w) q = ms @ stop # rest"
    and "h_stop (get_header (msg_bytes stop))" "header_size \<le> msg_size stop"
    and "mq_limits M (boost w) q = (max_queue_size, request_size)" "th_state t = Running" "mq_laws M" "length ms < fuel"
  shows "\<exists>t' w' D'. handle_requests_thread_join fuel M (IOHandler M) (one_thread (Some q) t w) = (Ret (), one_thread (Some q) t' w') \<and>
    th_state t' = Returned \<and> mq_contents M (boost w') q = rest \<and> ioh_volumes M q w' D' \<and>
    serves_each M (boost w) (boost w') D ms D'"
proof -
  from serve_volumes [OF assms(1-3,6,7)] obtain t1 w1 D' where
    one: "\<And>fuel. handle_requests (length ms + fuel) M (IOHandler M) q t w = handle_requests fuel M (IOHandler M) q t1 w1"
      "th_state t1 = Running" "mq_contents M (boost w1) q = stop # rest" "mq_limits M (boost w1) q = (max_queue_size, request_size)"
      "ioh_volumes M q w1 D'" "serves_each M (boost w) (boost w1) D ms D'" by blast
  have "h_stop (get_header (recv_into (th_request_msg t1) stop))" using assms(4,5) by (simp add: mem_simps)
  from handle_stop [OF assms(8) one(2) _ one(3) this, of "IOHandler M"] one(4) obtain b where
    b: "mq_changes M (boost w1) q rest b" and run: "\<And>fuel. handle_requests (Suc fuel) M (IOHandler M) q t1 w1 =
       (t1\<lparr>th_request_msg := recv_into (th_request_msg t1) stop, th_state := Returned\<rparr>, w1\<lparr>boost := b\<rparr>)" by auto
  define t' where "t' = t1\<lparr>th_request_msg := recv_into (th_request_msg t1) stop, th_state := Returned\<rparr>"
  obtain k where k: "fuel = length ms + Suc k" using assms(9) less_natE by auto
  have "handle_requests fuel M (IOHandler M) q t w = (t', w1\<lparr>boost := b\<rparr>)" unfolding k one(1) t'_def by (rule run)
  then have "handle_requests_thread_join fuel M (IOHandler M) (one_thread (Some q) t w) = (Ret (), one_thread (Some q) t' (w1\<lparr>boost := b\<rparr>))"
    using assms(7) by (simp add: handle_requests_thread_join_def join_thread_def cmd_simps run_thread_one) (simp add: t'_def ret_run)
  moreover have "serves_each M (boost w) b D ms D'" by (rule serves_each_other [OF one(6) assms(1) b])
  moreover have "ioh_volumes M q (w1\<lparr>boost := b\<rparr>) D'" by (rule ioh_volumes_boost [OF one(5) b])
  ultimately show ?thesis using b by (auto simp: t'_def mq_changes_def)
qed

text \<open>
  The sample state with two volumes that answer on queues of their own; a request to write to the
  first and one for the size of the second wait.
\<close>

definition size_message :: message where
  "size_message = mk_message (put_header (\<lambda>_. 0) (Header_make False REQ_GETSIZE 1 2 0)) getsizerequest_size"

definition sample_two :: "fifo world" where
  "sample_two = sample_pair\<lparr>
     boost := sample_boost\<lparr>f_queues := (\<lambda>q. if q = 0 then [mk_message (sample_request REQ_WRITE) writerequest_size, size_message] else []),
       f_limits := (\<lambda>q. if q = 2 \<or> q = 3 then (max_queue_size, reply_size) else (max_queue_size, request_size)), f_next := 4\<rparr>,
     heap := (heap sample_pair)(2 \<mapsto> \<lparr>vs_volume_name = ''two'', vs_volume_id = 0, vs_fd = 4, vs_reply_mq = 3\<rparr>)\<rparr>"

definition sample_volumes :: volumes where
  "sample_volumes = [1 \<mapsto> (2, sample_disk), 2 \<mapsto> (3, sample_disk)]"

lemma sample_two_mq:
  "mq_contents fifo_mq (boost sample_two) q = (if q = 0 then [mk_message (sample_request REQ_WRITE) writerequest_size, size_message] else [])"
  "mq_limits fifo_mq (boost sample_two) q = (if q = 2 \<or> q = 3 then (max_queue_size, reply_size) else (max_queue_size, request_size))"
  by (simp_all add: sample_two_def fifo_mq_def)

lemma sample_two_volumes: "ioh_volumes fifo_mq 0 sample_two sample_volumes"
proof -
  have path: "volume_path ''two'' \<noteq> sample_path" by (simp add: sample_path_def volume_path_def)
  have "ioh_volume fifo_mq sample_two 1 2 sample_disk" "ioh_volume fifo_mq sample_two 2 3 sample_disk"
    using path by (simp_all add: ioh_volume_def fifo_mq_laws sample_two_mq)
      (simp_all add: fd_file_def file_bytes_def sample_two_def sample_pair_def sample_world_def sample_os_def sample_disk_def fun_eq_iff)
  moreover have "volume_file sample_two 2 \<noteq> volume_file sample_two 1"
    using path by (simp add: volume_file_def sample_two_def sample_pair_def sample_defs)
  ultimately show ?thesis by (auto simp: ioh_volumes_def sample_volumes_def split: if_splits)
qed

lemma sample_own:
  "own_request 1 sample_disk (mk_message (sample_request REQ_WRITE) writerequest_size)" "own_request 2 sample_disk size_message"
  by (simp_all add: own_request_def sample_write_msg)
    (simp add: size_message_def addressed_def mk_message_def mem_simps Header_make_def size_defs)

lemma sample_two_requests: "requests_for fifo_mq (boost sample_two) sample_volumes (mq_contents fifo_mq (boost sample_two) 0)"
proof -
  have "\<exists>v p d. sample_volumes v = Some (p, d) \<and> own_request v d m" if "m \<in> set (mq_contents fifo_mq (boost sample_two) 0)" for m
  proof -
    from that consider "m = mk_message (sample_request REQ_WRITE) writerequest_size" | "m = size_message" by (auto simp: sample_two_mq)
    then show ?thesis
      by cases (use sample_own in \<open>intro exI [of _ 1] exI [of _ 2] exI [of _ sample_disk], simp add: sample_volumes_def\<close>,
        use sample_own in \<open>intro exI [of _ 2] exI [of _ 3] exI [of _ sample_disk], simp add: sample_volumes_def\<close>)
  qed
  then show ?thesis by (auto simp: requests_for_def sample_two_mq sample_volumes_def size_defs split: if_splits)
qed

theorem server_serves_each_volume_witness:
  "\<exists>t' w' D' rs d'. handle_requests 2 fifo_mq (IOHandler fifo_mq) 0 sample_thread sample_two = (t', w') \<and> D' 2 = Some (3, d') \<and>
    mq_contents fifo_mq (boost w') 3 = rs \<and> answers_all 2 sample_disk [size_message] rs d'"
proof -
  have run: "th_state sample_thread = Running" by (simp add: sample_thread_def)
  obtain t' w' D' where
    r: "handle_requests 2 fifo_mq (IOHandler fifo_mq) 0 sample_thread sample_two = (t', w')"
      "serves_each fifo_mq (boost sample_two) (boost w') sample_volumes (mq_contents fifo_mq (boost sample_two) 0) D'"
    using server_serves_each_volume [OF sample_two_volumes sample_two_requests _ run fifo_mq_laws, of 2]
    by (auto simp: sample_two_mq)
  have "filter (for_volume 2) (mq_contents fifo_mq (boost sample_two) 0) = [size_message]"
    using sample_own [THEN own_request_volume] by (simp add: sample_two_mq)
  with r(1) serves_eachD [OF r(2), of 2 3 sample_disk] show ?thesis by (auto simp: sample_volumes_def sample_two_mq)
qed

text \<open>The same with a stop request behind them, and a message that comes too late.\<close>

definition sample_stopped :: "fifo world" where
  "sample_stopped = sample_two\<lparr>boost := fifo_enqueue 0 size_message (fifo_enqueue 0 (stop_message header_size (\<lambda>_. 0)) (boost sample_two))\<rparr>"

lemma sample_stopped_mq:
  "mq_contents fifo_mq (boost sample_stopped) 0 = mq_contents fifo_mq (boost sample_two) 0 @ stop_message header_size (\<lambda>_. 0) # [size_message]"
  "mq_changes fifo_mq (boost sample_two) 0 (mq_contents fifo_mq (boost sample_stopped) 0) (boost sample_stopped)"
  by (simp_all add: sample_stopped_def mq_changes_def fifo_mq_def fifo_enqueue_def fifo_lookup_def fun_eq_iff)

theorem stop_request_ends_service_witness:
  "\<exists>t' w'. handle_requests_thread_join 5 fifo_mq (IOHandler fifo_mq) (one_thread (Some 0) sample_thread sample_stopped) =
     (Ret (), one_thread (Some 0) t' w') \<and> th_state t' = Returned \<and> mq_contents fifo_mq (boost w') 0 = [size_message]"
proof -
  have run: "th_state sample_thread = Running" by (simp add: sample_thread_def)
  have w: "sample_stopped = sample_two\<lparr>boost := boost sample_stopped\<rparr>" by (simp add: sample_stopped_def)
  have vols: "ioh_volumes fifo_mq 0 sample_stopped sample_volumes"
    by (subst w) (rule ioh_volumes_boost [OF sample_two_volumes sample_stopped_mq(2)])
  have reqs: "requests_for fifo_mq (boost sample_stopped) sample_volumes (mq_contents fifo_mq (boost sample_two) 0)"
    by (rule requests_for_other [OF sample_two_requests sample_two_volumes sample_stopped_mq(2)])
  have stop: "h_stop (get_header (msg_bytes (stop_message header_size (\<lambda>_. 0))))" "header_size \<le> msg_size (stop_message header_size (\<lambda>_. 0))"
    by (simp_all add: stop_message_def mk_message_def mem_simps size_defs)
  have lim: "mq_limits fifo_mq (boost sample_stopped) 0 = (max_queue_size, request_size)" "length (mq_contents fifo_mq (boost sample_two) 0) < 5"
    using sample_stopped_mq(2) by (simp_all add: mq_changes_def sample_two_mq)
  from stop_request_ends_service [OF vols reqs sample_stopped_mq(1) stop lim(1) run fifo_mq_laws lim(2)] show ?thesis by blast
qed

section \<open>A session beside others\<close>

lemma connected_beside:
  assumes "connected ioh_volume M n s d" "cs_client s = Some c"
    and "\<forall>(u, p, e) \<in> F. ioh_volume M (sv_world (cs_server s)) u p e \<and>
      volume_file (sv_world (cs_server s)) u \<noteq> volume_file (sv_world (cs_server s)) (cl_volume c)"
  shows "connected (ioh_beside (volume_file (sv_world (cs_server s))) F) M n s d"
  using assms unfolding connected_def client_rel_def serving_def ioh_beside_defs by fastforce

lemma connected_besideD:
  assumes "connected (ioh_beside at F) M n s d"
  shows "connected ioh_volume M n s d" "(u, p, e) \<in> F \<Longrightarrow> ioh_volume M (sv_world (cs_server s)) u p e"
  using assms unfolding connected_def client_rel_def serving_def ioh_beside_defs by fastforce+

end
