(* ===== verification/Reopen_Session.thy ===== *)
theory Reopen_Session
  imports Many_Volumes
begin

text \<open>
  From one session to the next: the driver closes an image, the server works off its queue, deletes
  the volume object and closes the descriptor, and waits for requests again; its file holds what
  was written, so a second open of the image finds it.
\<close>

section \<open>What a session leaves alone\<close>

text \<open>The files behind the handles, the next free address, and the name of the request queue.\<close>

definition session_kept :: "(u64 \<Rightarrow> string option) \<Rightarrow> nat \<Rightarrow> mqid \<Rightarrow> 'b boost_mq \<Rightarrow> 'b world \<Rightarrow> u64 \<Rightarrow> bool" where
  "session_kept at k q M w v \<longleftrightarrow> volume_file w = at \<and> brk w = k \<and> wf_world w \<and> mq_names M (boost w) (request_mq_name 0) = Some q"

definition ioh_kept :: "(u64 \<Rightarrow> string option) \<Rightarrow> nat \<Rightarrow> mqid \<Rightarrow> 'b boost_mq \<Rightarrow> 'b world \<Rightarrow> u64 \<Rightarrow> mqid \<Rightarrow> disk \<Rightarrow> bool" where
  "ioh_kept at k q = (\<lambda>M w v p d. ioh_volume M w v p d \<and> session_kept at k q M w v)"

interpretation session_view: volume_view "session_kept at k q" for at k q
proof unfold_locales
  show "session_kept at k q M (w\<lparr>boost := b\<rparr>) v" if "session_kept at k q M w v" "mq_changes M (boost w) p ms b"
    for M :: "'a boost_mq" and w v p ms b
    using that volume_file_frame [of "w\<lparr>boost := b\<rparr>" w] by (auto simp: session_kept_def mq_changes_def)
  show "session_kept at k q M (w\<lparr>os := put_file path g (os w)\<rparr>) v"
    if "session_kept at k q M w v" for M :: "'a boost_mq" and w v path g
  proof -
    have "wf_world (w\<lparr>os := put_file path g (os w)\<rparr>)"
      using that by (auto simp: session_kept_def wf_world_def wf_os_def put_file_def)
    with that volume_file_frame [of "w\<lparr>os := put_file path g (os w)\<rparr>" w] show ?thesis
      by (auto simp: session_kept_def put_file_def)
  qed
qed

interpretation kept: storage_handler IOHandler "ioh_kept at k q" for at k q
  unfolding ioh_kept_def by (rule session_view.view_handler)

text \<open>The client's requests do not change which volume and queue it uses.\<close>

definition same_client :: "client \<Rightarrow> 'b csys \<Rightarrow> bool" where
  "same_client c s \<longleftrightarrow> (\<exists>c'. cs_client s = Some c' \<and> cl_request_mq c' = cl_request_mq c \<and> cl_volume c' = cl_volume c \<and>
     cl_volume_name c' = cl_volume_name c)"

lemma keeps_this: "keeps P this"
  by (simp add: keeps_def this_def split: option.split)

lemma keeps_set_msg: "keeps (same_client c) (set_request_msg m)" "keeps (same_client c) (set_reply_msg m)"
  by (auto simp: keeps_def same_client_def set_request_msg_def set_reply_msg_def this_def cmd_simps)

lemma keeps_try_mq: "keeps (same_client c) (try_mq f)"
  by (simp add: keeps_def same_client_def try_mq_def split: prod.split)

lemma keeps_wait_mq: "keeps (same_client c) (wait_mq peer f)"
  by (auto simp: keeps_def same_client_def wait_mq_def try_mq_def split: prod.split mq_result.split)

lemma keeps_catch_all: "keeps P m \<Longrightarrow> keeps P h \<Longrightarrow> keeps P (catch_all m h)"
  by (auto simp: keeps_def catch_all_run split: prod.splits outcome.splits failure.splits)

lemmas client_keeps = keeps_intros keeps_this keeps_set_msg keeps_try_mq keeps_wait_mq keeps_catch_all

lemma keeps_put_request_header: "keeps (same_client c) (put_request_header type acb)"
  unfolding put_request_header_def by (intro client_keeps) (simp add: same_client_def)

lemma keeps_client_calls:
  "keeps (same_client c) (shared_mem_read M peer buf at sz off)"
  "keeps (same_client c) (shared_mem_write M peer buf at sz off)"
  "keeps (same_client c) (getsize_volume M peer)"
  "keeps (same_client c) (send_close M peer)"
  unfolding shared_mem_read_def send_read_def shared_mem_write_def send_write_def getsize_volume_def send_getsize_def send_close_def
    send_request_def receive_reply_def
  by (intro client_keeps keeps_put_request_header)+

lemma keeps_piece_loop:
  assumes "\<And>off sz acc. keeps P (body off sz acc)"
  shows "keeps P (piece_loop valid next body fuel a err acc)"
proof (induction fuel arbitrary: a err acc)
  case (Suc fuel)
  then show ?case
    by (auto intro!: client_keeps assms split: option.split bool.split)
qed (simp add: client_keeps)

lemma keeps_run_ops: "keeps (same_client c) (run_ops fuel (shared_mem_read M peer) (shared_mem_write M peer) (getsize_volume M peer) bss xs)"
proof (induction xs)
  case (Cons x xs)
  have "keeps (same_client c) (run_op fuel (shared_mem_read M peer) (shared_mem_write M peer) (getsize_volume M peer) bss x)"
    by (cases x) (auto simp: cvbd_read_def cvbd_write_def cvbd_getlength_def read_piece_def write_piece_def relative_off_def Let_def
        intro!: client_keeps keeps_client_calls keeps_piece_loop split: prod.split)
  with Cons show ?case by (auto intro!: client_keeps)
qed (simp add: client_keeps)

section \<open>Serving the request to close\<close>

text \<open>The volume's file after the handler has closed the volume: what an open will find.\<close>

lemma ioh_close_kept:
  assumes v: "ioh_kept at k q M w v p d" "at v = Some (volume_path nm)" "d_size d = 2 ^ 34" and req: "h_volume (get_header req) = v"
  shows "\<exists>w'. ioh_close req w = (Ret (), w') \<and> boost w' = boost w \<and> brk w' = k \<and> os_script (os w') = [] \<and> opened_disk (os w') nm = d"
proof -
  from v(1) have vol: "ioh_volume M w v p d" and sk: "session_kept at k q M w v" by (simp_all add: ioh_kept_def)
  from vol obtain vs path f where o: "v \<noteq> 0" "os_script (os w) = []" "heap w v = Some vs"
    "fd_file (os w) (vs_fd vs) = Some (path, f)" "d = \<lparr>d_size = file_size f, d_bytes = file_bytes f\<rparr>" by (rule ioh_volumeE)
  have path: "path = volume_path nm" using o sk v(2) by (auto simp: session_kept_def volume_file_def fd_file_iff)
  have "opened_disk (os w) nm = d"
  proof -
    have f: "os_files (os w) (volume_path nm) = Some f" "file_size f = 2 ^ 34" using o(4,5) v(3) path by (simp_all add: fd_file_iff)
    then have "file_bytes f i = 0" if "\<not> i < 2 ^ 34" for i using that by (simp add: file_bytes_def)
    with f show ?thesis unfolding o(5) opened_disk_def by (auto simp: fun_eq_iff)
  qed
  moreover obtain x s where close: "sys_close (vs_fd vs) (os w) = (x, s)" by fastforce
  moreover have files: "os_files s = os_files (os w)" using sys_close_frame [OF close] by simp
  moreover have "opened_disk s nm = opened_disk (os w) nm" unfolding opened_disk_def files by (rule refl)
  moreover have "os_script s = []" using close o(2) by (auto simp: sys_close_def next_result_def sys_fail_def split: if_splits)
  ultimately show ?thesis
    using o(1,3) req sk
    by (simp add: ioh_close_def ioh_close_volume_def deref_run cmd_simps sysc_def delete_VolumeState_def session_kept_def)
qed

lemma serve_close:
  fixes M :: "'b boost_mq"
  assumes s: "serving (ioh_kept at k q) M q v p t w d" "mq_contents M (boost w) q = [msg]"
    and v: "at v = Some (volume_path nm)" "d_size d = 2 ^ 34" "k < 2 ^ 64"
    and m: "msg_size msg = closerequest_size" "addressed REQ_CLOSE v (msg_bytes msg)"
  obtains t' w' where "\<And>fuel. handle_requests (Suc fuel) M (IOHandler M) q t w = handle_requests fuel M (IOHandler M) q t' w'"
    "idle_server M \<lparr>sv_request_mqs = [Some q], sv_threads = [t'], sv_world = w'\<rparr>" "opened_disk (os w') nm = d"
proof -
  let ?req = "recv_into (th_request_msg t) msg"
  have laws: "mq_laws M" "th_state t = Running" "snd (mq_limits M (boost w) q) \<le> request_size"
    using s(1) kept.vol_laws by (auto simp: serving_def)
  have hd: "get_header ?req = get_header (msg_bytes msg)" using m(1) by (simp add: mem_simps size_defs)
  then have stop: "\<not> h_stop (get_header ?req)" using m(2) by (simp add: addressed_def)
  define P where "P b r w' \<longleftrightarrow> boost w' = b \<and> brk w' = k \<and> os_script (os w') = [] \<and> opened_disk (os w') nm = d \<and> wf_world w'" for b and r :: mem and w' :: "'b world"
  have d: "\<exists>r w'. dispatch (IOHandler M) ?req (th_reply_msg t) (w\<lparr>boost := b\<rparr>) = (Ret r, w') \<and> P b r w'"
    if b: "mq_changes M (boost w) q [] b" for b
  proof -
    have kv: "ioh_kept at k q M (w\<lparr>boost := b\<rparr>) v p d" using s(1) kept.vol_frame [OF _ b] by (simp add: serving_def)
    have "h_volume (get_header ?req) = v" using m(2) hd by (simp add: addressed_def)
    from ioh_close_kept [OF kv v(1,2) this] obtain w' where
      w': "ioh_close ?req (w\<lparr>boost := b\<rparr>) = (Ret (), w')" "boost w' = b" "brk w' = k" "os_script (os w') = []" "opened_disk (os w') nm = d" by auto
    have "dispatch (IOHandler M) ?req (th_reply_msg t) (w\<lparr>boost := b\<rparr>) = (Ret (th_reply_msg t), w')"
      using w'(1) m(2) hd by (simp add: dispatch_def addressed_def IOHandler_def cmd_simps)
    moreover from keepsD [OF keeps_dispatch _ this] kv have "wf_world w'" by (simp add: ioh_kept_def session_kept_def)
    ultimately show ?thesis using w' by (auto simp: P_def)
  qed
  from handle_requests_next [OF laws s(2) stop d] obtain b r w' where
    b: "mq_changes M (boost w) q [] b" and P: "P b r w'"
    and run: "\<And>fuel. handle_requests (Suc fuel) M (IOHandler M) q t w =
      handle_requests fuel M (IOHandler M) q (t\<lparr>th_request_msg := ?req, th_reply_msg := r\<rparr>) w'" by blast
  show thesis
  proof (rule that [OF run])
    show "idle_server M \<lparr>sv_request_mqs = [Some q], sv_threads = [t\<lparr>th_request_msg := ?req, th_reply_msg := r\<rparr>], sv_world = w'\<rparr>"
      using s(1) b P laws(1,2) v(3)
      by (auto simp: idle_server_def serving_def ioh_kept_def session_kept_def mq_changes_def P_def)
  qed (use P in \<open>simp add: P_def\<close>)
qed

text \<open>The driver's close, and the server's work after it.\<close>

lemma close_then_idle:
  fixes M :: "'b boost_mq"
  assumes con: "client_rel (ioh_kept at k q) M n (bs_client b) c d []" and c: "cl_request_mq c = q" "cl_volume_name c \<noteq> request_mq_name 0"
    and v: "at (cl_volume c) = Some (volume_path nm)" "d_size d = 2 ^ 34" "k < 2 ^ 64"
  shows "\<exists>b'. cvbd_close M (server_run n M (IOHandler M)) b = (Ret (), b') \<and>
    idle_server M (server_run n M (IOHandler M) (cs_server (bs_client b'))) \<and>
    opened_disk (os (sv_world (server_run n M (IOHandler M) (cs_server (bs_client b'))))) nm = d"
proof -
  let ?P = "server_run n M (IOHandler M)"
  from kept.put_header_rel [OF con, of REQ_CLOSE 0] obtain y1 c1 where
    one: "put_request_header REQ_CLOSE 0 (bs_client b) = (Ret (), y1)" "client_rel (ioh_kept at k q) M n y1 c1 d []"
      "cl_request_mq c1 = cl_request_mq c" "cl_volume c1 = cl_volume c"
      "cl_request_msg c1 = put_header (cl_request_msg c) (Header_make False REQ_CLOSE (scast (cs_id (bs_client b) + 1)) (cl_volume c) 0)" by blast
  let ?msg = "mk_message (cl_request_msg c1) closerequest_size"
  from kept.send_message [OF one(2), of ?msg] obtain y2 where
    two: "wait_mq ?P (mq_send M (cl_request_mq c1) ?msg 0) y1 = (Ret (), y2)" "client_rel (ioh_kept at k q) M n y2 c1 d [?msg]"
    using request_fits by auto
  have c1: "cs_client y1 = Some c1" using one(2) by (rule client_relE)
  have sent: "send_close M ?P (bs_client b) = (Ret (), y2)"
    using one(1) two(1) c1 by (simp add: send_close_def send_request_def cbind_run this_def)
  from two(2) obtain t w d0 ws where r: "max_queue_size \<le> n" "cs_client y2 = Some c1"
    "cs_server y2 = \<lparr>sv_request_mqs = [Some q], sv_threads = [t], sv_world = w\<rparr>"
    "serving (ioh_kept at k q) M q (cl_volume c) (cl_reply_mq c1) t w d0"
    "mq_contents M (boost w) q = ws @ [?msg]" "length (ws @ [?msg]) \<le> max_queue_size"
    "\<forall>m \<in> set ws. write_msg (cl_volume c) d0 m" "d = foldl (\<lambda>d m. apply_write d (msg_bytes m)) d0 ws"
    using c(1) one(3,4) by (auto elim!: client_relE)
  have "same_client c (bs_client b)" using con by (auto simp: same_client_def elim: client_relE)
  from keepsD [OF keeps_client_calls(4) this sent] r(2) c(2) have nm: "cl_volume_name c1 \<noteq> request_mq_name 0" by (auto simp: same_client_def)
  have laws: "mq_laws M" using r(4) kept.vol_laws by (auto simp: serving_def)
  obtain x b1 where rm: "mq_remove M (cl_volume_name c1) (boost w) = (x, b1)" "mq_names M b1 = (mq_names M (boost w))(cl_volume_name c1 := None)"
    "mq_contents M b1 = mq_contents M (boost w)" "mq_limits M b1 = mq_limits M (boost w)" by (rule mq_removeE [OF laws])
  define w1 where "w1 = w\<lparr>boost := b1\<rparr>"
  have s1: "serving (ioh_kept at k q) M q (cl_volume c) (cl_reply_mq c1) t w1 d0"
    using r(4) rm nm ioh_volume_boost [of M w _ _ _ b1] volume_file_frame [of w1 w]
    by (simp add: serving_def ioh_kept_def session_kept_def w1_def)
  from kept.serve_writes [OF s1, of ws "[?msg]"] r(5,7) rm(3) obtain t2 w2 where
    two': "\<And>fuel. handle_requests (length ws + fuel) M (IOHandler M) q t w1 = handle_requests fuel M (IOHandler M) q t2 w2"
      "serving (ioh_kept at k q) M q (cl_volume c) (cl_reply_mq c1) t2 w2 d" "mq_contents M (boost w2) q = [?msg]"
    using r(8) by (auto simp: w1_def mq_changes_def)
  have msg: "msg_size ?msg = closerequest_size" "addressed REQ_CLOSE (cl_volume c) (msg_bytes ?msg)"
    by (simp_all add: mk_message_def addressed_def one(5) Header_make_def mem_simps size_defs)
  from serve_close [OF two'(2,3) v msg] obtain t3 w3 where
    three: "\<And>fuel. handle_requests (Suc fuel) M (IOHandler M) q t2 w2 = handle_requests fuel M (IOHandler M) q t3 w3"
      "idle_server M \<lparr>sv_request_mqs = [Some q], sv_threads = [t3], sv_world = w3\<rparr>" "opened_disk (os w3) nm = d" by blast
  have wait: "handle_requests fuel M (IOHandler M) q t3 w3 = (t3, w3)" for fuel
    using three(2) by (intro handle_requests_wait) (auto simp: idle_server_def)
  have "length ws < n" using r(1,6) by simp
  then obtain j where n: "n = length ws + Suc j" using less_natE by auto
  have "handle_requests n M (IOHandler M) q t w1 = (t3, w3)" unfolding n two'(1) three(1) by (rule wait)
  then have run: "?P \<lparr>sv_request_mqs = [Some q], sv_threads = [t], sv_world = w1\<rparr> = \<lparr>sv_request_mqs = [Some q], sv_threads = [t3], sv_world = w3\<rparr>"
    using s1 by (simp add: server_run_single serving_def)
  define y3 where "y3 = (set_boost b1 y2)\<lparr>cs_client := None\<rparr>"
  have "cvbd_close M ?P b = (Ret (), b\<lparr>bs_client := y3\<rparr>)"
    using sent r(2,3) rm(1)
    by (simp add: cvbd_close_def release_volume_def shared_mem_destroy_client_def SharedMemClient_delete_def on_client_def zoom_run
        catch_all_run cmd_simps this_def on_mq_def y3_def)
  moreover have "cs_server y3 = \<lparr>sv_request_mqs = [Some q], sv_threads = [t], sv_world = w1\<rparr>"
    using r(3) by (simp add: y3_def set_boost_def w1_def)
  ultimately show ?thesis using run three(2,3) by auto
qed

section \<open>The next session\<close>

lemma disk_ops_size: "d_size (snd (disk_ops bss d xs)) = d_size d"
  by (induction xs arbitrary: d) (simp_all add: disk_op_size split: prod.split, metis disk_op_size snd_conv)

text \<open>C38. Data survives the end of a session: after any sequence of requests inside a volume's disk, the driver
  closes the image; once the server has worked off its queue it waits for requests as before the
  session, and a new open of the image reports \<open>-EINVAL\<close> exactly if Boost refuses the reply queue,
  and otherwise connects to the disk the first session left. No system call fails meanwhile.\<close>

theorem data_survives_reopen:
  fixes M :: "'b boost_mq" and b :: "'b bds"
  assumes con: "connected ioh_volume M n (bs_client b) d" "cs_client (bs_client b) = Some c" "d_size d = 2 ^ 34"
    and nm: "good_name nm" "cl_volume_name c = nm" "volume_file w (cl_volume c) = Some (volume_path nm)"
    and w: "w = sv_world (cs_server (bs_client b))" "wf_world w" "brk w < 2 ^ 64" "mq_names M (boost w) (request_mq_name 0) = Some (cl_request_mq c)"
    and xs: "\<forall>x \<in> set xs. op_inside bss fuel (2 ^ 34) x"
    and again: "\<forall>i \<ge> volume_name_at. stray i = 0" "qdict_get_try_str Q options ''export'' = Some nm"
    and P: "P = server_run n M (IOHandler M)"
  shows "\<exists>s1 b2 b3 r b4. run_ops fuel (shared_mem_read M P) (shared_mem_write M P) (getsize_volume M P) bss xs (bs_client b) =
      (Ret (fst (disk_ops bss d xs)), s1) \<and>
    cvbd_close M P (b\<lparr>bs_client := s1\<rparr>) = (Ret (), b2) \<and>
    b3 = b2\<lparr>bs_client := (bs_client b2)\<lparr>cs_server := P (cs_server (bs_client b2))\<rparr>\<rparr> \<and> idle_server M (cs_server (bs_client b3)) \<and>
    cvbd_open M Q P stray v options dict b3 = (Ret (r, cvbd_config Q dict), b4) \<and>
    r = (if gets_reply_queue M nm (cs_server (bs_client b3)) then 0 else - EINVAL) \<and>
    (r = 0 \<longrightarrow> connected ioh_volume M n (bs_client b4) (snd (disk_ops bss d xs)))"
proof -
  let ?at = "volume_file w" and ?K = "ioh_kept (volume_file w) (brk w) (cl_request_mq c)"
  have "connected ?K M n (bs_client b) d"
    using con(1,2) w unfolding connected_def client_rel_def serving_def ioh_kept_def session_kept_def by fastforce
  then obtain s1 where s1: "run_ops fuel (shared_mem_read M P) (shared_mem_write M P) (getsize_volume M P) bss xs (bs_client b) =
      (Ret (fst (disk_ops bss d xs)), s1)" "connected ?K M n s1 (snd (disk_ops bss d xs))"
    using kept.store.run_ops_refines [of ?at "brk w" "cl_request_mq c" "(M, n)" "bs_client b" d xs bss fuel] xs con(3) by (auto simp: P)
  from s1(2) obtain c1 where c1: "client_rel ?K M n (bs_client (b\<lparr>bs_client := s1\<rparr>)) c1 (snd (disk_ops bss d xs)) []" "cs_client s1 = Some c1"
    by (auto simp: connected_def elim: client_relE)
  have "same_client c (bs_client b)" using con(2) by (simp add: same_client_def)
  from keepsD [OF keeps_run_ops this s1(1)] c1(2) have same: "cl_request_mq c1 = cl_request_mq c" "cl_volume c1 = cl_volume c" "cl_volume_name c1 = nm"
    using nm(2) by (auto simp: same_client_def)
  have "cl_volume_name c1 \<noteq> request_mq_name 0" using same(3) nm(1) by (simp add: good_name_def)
  from close_then_idle [OF c1(1) same(1) this _ _ w(3), of nm] same(2) nm(3) con(3) obtain b2 where
    b2: "cvbd_close M P (b\<lparr>bs_client := s1\<rparr>) = (Ret (), b2)" "idle_server M (P (cs_server (bs_client b2)))"
      "opened_disk (os (sv_world (P (cs_server (bs_client b2))))) nm = snd (disk_ops bss d xs)" by (auto simp: P disk_ops_size)
  define b3 where "b3 = b2\<lparr>bs_client := (bs_client b2)\<lparr>cs_server := P (cs_server (bs_client b2))\<rparr>\<rparr>"
  have idle: "idle_server M (cs_server (bs_client b3))" "max_queue_size \<le> n"
    using b2(2) c1(1) by (auto simp: b3_def elim: client_relE)
  have "os (sv_world (cs_server (bs_client b3))) = os (sv_world (P (cs_server (bs_client b2))))" by (simp add: b3_def)
  with cvbd_open_connects [OF idle nm(1) again, of v dict] b2(3) have "\<exists>r b4. cvbd_open M Q P stray v options dict b3 = (Ret (r, cvbd_config Q dict), b4) \<and>
    r = (if gets_reply_queue M nm (cs_server (bs_client b3)) then 0 else - EINVAL) \<and>
    (r = 0 \<longrightarrow> connected ioh_volume M n (bs_client b4) (snd (disk_ops bss d xs)))" by (auto simp: P EINVAL_def)
  with s1(1) b2(1) b3_def idle(1) show ?thesis by blast
qed

text \<open>The sample client, on a server whose request queue has its name.\<close>

definition sample_named :: "fifo bds" where
  "sample_named = sample_bds\<lparr>bs_client := sample_csys\<lparr>cs_server := \<lparr>sv_request_mqs = [Some 0], sv_threads = [sample_thread],
     sv_world = sample_world\<lparr>boost := sample_boost\<lparr>f_names := [''vol'' \<mapsto> 2, request_mq_name 0 \<mapsto> 0]\<rparr>\<rparr>\<rparr>\<rparr>\<rparr>"

lemma sample_named_connected: "connected ioh_volume fifo_mq 32 (bs_client sample_named) sample_disk"
proof -
  let ?w = "sample_world\<lparr>boost := sample_boost\<lparr>f_names := [''vol'' \<mapsto> 2, request_mq_name 0 \<mapsto> 0]\<rparr>\<rparr>"
  have mq: "mq_limits fifo_mq (boost ?w) = mq_limits fifo_mq (boost sample_world)" "mq_contents fifo_mq (boost ?w) = mq_contents fifo_mq (boost sample_world)"
    by (simp_all add: fifo_mq_def)
  have "ioh_volume fifo_mq ?w 1 2 sample_disk" by (rule ioh_volume_boost [OF sample_volume]) (use mq in simp)
  with mq show ?thesis
    unfolding connected_def client_rel_def
    by (intro exI [of _ sample_client] conjI exI [of _ sample_thread] exI [of _ ?w] exI [of _ sample_disk] exI [of _ "[]"])
      (simp_all add: sample_named_def sample_csys_def sample_client_def sample_thread_def serving_def sample_mq size_defs)
qed

theorem data_survives_reopen_witness:
  "\<exists>s1 b2 b3 b4. run_ops 9000 (shared_mem_read fifo_mq (server_run 32 fifo_mq (IOHandler fifo_mq)))
      (shared_mem_write fifo_mq (server_run 32 fifo_mq (IOHandler fifo_mq))) (getsize_volume fifo_mq (server_run 32 fifo_mq (IOHandler fifo_mq)))
      512 [Op_write 8 (\<lambda>_. 7) 16] (bs_client sample_named) = (Ret [Ans_write 0], s1) \<and>
    cvbd_close fifo_mq (server_run 32 fifo_mq (IOHandler fifo_mq)) (sample_named\<lparr>bs_client := s1\<rparr>) = (Ret (), b2) \<and>
    b3 = b2\<lparr>bs_client := (bs_client b2)\<lparr>cs_server := server_run 32 fifo_mq (IOHandler fifo_mq) (cs_server (bs_client b2))\<rparr>\<rparr> \<and>
    cvbd_open fifo_mq sample_qdict (server_run 32 fifo_mq (IOHandler fifo_mq)) (\<lambda>_. 0) 0 [''export'' \<mapsto> ''vol''] Map.empty b3 = (Ret (0, Map.empty), b4) \<and>
    connected ioh_volume fifo_mq 32 (bs_client b4) (disk_write sample_disk 4096 (\<lambda>_. 7) 0 8192)"
proof -
  have c: "cs_client (bs_client sample_named) = Some sample_client" "cl_volume_name sample_client = ''vol''" "d_size sample_disk = 2 ^ 34"
    "cl_request_mq sample_client = 0" "cl_volume sample_client = 1"
    by (simp_all add: sample_named_def sample_csys_def sample_client_def sample_disk_def)
  let ?w = "sv_world (cs_server (bs_client sample_named))"
  have sv: "?w = sample_world\<lparr>boost := sample_boost\<lparr>f_names := [''vol'' \<mapsto> 2, request_mq_name 0 \<mapsto> 0]\<rparr>\<rparr>" by (simp add: sample_named_def)
  have "volume_file sample_world 1 = Some (volume_path ''vol'')"
    by (simp add: volume_file_def sample_world_def sample_os_def sample_path_def)
  then have w: "volume_file ?w 1 = Some (volume_path ''vol'')" "wf_world ?w" "brk ?w < 2 ^ 64" "mq_names fifo_mq (boost ?w) (request_mq_name 0) = Some 0"
    using sample_wf volume_file_frame [of ?w sample_world]
    by (simp_all add: sv) (simp_all add: sample_world_def fifo_mq_def fifo_lookup_def sample_boost_def)
  have xs: "\<forall>x \<in> set [Op_write 8 (\<lambda>_. 7) 16]. op_inside 512 9000 (2 ^ 34) x" "is_request_aligned 512 8 16"
    "xfer_start 512 8 = 4096" "xfer_size 512 16 = 8192"
    by (simp_all add: xfer_inside_def xfer_start_def xfer_size_def is_request_aligned_def sector_bytes_def CVBD_BLKSIZE_def)
  have q: "qdict_get_try_str sample_qdict [''export'' \<mapsto> ''vol''] ''export'' = Some ''vol''" "cvbd_config sample_qdict Map.empty = Map.empty"
    by (simp_all add: sample_qdict_def cvbd_config_def)
  let ?P = "server_run 32 fifo_mq (IOHandler fifo_mq)"
  have "volume_file ?w (cl_volume sample_client) = Some (volume_path ''vol'')"
    "mq_names fifo_mq (boost ?w) (request_mq_name 0) = Some (cl_request_mq sample_client)" using c(4,5) w(1,4) by simp_all
  from data_survives_reopen [OF sample_named_connected c(1,3) sample_good_name c(2) this(1) refl w(2,3) this(2) xs(1) _ q(1) refl, of "\<lambda>_. 0" 0 Map.empty]
  obtain s1 b2 b3 r b4 where
    "run_ops 9000 (shared_mem_read fifo_mq ?P) (shared_mem_write fifo_mq ?P) (getsize_volume fifo_mq ?P) 512 [Op_write 8 (\<lambda>_. 7) 16] (bs_client sample_named) =
      (Ret (fst (disk_ops 512 sample_disk [Op_write 8 (\<lambda>_. 7) 16])), s1)"
    "cvbd_close fifo_mq ?P (sample_named\<lparr>bs_client := s1\<rparr>) = (Ret (), b2)"
    "b3 = b2\<lparr>bs_client := (bs_client b2)\<lparr>cs_server := ?P (cs_server (bs_client b2))\<rparr>\<rparr>"
    "cvbd_open fifo_mq sample_qdict ?P (\<lambda>_. 0) 0 [''export'' \<mapsto> ''vol''] Map.empty b3 = (Ret (r, cvbd_config sample_qdict Map.empty), b4)"
    "r = (if gets_reply_queue fifo_mq ''vol'' (cs_server (bs_client b3)) then 0 else - EINVAL)"
    "r = 0 \<longrightarrow> connected ioh_volume fifo_mq 32 (bs_client b4) (snd (disk_ops 512 sample_disk [Op_write 8 (\<lambda>_. 7) 16]))" by blast
  then show ?thesis using q(2) xs(2-4) sample_gets_reply_queue by (intro exI [of _ s1] exI [of _ b2] exI [of _ b3] exI [of _ b4]) simp
qed

end
