(* ===== verification/Pipe_Queues.thy ===== *)
theory Pipe_Queues
  imports Async_Requests
begin

text \<open>
  The two queues of an asynchronous client with several requests under way. The request queue
  holds writes, reads and flushes in the order they were sent, the reply queue the answers in the
  same order; the requests that wait for an answer are a list that the server moves, one by one,
  from the first queue to the second. The disk is what the server stores once it has applied the
  writes of the queue, and an answer holds the disk's bytes at the place of its request among them.
\<close>

section \<open>Requests that wait for an answer\<close>

text \<open>
  A request under way: its control block and the block's contents, the request itself, what its reply satisfies
  and the size of the reply, and what the reply does to the guest's memory.
\<close>

record pending =
  pd_acb :: u64
  pd_block :: acb
  pd_op :: co_op
  pd_reply :: "mem \<Rightarrow> bool"
  pd_len :: nat
  pd_deliver :: "mem \<Rightarrow> mem"

text \<open>
  The messages of both queues, as a reader of the header may rely on them: no stop request, a
  type of \<open>RequestType\<close> and the size of the struct of that type.
\<close>

definition request_size_of :: "u32 \<Rightarrow> nat option" where
  "request_size_of ty =
     (if ty = type_code REQ_WRITE then Some writerequest_size
      else if ty = type_code REQ_READ then Some readrequest_size
      else if ty = type_code REQ_OPEN then Some openrequest_size
      else if ty = type_code REQ_CLOSE then Some closerequest_size
      else if ty = type_code REQ_GETSIZE then Some getsizerequest_size
      else if ty = type_code REQ_FSYNC then Some fsyncrequest_size
      else None)"

definition typed_request :: "message \<Rightarrow> bool" where
  "typed_request m \<longleftrightarrow> \<not> h_stop (get_header (msg_bytes m)) \<and> request_size_of (h_type (get_header (msg_bytes m))) = Some (msg_size m)"

definition co_reply_size_of :: "u32 \<Rightarrow> nat option" where
  "co_reply_size_of ty =
     (if ty = type_code REQ_READ then Some readreply_size
      else if ty = type_code REQ_FSYNC then Some getsizereply_size
      else None)"

definition typed_co_reply :: "message \<Rightarrow> bool" where
  "typed_co_reply m \<longleftrightarrow> \<not> h_stop (get_header (msg_bytes m)) \<and> co_reply_size_of (h_type (get_header (msg_bytes m))) = Some (msg_size m)"

abbreviation msg_acb :: "message \<Rightarrow> u64" where
  "msg_acb m \<equiv> h_acb (get_header (msg_bytes m))"

text \<open>A message that asks volume \<open>v\<close> for the reply of a pending request, and that reply; both carry the address of its control block.\<close>

definition replies_to :: "u64 \<Rightarrow> message \<Rightarrow> bool" where
  "replies_to a m \<longleftrightarrow> typed_co_reply m \<and> msg_acb m = a"

definition asks_for :: "u64 \<Rightarrow> pending \<Rightarrow> message \<Rightarrow> bool" where
  "asks_for v p m \<longleftrightarrow> typed_request m \<and> h_volume (get_header (msg_bytes m)) = v \<and> h_type (get_header (msg_bytes m)) \<noteq> type_code REQ_WRITE \<and>
     msg_acb m = pd_acb p \<and> (\<forall>r. pd_reply p r \<longrightarrow> replies_to (pd_acb p) (mk_message r (pd_len p)))"

text \<open>
  The request queue: messages that ask to write, which change the disk from \<open>d\<close> on the way to \<open>d'\<close>,
  and messages whose answer is the reply of the next pending request.
\<close>

inductive queued :: "('b boost_mq \<Rightarrow> 'b world \<Rightarrow> u64 \<Rightarrow> mqid \<Rightarrow> disk \<Rightarrow> bool) \<Rightarrow> 'b boost_mq \<Rightarrow> 'b handler_ops \<Rightarrow> client \<Rightarrow>
    message list \<Rightarrow> pending list \<Rightarrow> disk \<Rightarrow> disk \<Rightarrow> bool" for vol M H c where
  queued_none: "queued vol M H c [] [] d d"
| queued_write: "write_msg (cl_volume c) d m \<Longrightarrow> queued vol M H c ms ps (apply_write d (msg_bytes m)) d' \<Longrightarrow> queued vol M H c (m # ms) ps d d'"
| queued_request: "asks_for (cl_volume c) p m \<Longrightarrow> served vol M H c d m (pd_reply p) (pd_len p) \<Longrightarrow>
    queued vol M H c ms ps d d' \<Longrightarrow> queued vol M H c (m # ms) (p # ps) d d'"

inductive_simps queued_Nil: "queued vol M H c [] ps d d'"

lemma queued_size: "queued vol M H c ms ps d d' \<Longrightarrow> d_size d' = d_size d \<and>
     length ps = length (filter (\<lambda>m. h_type (get_header (msg_bytes m)) \<noteq> type_code REQ_WRITE) ms)"
  by (induction rule: queued.induct) (auto simp: write_msg_def addressed_def asks_for_def)

lemma queued_append_write:
  "queued vol M H c ms ps d d' \<Longrightarrow> write_msg (cl_volume c) d' m \<Longrightarrow> queued vol M H c (ms @ [m]) ps d (apply_write d' (msg_bytes m))"
  by (induction rule: queued.induct) (auto intro: queued.intros)

lemma queued_append_request:
  "queued vol M H c ms ps d d' \<Longrightarrow> asks_for (cl_volume c) p m \<Longrightarrow>
   served vol M H c d' m (pd_reply p) (pd_len p) \<Longrightarrow> queued vol M H c (ms @ [m]) (ps @ [p]) d d'"
  by (induction rule: queued.induct) (auto intro: queued.intros)

lemma queued_writes:
  "\<forall>m \<in> set ws. write_msg (cl_volume c) d m \<Longrightarrow> queued vol M H c ws [] d (foldl (\<lambda>d m. apply_write d (msg_bytes m)) d ws)"
  by (induction ws arbitrary: d) (auto intro: queued.intros)

lemma queued_only_writes:
  "queued vol M H c ms [] d d' \<Longrightarrow> (\<forall>m \<in> set ms. write_msg (cl_volume c) d m) \<and> d' = foldl (\<lambda>d m. apply_write d (msg_bytes m)) d ms"
  by (induction ms "[] :: pending list" d d' rule: queued.induct) auto

text \<open>A message the client sends: a write changes the disk, another request is one more under way.\<close>

inductive enqueues :: "('b boost_mq \<Rightarrow> 'b world \<Rightarrow> u64 \<Rightarrow> mqid \<Rightarrow> disk \<Rightarrow> bool) \<Rightarrow> 'b boost_mq \<Rightarrow> 'b handler_ops \<Rightarrow> client \<Rightarrow>
    disk \<Rightarrow> message \<Rightarrow> pending list \<Rightarrow> disk \<Rightarrow> bool" for vol M H c d m where
  enqueues_write: "write_msg (cl_volume c) d m \<Longrightarrow> enqueues vol M H c d m [] (apply_write d (msg_bytes m))"
| enqueues_request: "asks_for (cl_volume c) p m \<Longrightarrow> served vol M H c d m (pd_reply p) (pd_len p) \<Longrightarrow> enqueues vol M H c d m [p] d"

lemma queued_enqueues:
  "queued vol M H c ms ps d0 d \<Longrightarrow> enqueues vol M H c d m new d' \<Longrightarrow> queued vol M H c (ms @ [m]) (ps @ new) d0 d'"
  by (erule enqueues.cases) (auto intro: queued_append_write queued_append_request)

text \<open>Every message in the queue is well-formed, and those that are not writes carry the control blocks of the pending requests.\<close>

lemma write_msg_typed: "write_msg v d m \<Longrightarrow> typed_request m \<and> h_volume (get_header (msg_bytes m)) = v"
  by (simp add: write_msg_def addressed_def typed_request_def request_size_of_def)

lemma queued_typed:
  "queued vol M H c ms ps d d' \<Longrightarrow> (\<forall>m \<in> set ms. typed_request m \<and> h_volume (get_header (msg_bytes m)) = cl_volume c) \<and>
     map msg_acb (filter (\<lambda>m. h_type (get_header (msg_bytes m)) \<noteq> type_code REQ_WRITE) ms) = map pd_acb ps"
proof (induction rule: queued.induct)
  case (queued_write d m ms ps d')
  moreover have "h_type (get_header (msg_bytes m)) = type_code REQ_WRITE"
    using queued_write(1) by (simp add: write_msg_def addressed_def)
  ultimately show ?case using write_msg_typed [OF queued_write(1)] by simp
qed (auto simp: asks_for_def)

text \<open>The buffers of the client do not matter.\<close>

lemma queued_client:
  assumes "queued vol M H c ms ps d d'"
    and "cl_request_mq c' = cl_request_mq c" "cl_reply_mq c' = cl_reply_mq c" "cl_volume c' = cl_volume c"
  shows "queued vol M H c' ms ps d d'"
proof -
  have "served vol M H c' = served vol M H c" using assms(2-4) by (simp add: served_def fun_eq_iff)
  with assms show ?thesis by (induction rule: queued.induct) (auto intro: queued.intros)
qed

text \<open>The reply queue.\<close>

definition answers :: "pending \<Rightarrow> message \<Rightarrow> bool" where
  "answers p msg \<longleftrightarrow> (\<exists>r. msg = mk_message r (pd_len p) \<and> pd_reply p r) \<and> replies_to (pd_acb p) msg"

section \<open>The state of both queues\<close>

text \<open>
  A connected client with the requests \<open>ps\<close> under way over the disk \<open>d\<close>: the oldest of them are
  answered, the others wait in the request queue. At most 32 of them are under way, the bound of the
  reply queue.
\<close>

definition pipe_rel :: "('b boost_mq \<Rightarrow> 'b world \<Rightarrow> u64 \<Rightarrow> mqid \<Rightarrow> disk \<Rightarrow> bool) \<Rightarrow> 'b boost_mq \<Rightarrow> 'b handler_ops \<Rightarrow> nat \<Rightarrow>
    'b csys \<Rightarrow> client \<Rightarrow> disk \<Rightarrow> pending list \<Rightarrow> bool" where
  "pipe_rel vol M H n y c d ps \<longleftrightarrow> max_queue_size \<le> n \<and> cs_client y = Some c \<and> length ps \<le> max_queue_size \<and>
     (\<exists>t w d0 ps1 ps2. cs_server y = \<lparr>sv_request_mqs = [Some (cl_request_mq c)], sv_threads = [t], sv_world = w\<rparr> \<and>
        serving vol M (cl_request_mq c) (cl_volume c) (cl_reply_mq c) t w d0 \<and> ps = ps1 @ ps2 \<and>
        queued vol M H c (mq_contents M (boost w) (cl_request_mq c)) ps2 d0 d \<and>
        length (mq_contents M (boost w) (cl_request_mq c)) \<le> max_queue_size \<and>
        list_all2 answers ps1 (mq_contents M (boost w) (cl_reply_mq c)))"

lemma pipe_relE:
  assumes "pipe_rel vol M H n y c d ps"
  obtains t w d0 ps1 ps2 where "max_queue_size \<le> n" "cs_client y = Some c" "length ps \<le> max_queue_size"
    "cs_server y = \<lparr>sv_request_mqs = [Some (cl_request_mq c)], sv_threads = [t], sv_world = w\<rparr>"
    "serving vol M (cl_request_mq c) (cl_volume c) (cl_reply_mq c) t w d0" "ps = ps1 @ ps2"
    "queued vol M H c (mq_contents M (boost w) (cl_request_mq c)) ps2 d0 d"
    "length (mq_contents M (boost w) (cl_request_mq c)) \<le> max_queue_size"
    "list_all2 answers ps1 (mq_contents M (boost w) (cl_reply_mq c))"
  using assms unfolding pipe_rel_def by blast

lemma pipe_relI:
  assumes "max_queue_size \<le> n" "cs_client y = Some c" "length (ps1 @ ps2) \<le> max_queue_size"
    "cs_server y = \<lparr>sv_request_mqs = [Some (cl_request_mq c)], sv_threads = [t], sv_world = w\<rparr>"
    "serving vol M (cl_request_mq c) (cl_volume c) (cl_reply_mq c) t w d0"
    "queued vol M H c (mq_contents M (boost w) (cl_request_mq c)) ps2 d0 d"
    "length (mq_contents M (boost w) (cl_request_mq c)) \<le> max_queue_size"
    "list_all2 answers ps1 (mq_contents M (boost w) (cl_reply_mq c))"
  shows "pipe_rel vol M H n y c d (ps1 @ ps2)"
  using assms unfolding pipe_rel_def by blast

lemma pipe_rel_frame:
  assumes "pipe_rel vol M H n y c d ps" "cs_server y' = cs_server y" "cs_client y' = Some c'"
    and "cl_request_mq c' = cl_request_mq c" "cl_reply_mq c' = cl_reply_mq c" "cl_volume c' = cl_volume c"
  shows "pipe_rel vol M H n y' c' d ps"
proof -
  from assms(1) obtain t w d0 ps1 ps2 where r: "max_queue_size \<le> n" "cs_client y = Some c" "length ps \<le> max_queue_size"
    "cs_server y = \<lparr>sv_request_mqs = [Some (cl_request_mq c)], sv_threads = [t], sv_world = w\<rparr>"
    "serving vol M (cl_request_mq c) (cl_volume c) (cl_reply_mq c) t w d0" "ps = ps1 @ ps2"
    "queued vol M H c (mq_contents M (boost w) (cl_request_mq c)) ps2 d0 d"
    "length (mq_contents M (boost w) (cl_request_mq c)) \<le> max_queue_size"
    "list_all2 answers ps1 (mq_contents M (boost w) (cl_reply_mq c))" by (rule pipe_relE)
  then show ?thesis
    unfolding r(6) using assms(2-) queued_client [OF r(7) assms(4-6)]
    by (intro pipe_relI [of n y' c' ps1 ps2 t w vol M d0]) simp_all
qed

text \<open>With no request under way it is the relation of a connected client.\<close>

lemma client_rel_pipe: "client_rel vol M n y c d [] \<Longrightarrow> pipe_rel vol M H n y c d []"
  by (erule client_relE) (rule pipe_relI [of _ _ _ "[]" "[]", simplified], auto intro: queued_writes)

lemma pipe_rel_client:
  assumes "pipe_rel vol M H n y c d []"
  shows "client_rel vol M n y c d []"
proof -
  from assms obtain t w d0 ps1 ps2 where r: "max_queue_size \<le> n" "cs_client y = Some c"
    "cs_server y = \<lparr>sv_request_mqs = [Some (cl_request_mq c)], sv_threads = [t], sv_world = w\<rparr>"
    "serving vol M (cl_request_mq c) (cl_volume c) (cl_reply_mq c) t w d0" "[] = ps1 @ ps2"
    "queued vol M H c (mq_contents M (boost w) (cl_request_mq c)) ps2 d0 d"
    "length (mq_contents M (boost w) (cl_request_mq c)) \<le> max_queue_size"
    "list_all2 answers ps1 (mq_contents M (boost w) (cl_reply_mq c))" by (rule pipe_relE)
  with queued_only_writes [of vol M H c _ d0 d] show ?thesis
    unfolding client_rel_def by auto
qed

section \<open>The server\<close>

context storage_handler
begin

text \<open>A turn of the server on a queue that is not empty: it applies a write or answers a request.\<close>

lemma pipe_serve_turn:
  assumes rel: "pipe_rel vol M (H M) n y c d ps" and m: "mq_contents M (cs_boost y) (cl_request_mq c) = m # ms"
  obtains t w t' w' where
    "cs_server y = \<lparr>sv_request_mqs = [Some (cl_request_mq c)], sv_threads = [t], sv_world = w\<rparr>" "th_state t = Running" "th_state t' = Running"
    "\<And>fuel. handle_requests (Suc fuel) M (H M) (cl_request_mq c) t w = handle_requests fuel M (H M) (cl_request_mq c) t' w'"
    "pipe_rel vol M (H M) n (y\<lparr>cs_server := \<lparr>sv_request_mqs = [Some (cl_request_mq c)], sv_threads = [t'], sv_world = w'\<rparr>\<rparr>) c d ps"
    "mq_contents M (boost w') (cl_request_mq c) = ms"
    "length (mq_contents M (boost w') (cl_reply_mq c)) \<le> Suc (length (mq_contents M (boost w) (cl_reply_mq c)))"
proof -
  let ?q = "cl_request_mq c" and ?rq = "cl_reply_mq c"
  from rel obtain t w d0 ps1 ps2 where r: "max_queue_size \<le> n" "cs_client y = Some c" "length ps \<le> max_queue_size"
    "cs_server y = \<lparr>sv_request_mqs = [Some ?q], sv_threads = [t], sv_world = w\<rparr>"
    "serving vol M ?q (cl_volume c) ?rq t w d0" "ps = ps1 @ ps2"
    "queued vol M (H M) c (mq_contents M (boost w) ?q) ps2 d0 d"
    "length (mq_contents M (boost w) ?q) \<le> max_queue_size"
    "list_all2 answers ps1 (mq_contents M (boost w) ?rq)" by (rule pipe_relE)
  have m': "mq_contents M (boost w) ?q = m # ms" using m r(4) by simp
  have run: "th_state t = Running" using r(5) by (simp add: serving_def)
  from r(7) [unfolded m'] show thesis
  proof (cases)
    case queued_write
    from serve_write [OF r(5) m' queued_write(1)] obtain t' w' where
      one: "\<And>fuel. handle_requests (Suc fuel) M (H M) ?q t w = handle_requests fuel M (H M) ?q t' w'"
        "serving vol M ?q (cl_volume c) ?rq t' w' (apply_write d0 (msg_bytes m))" "mq_changes M (boost w) ?q ms (boost w')" by blast
    show thesis
    proof (rule that [OF r(4) run _ one(1)])
      show "pipe_rel vol M (H M) n (y\<lparr>cs_server := \<lparr>sv_request_mqs = [Some ?q], sv_threads = [t'], sv_world = w'\<rparr>\<rparr>) c d ps"
        unfolding r(6) by (rule pipe_relI [OF _ _ _ _ one(2)]) (use r m' one queued_write in \<open>auto simp: mq_changes_def serving_def\<close>)
    qed (use one in \<open>simp_all add: mq_changes_def serving_def\<close>)
  next
    case (queued_request p ps')
    have "length (mq_contents M (boost w) ?rq) < max_queue_size" using r(3,6,9) queued_request(1) by (auto dest: list_all2_lengthD)
    then have full: "\<not> mq_full M (boost w) ?rq"
      using r(5) vol_limits [of M w "cl_volume c" ?rq d0] by (simp add: serving_def mq_full_def)
    obtain x t' w' where
      one: "\<And>fuel. handle_requests (Suc fuel) M (H M) ?q t w = handle_requests fuel M (H M) ?q t' w'"
        "serving vol M ?q (cl_volume c) ?rq t' w' d0" "pd_reply p x"
        "mq_contents M (boost w') = (mq_contents M (boost w))(?q := ms, ?rq := mq_contents M (boost w) ?rq @ [mk_message x (pd_len p)])"
      by (rule servedE [OF queued_request(3) r(5) m' full]) (rule that)
    have ps: "ps = (ps1 @ [p]) @ ps'" using r(6) queued_request(1) by simp
    have "answers p (mk_message x (pd_len p))" using one(3) queued_request(2) by (auto simp: answers_def asks_for_def)
    then have rep: "list_all2 answers (ps1 @ [p]) (mq_contents M (boost w') ?rq)"
      using r(9) one(4) by (auto intro: list_all2_appendI)
    have q: "mq_contents M (boost w') ?q = ms" using one(2,4) by (simp add: serving_def)
    show thesis
    proof (rule that [OF r(4) run _ one(1)])
      show "pipe_rel vol M (H M) n (y\<lparr>cs_server := \<lparr>sv_request_mqs = [Some ?q], sv_threads = [t'], sv_world = w'\<rparr>\<rparr>) c d ps"
        unfolding ps by (rule pipe_relI [OF _ _ _ _ one(2)]) (use r ps m' q rep queued_request in auto)
    qed (use one q in \<open>simp_all add: serving_def\<close>)
  qed
qed

text \<open>A server with an empty queue waits.\<close>

lemma pipe_serve_none:
  assumes rel: "pipe_rel vol M (H M) n y c d ps" and m: "mq_contents M (cs_boost y) (cl_request_mq c) = []"
  shows "peer k M (cs_server y) = cs_server y"
proof -
  from rel obtain t w d0 where r: "cs_server y = \<lparr>sv_request_mqs = [Some (cl_request_mq c)], sv_threads = [t], sv_world = w\<rparr>"
    "serving vol M (cl_request_mq c) (cl_volume c) (cl_reply_mq c) t w d0" by (rule pipe_relE)
  then show ?thesis
    using m handle_requests_wait [of M w "cl_request_mq c" k "H M" t] vol_laws
    by (auto simp: server_run_single serving_def)
qed

lemma pipe_serve_one:
  assumes rel: "pipe_rel vol M (H M) n y c d ps"
  shows "pipe_rel vol M (H M) n (serve_one M (H M) y) c d ps"
    and "mq_contents M (cs_boost (serve_one M (H M) y)) (cl_request_mq c) = tl (mq_contents M (cs_boost y) (cl_request_mq c))"
    and "length (mq_contents M (cs_boost (serve_one M (H M) y)) (cl_reply_mq c)) \<le>
      length (mq_contents M (cs_boost y) (cl_reply_mq c)) + of_bool (mq_contents M (cs_boost y) (cl_request_mq c) \<noteq> [])"
    and "mq_contents M (cs_boost y) (cl_request_mq c) \<noteq> [] \<Longrightarrow>
      peer (Suc k) M (cs_server y) = peer k M (cs_server (serve_one M (H M) y))"
proof -
  let ?q = "cl_request_mq c" and ?rq = "cl_reply_mq c" and ?y = "serve_one M (H M) y"
  have "pipe_rel vol M (H M) n ?y c d ps \<and> mq_contents M (cs_boost ?y) ?q = tl (mq_contents M (cs_boost y) ?q) \<and>
    length (mq_contents M (cs_boost ?y) ?rq) \<le> length (mq_contents M (cs_boost y) ?rq) + of_bool (mq_contents M (cs_boost y) ?q \<noteq> []) \<and>
    (mq_contents M (cs_boost y) ?q \<noteq> [] \<longrightarrow> peer (Suc k) M (cs_server y) = peer k M (cs_server ?y))"
  proof (cases "mq_contents M (cs_boost y) ?q")
    case Nil
    from pipe_serve_none [OF rel this, of 1] have "?y = y" by (simp add: serve_one_def)
    with rel Nil show ?thesis by simp
  next
    case (Cons m ms)
    from rel Cons obtain t w t' w' where
      s: "cs_server y = \<lparr>sv_request_mqs = [Some ?q], sv_threads = [t], sv_world = w\<rparr>" "th_state t = Running" "th_state t' = Running"
        "\<And>fuel. handle_requests (Suc fuel) M (H M) ?q t w = handle_requests fuel M (H M) ?q t' w'"
        "pipe_rel vol M (H M) n (y\<lparr>cs_server := \<lparr>sv_request_mqs = [Some ?q], sv_threads = [t'], sv_world = w'\<rparr>\<rparr>) c d ps"
        "mq_contents M (boost w') ?q = ms" "length (mq_contents M (boost w') ?rq) \<le> Suc (length (mq_contents M (boost w) ?rq))"
      by (rule pipe_serve_turn) (rule that)
    have "server_run (Suc j) M (H M) (cs_server y) = server_run j M (H M) \<lparr>sv_request_mqs = [Some ?q], sv_threads = [t'], sv_world = w'\<rparr>" for j
      using s(2-4) by (simp add: s(1) server_run_single del: handle_requests.simps)
    moreover from this [of 0] have "?y = y\<lparr>cs_server := \<lparr>sv_request_mqs = [Some ?q], sv_threads = [t'], sv_world = w'\<rparr>\<rparr>"
      using s(3) by (simp add: serve_one_def server_run_single)
    ultimately show ?thesis using s(1,5-7) Cons by simp
  qed
  then show "pipe_rel vol M (H M) n ?y c d ps" "mq_contents M (cs_boost ?y) ?q = tl (mq_contents M (cs_boost y) ?q)"
    "length (mq_contents M (cs_boost ?y) ?rq) \<le> length (mq_contents M (cs_boost y) ?rq) + of_bool (mq_contents M (cs_boost y) ?q \<noteq> [])"
    "mq_contents M (cs_boost y) ?q \<noteq> [] \<Longrightarrow> peer (Suc k) M (cs_server y) = peer k M (cs_server ?y)" by auto
qed

text \<open>A server that gets enough turns empties its queue.\<close>

lemma pipe_drain:
  assumes "pipe_rel vol M (H M) n y c d ps" "length (mq_contents M (cs_boost y) (cl_request_mq c)) \<le> k"
  shows "pipe_rel vol M (H M) n (y\<lparr>cs_server := peer k M (cs_server y)\<rparr>) c d ps \<and>
    mq_contents M (boost (sv_world (peer k M (cs_server y)))) (cl_request_mq c) = []"
  using assms
proof (induction k arbitrary: y)
  case 0
  then show ?case using pipe_serve_none [of M n y c d ps 0] by simp
next
  case (Suc k)
  show ?case
  proof (cases "mq_contents M (cs_boost y) (cl_request_mq c) = []")
    case True
    with Suc.prems(1) show ?thesis by (simp add: pipe_serve_none)
  next
    case False
    note one = pipe_serve_one [OF Suc.prems(1)]
    have "(serve_one M (H M) y)\<lparr>cs_server := z\<rparr> = y\<lparr>cs_server := z\<rparr>" for z by (simp add: serve_one_def)
    with Suc.IH [OF one(1)] Suc.prems(2) one(4) [OF False] show ?thesis by (simp add: one(2))
  qed
qed

section \<open>The client\<close>

lemma pipe_append:
  assumes rel: "pipe_rel vol M (H M) n y c d ps" and e: "enqueues vol M (H M) c d m new d'" "length (ps @ new) \<le> max_queue_size"
    and full: "length (mq_contents M (cs_boost y) (cl_request_mq c)) < max_queue_size"
    and b: "mq_changes M (cs_boost y) (cl_request_mq c) (mq_contents M (cs_boost y) (cl_request_mq c) @ [m]) b"
  shows "pipe_rel vol M (H M) n (set_boost b y) c d' (ps @ new)"
proof -
  let ?q = "cl_request_mq c" and ?rq = "cl_reply_mq c"
  from rel obtain t w d0 ps1 ps2 where r: "max_queue_size \<le> n" "cs_client y = Some c" "length ps \<le> max_queue_size"
    "cs_server y = \<lparr>sv_request_mqs = [Some ?q], sv_threads = [t], sv_world = w\<rparr>"
    "serving vol M ?q (cl_volume c) ?rq t w d0" "ps = ps1 @ ps2"
    "queued vol M (H M) c (mq_contents M (boost w) ?q) ps2 d0 d"
    "length (mq_contents M (boost w) ?q) \<le> max_queue_size"
    "list_all2 answers ps1 (mq_contents M (boost w) ?rq)" by (rule pipe_relE)
  have v: "vol M (w\<lparr>boost := b\<rparr>) (cl_volume c) ?rq d0"
    using r(4,5) b vol_frame [of M w "cl_volume c" ?rq d0 ?q] by (auto simp: serving_def)
  have "pipe_rel vol M (H M) n (set_boost b y) c d' (ps1 @ (ps2 @ new))"
    by (rule pipe_relI [of n "set_boost b y" c ps1 "ps2 @ new" t "w\<lparr>boost := b\<rparr>" vol M d0])
      (use r e full b v queued_enqueues [OF r(7) e(1)] in \<open>auto simp: set_boost_def serving_def mq_changes_def\<close>)
  then show ?thesis by (simp add: r(6))
qed

lemma pipe_send:
  assumes rel: "pipe_rel vol M (H M) n y c d ps" and e: "enqueues vol M (H M) c d m new d'" "length (ps @ new) \<le> max_queue_size"
    and m: "msg_size m \<le> request_size"
  shows "\<exists>y'. wait_mq (peer n M) (mq_send M (cl_request_mq c) m 0) y = (Ret (), y') \<and> pipe_rel vol M (H M) n y' c d' (ps @ new)"
proof -
  let ?q = "cl_request_mq c" and ?y = "y\<lparr>cs_server := peer n M (cs_server y)\<rparr>"
  have send: "\<exists>b. mq_send M ?q m 0 (cs_boost y) = (MQ_ok (), b) \<and> pipe_rel vol M (H M) n (set_boost b y) c d' (ps @ new)"
    if "pipe_rel vol M (H M) n y c d ps" "\<not> mq_full M (cs_boost y) ?q" for y
  proof -
    from that(1) have s: "mq_laws M" "mq_limits M (cs_boost y) ?q = (max_queue_size, request_size)"
      by (rule pipe_relE, use vol_laws in \<open>auto simp: serving_def\<close>)+
    then have "msg_size m \<le> snd (mq_limits M (cs_boost y) ?q)" using m by simp
    from mq_sendE [OF s(1) this that(2)] obtain b where
      "mq_send M ?q m 0 (cs_boost y) = (MQ_ok (), b)" "mq_changes M (cs_boost y) ?q (mq_contents M (cs_boost y) ?q @ [m]) b" .
    with pipe_append [OF that(1) e _ this(2)] that(2) s(2) show ?thesis by (auto simp: mq_full_def)
  qed
  have s: "mq_laws M" "mq_limits M (cs_boost y) ?q = (max_queue_size, request_size)" "length (mq_contents M (cs_boost y) ?q) \<le> n"
    using rel by (rule pipe_relE, use vol_laws in \<open>auto simp: serving_def\<close>)+
  show ?thesis
  proof (cases "mq_full M (cs_boost y) ?q")
    case False
    with send [OF rel] show ?thesis by (auto intro: wait_mq_now)
  next
    case True
    from pipe_drain [OF rel s(3)] have d: "pipe_rel vol M (H M) n ?y c d ps" "mq_contents M (cs_boost ?y) ?q = []" by auto
    then have "\<not> mq_full M (cs_boost ?y) ?q"
      by - (rule pipe_relE [OF d(1)], auto simp: serving_def mq_full_def size_defs)
    from send [OF d(1) this] obtain b where
      b: "mq_send M ?q m 0 (cs_boost ?y) = (MQ_ok (), b)" "pipe_rel vol M (H M) n (set_boost b ?y) c d' (ps @ new)" by blast
    have "wait_mq (peer n M) (mq_send M ?q m 0) y = (Ret (), set_boost b ?y)"
      using mq_send_blocks [OF s(1) _ True] s(2) m b(1) by (intro wait_mq_later) simp_all
    with b(2) show ?thesis by blast
  qed
qed

end

section \<open>The reply thread\<close>

text \<open>The reply of a request reaches the guest's memory and schedules the bottom half, whatever the memory and the reply buffer hold.\<close>

definition delivers :: "'b callback \<Rightarrow> pending \<Rightarrow> bool" where
  "delivers callback p \<longleftrightarrow>
     (\<forall>c g. completes callback c (pd_acb p) (pd_block p) g (pd_deliver p g) (pd_reply p) (pd_len p))"

context storage_handler
begin

text \<open>A turn of the reply thread completes the oldest request that is answered.\<close>

lemma pipe_reply:
  assumes rel: "pipe_rel vol M (H M) n (as_sys s) c d ps" and m: "mq_contents M (cs_boost (as_sys s)) (cl_reply_mq c) \<noteq> []"
    and run: "as_reply s = Running" and p: "\<forall>p \<in> set ps. delivers (cvbd_finish_aio :: 'b callback) p \<and> as_acbs s (pd_acb p) = Some (pd_block p)"
  obtains p ps' x c' y where "ps = p # ps'" "acb_ret x = 0"
    "reply_turn M s = s\<lparr>as_sys := y, as_guest := pd_deliver p (as_guest s), as_acbs := (as_acbs s)(pd_acb p \<mapsto> x), as_bhs := as_bhs s @ [pd_acb p]\<rparr>"
    "pipe_rel vol M (H M) n y c' d ps'" "cl_request_mq c' = cl_request_mq c" "cl_reply_mq c' = cl_reply_mq c"
    "mq_contents M (cs_boost y) = (mq_contents M (cs_boost (as_sys s)))(cl_reply_mq c := tl (mq_contents M (cs_boost (as_sys s)) (cl_reply_mq c)))"
proof -
  let ?q = "cl_request_mq c" and ?rq = "cl_reply_mq c"
  from rel obtain t w d0 ps1 ps2 where r: "max_queue_size \<le> n" "cs_client (as_sys s) = Some c" "length ps \<le> max_queue_size"
    "cs_server (as_sys s) = \<lparr>sv_request_mqs = [Some ?q], sv_threads = [t], sv_world = w\<rparr>"
    "serving vol M ?q (cl_volume c) ?rq t w d0" "ps = ps1 @ ps2"
    "queued vol M (H M) c (mq_contents M (boost w) ?q) ps2 d0 d"
    "length (mq_contents M (boost w) ?q) \<le> max_queue_size"
    "list_all2 answers ps1 (mq_contents M (boost w) ?rq)" by (rule pipe_relE)
  from m r(4,9) obtain p ps1' r0 ms where ps1: "ps1 = p # ps1'" "mq_contents M (boost w) ?rq = mk_message r0 (pd_len p) # ms"
    "pd_reply p r0" "list_all2 answers ps1' ms"
    by (cases "mq_contents M (boost w) ?rq") (auto simp: list_all2_Cons2 answers_def)
  let ?r = "memcpy (cl_reply_msg c) 0 r0 0 (pd_len p)"
  have a: "as_acbs s (pd_acb p) = Some (pd_block p)"
    and del: "completes (cvbd_finish_aio :: 'b callback) c (pd_acb p) (pd_block p) (as_guest s) (pd_deliver p (as_guest s)) (pd_reply p) (pd_len p)"
    using p r(6) ps1(1) by (simp_all add: delivers_def)
  have stop: "\<not> h_stop (get_header ?r)"
    using del [unfolded completes_def, rule_format, OF ps1(3) a refl] by simp
  have laws: "mq_laws M" "snd (mq_limits M (cs_boost (as_sys s)) ?rq) \<le> reply_size"
    "mq_contents M (cs_boost (as_sys s)) ?rq = mk_message r0 (pd_len p) # ms"
    using r(4,5) ps1(2) vol_laws vol_limits by (auto simp: serving_def)
  from reply_turn_receives [OF laws(1) r(2) run laws(2,3) refl stop] obtain b where
    b: "mq_changes M (cs_boost (as_sys s)) ?rq ms b"
      "reply_turn M s = (case co_reply_body cvbd_finish_aio ?r (s\<lparr>as_sys := (set_boost b (as_sys s))\<lparr>cs_client := Some (c\<lparr>cl_reply_msg := ?r\<rparr>)\<rparr>\<rparr>) of
         (Ret _, t) \<Rightarrow> t | (Fail e, t) \<Rightarrow> t\<lparr>as_reply := Dead e\<rparr>)" by blast
  define c' where "c' = c\<lparr>cl_reply_msg := ?r\<rparr>"
  define y where "y = (set_boost b (as_sys s))\<lparr>cs_client := Some c'\<rparr>"
  from del [unfolded completes_def, rule_format, of r0 "s\<lparr>as_sys := y\<rparr>"] ps1(3) a obtain x where
    x: "acb_ret x = 0" "co_reply_body cvbd_finish_aio ?r (s\<lparr>as_sys := y\<rparr>) =
       (Ret (), s\<lparr>as_sys := y, as_guest := pd_deliver p (as_guest s), as_acbs := (as_acbs s)(pd_acb p \<mapsto> x), as_bhs := as_bhs s @ [pd_acb p]\<rparr>)" by auto
  have v: "vol M (w\<lparr>boost := b\<rparr>) (cl_volume c) ?rq d0"
    using r(4,5) b(1) vol_frame [of M w "cl_volume c" ?rq d0 ?rq] by (auto simp: serving_def)
  have q: "queued vol M (H M) c' (mq_contents M (boost w) ?q) ps2 d0 d"
    by (rule queued_client [OF r(7)]) (simp_all add: c'_def)
  have "pipe_rel vol M (H M) n y c' d (ps1' @ ps2)"
    by (rule pipe_relI [of n y c' ps1' ps2 t "w\<lparr>boost := b\<rparr>" vol M d0])
      (use r b(1) v q ps1 in \<open>auto simp: y_def c'_def set_boost_def serving_def mq_changes_def\<close>)
  moreover have "mq_contents M (cs_boost y) = (mq_contents M (cs_boost (as_sys s)))(?rq := tl (mq_contents M (cs_boost (as_sys s)) ?rq))"
    using b(1) laws(3) by (simp add: y_def set_boost_def mq_changes_def)
  ultimately show thesis
    using x b(2) r(6) ps1(1) by (intro that [of p "ps1' @ ps2" x y c']) (simp_all add: y_def c'_def)
qed

lemma pipe_reply_none:
  assumes rel: "pipe_rel vol M (H M) n (as_sys s) c d ps" and m: "mq_contents M (cs_boost (as_sys s)) (cl_reply_mq c) = []"
  shows "reply_turn M s = s"
proof -
  from rel obtain t w d0 where r: "cs_client (as_sys s) = Some c"
    "cs_server (as_sys s) = \<lparr>sv_request_mqs = [Some (cl_request_mq c)], sv_threads = [t], sv_world = w\<rparr>"
    "serving vol M (cl_request_mq c) (cl_volume c) (cl_reply_mq c) t w d0" by (rule pipe_relE)
  with m show ?thesis
    using vol_laws vol_limits by (intro reply_turn_idle [of M s c max_queue_size]) (auto simp: serving_def)
qed

end

end
