(* ===== verification/Async_Pipeline.thy ===== *)
theory Async_Pipeline
  imports Pipe_Queues
begin

text \<open>
  Several requests of \<open>src/cvbd.c\<close> under way at a time: QEMU starts a coroutine while others are
  suspended, and the server, the reply thread and the main loop take their turns in between.
\<close>

section \<open>The process\<close>

text \<open>A request up to its yield.\<close>

fun co_start :: "'b boost_mq \<Rightarrow> ('b server \<Rightarrow> 'b server) \<Rightarrow> acb \<Rightarrow> u64 \<Rightarrow> co_op \<Rightarrow> ('b asys, co_state) cmd" where
  "co_start M peer stray bss (Co_read sector nb qiov) = co_rw_start M peer stray bss sector nb qiov False"
| "co_start M peer stray bss (Co_write sector nb qiov) = co_rw_start M peer stray bss sector nb qiov True"
| "co_start M peer stray bss Co_flush = co_flush_start M peer stray"

text \<open>The suspended coroutines, by their control blocks, and the requests that have ended, with their results.\<close>

record 'b pipe =
  pi_sys :: "'b asys"
  pi_running :: "(u64 \<times> co_op) list"
  pi_results :: "(co_op \<times> int) list"

text \<open>What can happen next: QEMU starts a request, or a part of the system takes its turn.\<close>

datatype event = Start co_op | Server | Reply | Main

definition on_pipe :: "('b asys, 'a) cmd \<Rightarrow> ('b pipe, 'a) cmd" where
  "on_pipe m = zoom pi_sys (\<lambda>s p. p\<lparr>pi_sys := s\<rparr>) m"

definition pipe_suspend :: "u64 \<Rightarrow> co_op \<Rightarrow> 'b pipe \<Rightarrow> 'b pipe" where
  "pipe_suspend a x p = p\<lparr>pi_running := pi_running p @ [(a, x)]\<rparr>"

definition pipe_end :: "u64 \<Rightarrow> int \<Rightarrow> 'b pipe \<Rightarrow> 'b pipe" where
  "pipe_end a r p = p\<lparr>pi_running := filter (\<lambda>(b, _). b \<noteq> a) (pi_running p),
     pi_results := pi_results p @ map (\<lambda>(_, x). (x, r)) (filter (\<lambda>(b, _). b = a) (pi_running p))\<rparr>"

text \<open>A thread that has failed takes the process with it.\<close>

definition alive_threads :: "('b asys, unit) cmd" where
  "alive_threads = (\<lambda>s. case (as_reply s, as_main s) of
       (Dead e, _) \<Rightarrow> (Fail e, s) | (_, Dead e) \<Rightarrow> (Fail e, s) | _ \<Rightarrow> (Ret (), s))"

text \<open>
  One event. The main loop runs the oldest bottom half, which enters its coroutine; the coroutine
  runs to its end.
\<close>

fun pipe_step :: "'b boost_mq \<Rightarrow> 'b handler_ops \<Rightarrow> nat \<Rightarrow> acb \<Rightarrow> u64 \<Rightarrow> event \<Rightarrow> ('b pipe, unit) cmd" where
  "pipe_step M H n stray bss (Start x) =
     cbind (on_pipe (co_start M (server_run n M H) stray bss x)) (\<lambda>st.
     case st of
       Co_return r \<Rightarrow> modify (\<lambda>p. p\<lparr>pi_results := pi_results p @ [(x, r)]\<rparr>)
     | Co_yield a \<Rightarrow> modify (pipe_suspend a x))"
| "pipe_step M H n stray bss Server = on_pipe (modify (server_turn M H))"
| "pipe_step M H n stray bss Reply = on_pipe (cbind (modify (reply_turn M)) (\<lambda>_. alive_threads))"
| "pipe_step M H n stray bss Main =
     cbind (on_pipe (gets as_bhs)) (\<lambda>bhs.
     case bhs of
       [] \<Rightarrow> ret ()
     | a # _ \<Rightarrow>
         cbind (on_pipe (cbind (modify bh_turn) (\<lambda>_. cbind alive_threads (\<lambda>_. co_finish a)))) (\<lambda>r.
         modify (pipe_end a r)))"

fun run_pipe :: "'b boost_mq \<Rightarrow> 'b handler_ops \<Rightarrow> nat \<Rightarrow> acb \<Rightarrow> u64 \<Rightarrow> event list \<Rightarrow> ('b pipe, unit) cmd" where
  "run_pipe M H n stray bss [] = ret ()"
| "run_pipe M H n stray bss (e # es) = cbind (pipe_step M H n stray bss e) (\<lambda>_. run_pipe M H n stray bss es)"

lemma run_pipe_append: "run_pipe M H n stray bss (es @ fs) = cbind (run_pipe M H n stray bss es) (\<lambda>_. run_pipe M H n stray bss fs)"
  by (induction es) (simp_all add: cbind_assoc)

fun event_ops :: "event \<Rightarrow> co_op list" where
  "event_ops (Start x) = [x]"
| "event_ops _ = []"

definition started :: "event list \<Rightarrow> co_op list" where
  "started es = concat (map event_ops es)"

text \<open>
  What the events rely on. A read or flush starts with fewer than 32 of them unanswered: the reply
  queue holds 32 messages, and a server that finds it full waits. And the guest does not ask to
  write from memory that a request under way is to read into.
\<close>

definition unanswered :: "'b boost_mq \<Rightarrow> 'b csys \<Rightarrow> nat" where
  "unanswered M y = (case cs_client y of None \<Rightarrow> 0
     | Some c \<Rightarrow> length (filter (\<lambda>m. h_type (get_header (msg_bytes m)) \<noteq> type_code REQ_WRITE) (mq_contents M (cs_boost y) (cl_request_mq c))) +
         length (mq_contents M (cs_boost y) (cl_reply_mq c)))"

fun co_target :: "co_op \<Rightarrow> nat set" where
  "co_target (Co_read sector nb qiov) = set (iov_addrs qiov)"
| "co_target _ = {}"

fun co_source :: "co_op \<Rightarrow> nat set" where
  "co_source (Co_write sector nb qiov) = set (iov_addrs qiov)"
| "co_source _ = {}"

fun co_waits :: "co_op \<Rightarrow> bool" where
  "co_waits (Co_write sector nb qiov) = False"
| "co_waits _ = True"

fun may_start :: "'b boost_mq \<Rightarrow> 'b pipe \<Rightarrow> event \<Rightarrow> bool" where
  "may_start M p (Start x) \<longleftrightarrow> (co_waits x \<longrightarrow> unanswered M (as_sys (pi_sys p)) < max_queue_size) \<and>
     list_all (\<lambda>(_, z). co_source x \<inter> co_target z = {}) (pi_running p)"
| "may_start M p _ = True"

fun paced :: "'b boost_mq \<Rightarrow> 'b handler_ops \<Rightarrow> nat \<Rightarrow> acb \<Rightarrow> u64 \<Rightarrow> event list \<Rightarrow> 'b pipe \<Rightarrow> bool" where
  "paced M H n stray bss [] p = True"
| "paced M H n stray bss (e # es) p \<longleftrightarrow> may_start M p e \<and>
     (case pipe_step M H n stray bss e p of (Ret _, p') \<Rightarrow> paced M H n stray bss es p' | (Fail _, _) \<Rightarrow> True)"

text \<open>A process with no request under way.\<close>

definition pipe_of :: "'b asys \<Rightarrow> 'b pipe" where
  "pipe_of s = \<lparr>pi_sys = s, pi_running = [], pi_results = []\<rparr>"

section \<open>Starting a request\<close>

lemma put_header_run:
  "cs_client y = Some c \<Longrightarrow> put_request_header type a y = (Ret (), y\<lparr>cs_id := cs_id y + 1,
     cs_client := Some (c\<lparr>cl_request_msg := put_header (cl_request_msg c) (Header_make False type (scast (cs_id y + 1)) (cl_volume c) a)\<rparr>)\<rparr>)"
  by (simp add: put_request_header_def set_request_msg_def this_def cmd_simps)

lemma set_request_msg_run:
  "cs_client y = Some c \<Longrightarrow> set_request_msg m y = (Ret (), y\<lparr>cs_client := Some (c\<lparr>cl_request_msg := m\<rparr>)\<rparr>)"
  by (simp add: set_request_msg_def this_def cmd_simps)

lemma new_acb_fresh:
  assumes "as_next s < 2 ^ 64" "0 < as_next s"
  shows "new_acb stray s = (Ret (word_of_nat (as_next s)), s\<lparr>as_acbs := (as_acbs s)(word_of_nat (as_next s) \<mapsto> stray), as_next := Suc (as_next s)\<rparr>)"
    and "(word_of_nat (as_next s) :: u64) \<noteq> 0"
  using assms by (auto simp: new_acb_def cmd_simps word_of_nat_eq_0_iff dest: dvd_imp_le)

text \<open>The pending request a read or a flush leaves behind.\<close>

fun op_block :: "u64 \<Rightarrow> acb \<Rightarrow> co_op \<Rightarrow> acb" where
  "op_block bss stray (Co_read sector nb qiov) = init_acb (sector_bytes bss nb) (Some qiov) stray"
| "op_block bss stray (Co_write sector nb qiov) = init_acb (sector_bytes bss nb) (Some qiov) stray"
| "op_block bss stray Co_flush = init_acb 0 None stray"

definition op_pending :: "u64 \<Rightarrow> acb \<Rightarrow> co_op \<Rightarrow> u64 \<Rightarrow> mem \<Rightarrow> disk \<Rightarrow> pending" where
  "op_pending bss stray x a m d =
     \<lparr>pd_acb = a, pd_block = op_block bss stray x, pd_op = x,
      pd_reply = (if x = Co_flush then is_fsync_reply m else (\<lambda>r. is_read_reply m r d)),
      pd_len = (if x = Co_flush then getsizereply_size else readreply_size),
      pd_deliver = (\<lambda>g. snd (co_effect bss x (d, g)))\<rparr>"

text \<open>The message of a read or a flush asks for the reply of that request.\<close>

lemma op_pending_asks:
  assumes "co_waits x" "msg_size m = (if x = Co_flush then fsyncrequest_size else readrequest_size)" "\<not> h_stop (get_header (msg_bytes m))"
    and "h_type (get_header (msg_bytes m)) = type_code (if x = Co_flush then REQ_FSYNC else REQ_READ)"
  shows "asks_for (h_volume (get_header (msg_bytes m))) (op_pending bss stray x (msg_acb m) (msg_bytes m) d) m"
proof -
  have "get_header (msg_bytes (mk_message r k)) = get_header r" if "header_size \<le> k" for r k
    using that by (simp add: mk_message_def mem_simps)
  with assms show ?thesis
    by (auto simp: asks_for_def replies_to_def typed_request_def typed_co_reply_def request_size_of_def co_reply_size_of_def op_pending_def
        is_read_reply_def is_fsync_reply_def size_defs)
qed

context storage_handler
begin

lemma send_request_pipe:
  assumes "pipe_rel vol M (H M) n y c d ps" "enqueues vol M (H M) c d (mk_message (cl_request_msg c) k) new d'"
    and "length (ps @ new) \<le> max_queue_size" "k \<le> request_size"
  shows "\<exists>y'. send_request M (peer n M) k y = (Ret (), y') \<and> pipe_rel vol M (H M) n y' c d' (ps @ new)"
proof -
  have "cs_client y = Some c" using assms(1) by (rule pipe_relE)
  then show ?thesis
    using pipe_send [OF assms(1-3)] assms(4) by (fastforce simp: send_request_def cbind_run this_run)
qed

lemma co_start_read:
  assumes rel: "pipe_rel vol M (H M) n (as_sys s) c d ps" "length ps < max_queue_size"
    and nx: "as_next s < 2 ^ 64" "0 < as_next s" and x: "co_inside bss sector nb (d_size d)"
    and a: "a = word_of_nat (as_next s)"
  shows "\<exists>y c' m. co_start M (peer n M) stray bss (Co_read sector nb qiov) s = (Ret (Co_yield a),
      s\<lparr>as_next := Suc (as_next s), as_acbs := (as_acbs s)(a \<mapsto> op_block bss stray (Co_read sector nb qiov)), as_sys := y\<rparr>) \<and>
    pipe_rel vol M (H M) n y c' d (ps @ [op_pending bss stray (Co_read sector nb qiov) a m d]) \<and>
    delivers (cvbd_finish_aio :: 'b callback) (op_pending bss stray (Co_read sector nb qiov) a m d)"
proof -
  note x' = co_insideD [OF x]
  note new = new_acb_fresh(1) [OF nx, of stray, folded a] new_acb_fresh(2) [OF nx, folded a]
  let ?y = "as_sys s" and ?sz = "sector_bytes bss nb" and ?off = "sector * bss"
  have c: "cs_client ?y = Some c" using rel(1) by (rule pipe_relE)
  define m where "m = ReadRequest_init (put_header (cl_request_msg c) (Header_make False REQ_READ (scast (cs_id ?y + 1)) (cl_volume c) a)) ?off ?sz"
  define c2 where "c2 = c\<lparr>cl_request_msg := m\<rparr>"
  define y2 where "y2 = ?y\<lparr>cs_id := cs_id ?y + 1, cs_client := Some c2\<rparr>"
  let ?msg = "mk_message m readrequest_size" and ?p = "op_pending bss stray (Co_read sector nb qiov) a (msg_bytes (mk_message m readrequest_size)) d"
  have fields: "get_header (msg_bytes ?msg) = Header_make False REQ_READ (scast (cs_id ?y + 1)) (cl_volume c) a"
    "req_offset (msg_bytes ?msg) = ?off" "req_size (msg_bytes ?msg) = ?sz"
    by (simp_all add: mk_message_def m_def mem_simps size_defs)
  have rel2: "pipe_rel vol M (H M) n y2 c2 d ps"
    by (rule pipe_rel_frame [OF rel(1)]) (simp_all add: y2_def c2_def)
  have "addressed REQ_READ (cl_volume c2) (msg_bytes ?msg)" "in_range d (msg_bytes ?msg)"
    using x' by (simp_all add: addressed_def in_range_def fields Header_make_def c2_def)
  moreover have asks: "asks_for (cl_volume c2) ?p ?msg"
    using op_pending_asks [of "Co_read sector nb qiov" ?msg] by (simp add: fields Header_make_def c2_def)
  ultimately have "enqueues vol M (H M) c2 d ?msg [?p] d"
    using served_read [of ?msg c2 d M] by (intro enqueues_request) (simp_all add: asks, simp_all add: op_pending_def)
  then obtain y where
    y: "send_request M (peer n M) readrequest_size y2 = (Ret (), y)" "pipe_rel vol M (H M) n y c2 d (ps @ [?p])"
    using send_request_pipe [OF rel2, of readrequest_size "[?p]" d] rel(2) request_fits by (auto simp: c2_def)
  have "delivers (cvbd_finish_aio :: 'b callback) ?p"
    using completes_read [where 'b = 'b, OF fields(1,3,2) new(2) _ _ x'(3)] x'
    by (simp add: delivers_def op_pending_def init_acb_def)
  moreover have "co_start M (peer n M) stray bss (Co_read sector nb qiov) s = (Ret (Co_yield a),
      s\<lparr>as_next := Suc (as_next s), as_acbs := (as_acbs s)(a \<mapsto> op_block bss stray (Co_read sector nb qiov)), as_sys := y\<rparr>)"
    using x'(1,3) new y(1) c
    by (simp add: co_rw_start_def shared_mem_readv_def send_readv_def cbind_run catch_all_run assert_run ret_run
        set_acb_run deref_acb_run on_sys_run this_run put_header_run set_request_msg_run init_acb_def y2_def c2_def m_def)
  ultimately show ?thesis using y(2) by blast
qed

lemma co_start_flush:
  assumes rel: "pipe_rel vol M (H M) n (as_sys s) c d ps" "length ps < max_queue_size"
    and nx: "as_next s < 2 ^ 64" "0 < as_next s" and a: "a = word_of_nat (as_next s)"
  shows "\<exists>y c' m. co_start M (peer n M) stray bss Co_flush s = (Ret (Co_yield a),
      s\<lparr>as_next := Suc (as_next s), as_acbs := (as_acbs s)(a \<mapsto> op_block bss stray Co_flush), as_sys := y\<rparr>) \<and>
    pipe_rel vol M (H M) n y c' d (ps @ [op_pending bss stray Co_flush a m d]) \<and>
    delivers (cvbd_finish_aio :: 'b callback) (op_pending bss stray Co_flush a m d)"
proof -
  note new = new_acb_fresh(1) [OF nx, of stray, folded a] new_acb_fresh(2) [OF nx, folded a]
  let ?y = "as_sys s"
  have c: "cs_client ?y = Some c" using rel(1) by (rule pipe_relE)
  define m where "m = put_header (cl_request_msg c) (Header_make False REQ_FSYNC (scast (cs_id ?y + 1)) (cl_volume c) a)"
  define c2 where "c2 = c\<lparr>cl_request_msg := m\<rparr>"
  define y2 where "y2 = ?y\<lparr>cs_id := cs_id ?y + 1, cs_client := Some c2\<rparr>"
  let ?msg = "mk_message m fsyncrequest_size" and ?p = "op_pending bss stray Co_flush a (msg_bytes (mk_message m fsyncrequest_size)) d"
  have fields: "get_header (msg_bytes ?msg) = Header_make False REQ_FSYNC (scast (cs_id ?y + 1)) (cl_volume c) a"
    by (simp add: mk_message_def m_def mem_simps size_defs)
  have rel2: "pipe_rel vol M (H M) n y2 c2 d ps"
    by (rule pipe_rel_frame [OF rel(1)]) (simp_all add: y2_def c2_def)
  have "addressed REQ_FSYNC (cl_volume c2) (msg_bytes ?msg)"
    by (simp add: addressed_def fields Header_make_def c2_def)
  moreover have asks: "asks_for (cl_volume c2) ?p ?msg"
    using op_pending_asks [of Co_flush ?msg] by (simp add: fields Header_make_def c2_def)
  ultimately have "enqueues vol M (H M) c2 d ?msg [?p] d"
    using served_fsync [of ?msg c2 M d] by (intro enqueues_request) (simp_all add: asks, simp_all add: op_pending_def)
  then obtain y where
    y: "send_request M (peer n M) fsyncrequest_size y2 = (Ret (), y)" "pipe_rel vol M (H M) n y c2 d (ps @ [?p])"
    using send_request_pipe [OF rel2, of fsyncrequest_size "[?p]" d] rel(2) request_fits by (auto simp: c2_def)
  have "delivers (cvbd_finish_aio :: 'b callback) ?p"
    using completes_fsync [where 'b = 'b, OF fields new(2)] by (simp add: delivers_def op_pending_def init_acb_def)
  moreover have "co_start M (peer n M) stray bss Co_flush s = (Ret (Co_yield a),
      s\<lparr>as_next := Suc (as_next s), as_acbs := (as_acbs s)(a \<mapsto> op_block bss stray Co_flush), as_sys := y\<rparr>)"
    using new y(1) c
    by (simp add: co_flush_start_def shared_mem_fsync_def send_fsync_def cbind_run catch_all_run ret_run
        set_acb_run on_sys_run put_header_run init_acb_def y2_def c2_def m_def)
  ultimately show ?thesis using y(2) by blast
qed

text \<open>A write takes its bytes from the guest's memory as it is when the request starts, and is complete at once.\<close>

lemma co_start_write:
  assumes rel: "pipe_rel vol M (H M) n (as_sys s) c d ps"
    and nx: "as_next s < 2 ^ 64" "0 < as_next s" and x: "co_inside bss sector nb (d_size d)" "xfer_size bss nb \<le> iov_size qiov"
    and a: "a = word_of_nat (as_next s)"
  shows "\<exists>y c' b. co_start M (peer n M) stray bss (Co_write sector nb qiov) s = (Ret (Co_yield a),
      s\<lparr>as_next := Suc (as_next s), as_sys := y, as_acbs := (as_acbs s)(a \<mapsto> b), as_bhs := as_bhs s @ [a]\<rparr>) \<and> acb_ret b = 0 \<and>
    pipe_rel vol M (H M) n y c' (disk_write d (xfer_start bss sector) (gathered qiov (as_guest s)) 0 (xfer_size bss nb)) ps"
proof -
  note x' = co_insideD [OF x(1)]
  note new = new_acb_fresh(1) [OF nx, of stray, folded a] new_acb_fresh(2) [OF nx, folded a]
  let ?y = "as_sys s" and ?sz = "sector_bytes bss nb" and ?off = "sector * bss"
  have c: "cs_client ?y = Some c" using rel(1) by (rule pipe_relE)
  define m1 where "m1 = put_header (cl_request_msg c) (Header_make False REQ_WRITE (scast (cs_id ?y + 1)) (cl_volume c) a)"
  define m0 where "m0 = WriteRequest_init m1 ?off ?sz"
  define data where "data = load_at (take (unat ?sz) (iov_addrs qiov)) (\<lambda>i. m0 (write_data_at + i)) 0 (as_guest s)"
  define m where "m = memcpy m0 write_data_at data 0 (unat ?sz)"
  define c2 where "c2 = c\<lparr>cl_request_msg := m\<rparr>"
  define y2 where "y2 = ?y\<lparr>cs_id := cs_id ?y + 1, cs_client := Some c2\<rparr>"
  let ?msg = "mk_message m writerequest_size"
  have sz: "req_size m0 = ?sz" "req_size m = ?sz" by (simp_all add: m_def m0_def mem_simps size_defs)
  have fields: "get_header (msg_bytes ?msg) = Header_make False REQ_WRITE (scast (cs_id ?y + 1)) (cl_volume c) a"
    "req_offset (msg_bytes ?msg) = ?off" "req_size (msg_bytes ?msg) = ?sz"
    by (simp_all add: mk_message_def m_def m0_def m1_def mem_simps size_defs)
  have rel2: "pipe_rel vol M (H M) n y2 c2 d ps"
    by (rule pipe_rel_frame [OF rel(1)]) (simp_all add: y2_def c2_def)
  have "msg_bytes ?msg (write_data_at + i) = gathered qiov (as_guest s) (0 + i)" if "i < unat ?sz" for i
    using that x(2) x'(2,3) by (simp add: mk_message_def m_def data_def load_at_def gathered_def mem_simps size_defs)
  then have "memcpy (d_bytes d) k (msg_bytes ?msg) write_data_at (unat ?sz) = memcpy (d_bytes d) k (gathered qiov (as_guest s)) 0 (unat ?sz)" for k
    by (rule memcpy_cong)
  then have disk: "apply_write d (msg_bytes ?msg) = disk_write d (xfer_start bss sector) (gathered qiov (as_guest s)) 0 (xfer_size bss nb)"
    using x'(2,5) by (simp add: apply_write_def disk_write_def fields)
  have "write_msg (cl_volume c2) d ?msg"
    using x' by (simp add: write_msg_def addressed_def in_range_def fields Header_make_def c2_def)
  then have "enqueues vol M (H M) c2 d (mk_message (cl_request_msg c2) writerequest_size) [] (apply_write d (msg_bytes ?msg))"
    by (simp add: c2_def enqueues_write)
  moreover have "length (ps @ []) \<le> max_queue_size" using rel by (auto elim: pipe_relE)
  ultimately obtain y where
    y: "send_request M (peer n M) writerequest_size y2 = (Ret (), y)" "pipe_rel vol M (H M) n y c2 (apply_write d (msg_bytes ?msg)) ps"
    using send_request_pipe [OF rel2, of writerequest_size "[]"] request_fits(1) by auto
  let ?b = "(init_acb ?sz (Some qiov) stray)\<lparr>acb_ret := 0, acb_bh := True\<rparr>"
  have "co_start M (peer n M) stray bss (Co_write sector nb qiov) s = (Ret (Co_yield a),
      s\<lparr>as_next := Suc (as_next s), as_sys := y, as_guest := as_guest s, as_acbs := (as_acbs s)(a \<mapsto> ?b), as_bhs := as_bhs s @ [a]\<rparr>)"
    using x'(1,3) new y(1) c
    by (simp add: co_rw_start_def shared_mem_writev_def send_writev_def cbind_run catch_all_run assert_run ret_run
        set_acb_run deref_acb_run on_sys_run on_guest_run this_run the_qiov_def iov_to_buf_run cvbd_finish_aio_run finish_code_def
        put_header_run set_request_msg_run init_acb_def y2_def c2_def sz flip: m1_def m0_def data_def m_def)
  then show ?thesis using y(2) disk
    by (intro exI [of _ y] exI [of _ c2] exI [of _ ?b]) (simp add: init_acb_def)
qed

end

end
