(* ===== verification/Pipeline_Properties.thy ===== *)
theory Pipeline_Properties
  imports Async_Pipeline Async_Properties "HOL-Library.Multiset"
begin

text \<open>
  Several requests under way at a time are equivalent to the same requests one after another, in
  the order in which they start: an invariant of all sequences of events, and what it means once
  nothing is left to do.
\<close>

section \<open>The invariant\<close>

text \<open>A request under way: its reply completes it, its control block is as it was set, and its reply changes only the memory it reads into.\<close>

definition under_way :: "'b callback \<Rightarrow> 'b asys \<Rightarrow> (u64 \<times> co_op) list \<Rightarrow> pending \<Rightarrow> bool" where
  "under_way callback s running q \<longleftrightarrow> delivers callback q \<and> as_acbs s (pd_acb q) = Some (pd_block q) \<and> pd_acb q \<noteq> 0 \<and>
     (pd_acb q, pd_op q) \<in> set running \<and> (\<forall>g i. i \<notin> co_target (pd_op q) \<longrightarrow> pd_deliver q g i = g i)"

text \<open>A request whose bottom half is scheduled.\<close>

definition completed :: "'b asys \<Rightarrow> u64 \<Rightarrow> bool" where
  "completed s a \<longleftrightarrow> a \<noteq> 0 \<and> (\<exists>b. as_acbs s a = Some b \<and> acb_ret b = 0)"

text \<open>
  The control blocks: those of the suspended coroutines belong to a request that waits for its
  reply or to a bottom half, the others are as they were (\<open>A\<close>), and the addresses from the
  allocator's next one on are free.
\<close>

definition blocks_inv :: "'b asys \<Rightarrow> (u64 \<times> co_op) list \<Rightarrow> pending list \<Rightarrow> (u64 \<Rightarrow> acb option) \<Rightarrow> bool" where
  "blocks_inv s running ps A \<longleftrightarrow> (\<forall>q \<in> set ps. under_way (cvbd_finish_aio :: 'b callback) s running q) \<and>
     (\<forall>a \<in> set (as_bhs s). completed s a) \<and>
     distinct (map fst running) \<and> distinct (map pd_acb ps @ as_bhs s) \<and> set (map fst running) = set (map pd_acb ps @ as_bhs s) \<and>
     as_acbs s |` (- set (map fst running)) = A \<and>
     (\<forall>k. as_next s \<le> k \<longrightarrow> k < 2 ^ 64 \<longrightarrow> as_acbs s (word_of_nat k) = None)"

text \<open>
  The whole state, after the requests \<open>xs\<close> have started: \<open>d\<close> and \<open>g\<close> are the disk and the guest's
  memory once everything under way has ended.
\<close>

definition pipe_inv :: "('b boost_mq \<Rightarrow> 'b world \<Rightarrow> u64 \<Rightarrow> mqid \<Rightarrow> disk \<Rightarrow> bool) \<Rightarrow> 'b boost_mq \<Rightarrow> 'b handler_ops \<Rightarrow> nat \<Rightarrow>
    (u64 \<Rightarrow> acb option) \<Rightarrow> nat \<Rightarrow> disk \<Rightarrow> mem \<Rightarrow> co_op list \<Rightarrow> 'b pipe \<Rightarrow> bool" where
  "pipe_inv vol M H n A N d g xs p \<longleftrightarrow>
     (\<exists>c ps. pipe_rel vol M H n (as_sys (pi_sys p)) c d ps \<and> blocks_inv (pi_sys p) (pi_running p) ps A \<and>
        fold pd_deliver ps (as_guest (pi_sys p)) = g) \<and>
     as_reply (pi_sys p) = Running \<and> as_main (pi_sys p) = Running \<and> 0 < as_next (pi_sys p) \<and> as_next (pi_sys p) = N + length xs \<and>
     mset (map fst (pi_results p)) + mset (map snd (pi_running p)) = mset xs \<and> (\<forall>r \<in> set (pi_results p). snd r = 0)"

lemma pipe_invE:
  assumes "pipe_inv vol M H n A N d g xs p"
  obtains c ps where "pipe_rel vol M H n (as_sys (pi_sys p)) c d ps" "blocks_inv (pi_sys p) (pi_running p) ps A"
    "fold pd_deliver ps (as_guest (pi_sys p)) = g"
    "as_reply (pi_sys p) = Running" "as_main (pi_sys p) = Running" "0 < as_next (pi_sys p)" "as_next (pi_sys p) = N + length xs"
    "mset (map fst (pi_results p)) + mset (map snd (pi_running p)) = mset xs" "\<forall>r \<in> set (pi_results p). snd r = 0"
  using assms unfolding pipe_inv_def by blast

text \<open>The blocks after each kind of event.\<close>

lemma blocks_sys: "blocks_inv (s\<lparr>as_sys := y\<rparr>) running ps A = blocks_inv s running ps A"
  by (simp add: blocks_inv_def under_way_def completed_def)

lemma under_way_frame:
  "under_way callback s running q \<Longrightarrow> as_acbs s' (pd_acb q) = as_acbs s (pd_acb q) \<Longrightarrow> ((pd_acb q, pd_op q) \<in> set running \<Longrightarrow> (pd_acb q, pd_op q) \<in> set running') \<Longrightarrow>
   under_way callback s' running' q"
  by (simp add: under_way_def)

lemma blocks_invI:
  fixes s :: "'b asys"
  assumes "\<And>q. q \<in> set ps \<Longrightarrow> under_way (cvbd_finish_aio :: 'b callback) s running q" "\<And>a. a \<in> set (as_bhs s) \<Longrightarrow> completed s a"
    and "distinct (map fst running)" "distinct (map pd_acb ps @ as_bhs s)" "set (map fst running) = set (map pd_acb ps @ as_bhs s)"
    and "as_acbs s |` (- set (map fst running)) = A" "\<And>k. as_next s \<le> k \<Longrightarrow> k < 2 ^ 64 \<Longrightarrow> as_acbs s (word_of_nat k) = None"
  shows "blocks_inv s running ps A"
  using assms unfolding blocks_inv_def by blast

lemma blocks_invD:
  fixes s :: "'b asys"
  assumes "blocks_inv s running ps A"
  shows "q \<in> set ps \<Longrightarrow> under_way (cvbd_finish_aio :: 'b callback) s running q" "a \<in> set (as_bhs s) \<Longrightarrow> completed s a"
    and "distinct (map fst running)" "distinct (map pd_acb ps @ as_bhs s)" "set (map fst running) = set (map pd_acb ps @ as_bhs s)"
    and "as_acbs s |` (- set (map fst running)) = A" "as_next s \<le> k \<Longrightarrow> k < 2 ^ 64 \<Longrightarrow> as_acbs s (word_of_nat k) = None"
  using assms unfolding blocks_inv_def by blast+

lemma blocks_reply:
  assumes b: "blocks_inv s running (q # ps) A" "acb_ret b = 0"
    and s': "s' = s\<lparr>as_sys := y, as_guest := g, as_acbs := (as_acbs s)(pd_acb q \<mapsto> b), as_bhs := as_bhs s @ [pd_acb q]\<rparr>"
  shows "blocks_inv s' running ps A"
proof (rule blocks_invI)
  note B = blocks_invD [OF b(1)]
  have q: "as_acbs s (pd_acb q) \<noteq> None" "pd_acb q \<noteq> 0" "pd_acb q \<in> set (map fst running)" "pd_acb q \<notin> pd_acb ` set ps"
    using B(1) [of q] B(4,5) by (auto simp: under_way_def)
  show "as_acbs s' |` (- set (map fst running)) = A"
    unfolding B(6) [symmetric] using q(3) by (auto simp: s' restrict_map_def fun_eq_iff)
  show "under_way cvbd_finish_aio s' running q'" if "q' \<in> set ps" for q'
    by (rule under_way_frame [OF B(1)]) (use q(4) that in \<open>auto simp: s' image_iff\<close>)
  show "completed s' a" if "a \<in> set (as_bhs s')" for a
    using B(2) [of a] b(2) q(2) that by (auto simp: s' completed_def)
  show "as_acbs s' (word_of_nat k) = None" if "as_next s' \<le> k" "k < 2 ^ 64" for k
    using B(7) [of k] q(1) that by (auto simp: s')
qed (use blocks_invD [OF b(1)] in \<open>auto simp: s'\<close>)

lemma blocks_main:
  assumes b: "blocks_inv s running ps A" "as_bhs s = a # as"
    and s': "s' = s\<lparr>as_bhs := as, as_acbs := (as_acbs s)(a := None)\<rparr>" and r': "running' = filter (\<lambda>(b, _). b \<noteq> a) running"
  shows "blocks_inv s' running' ps A"
proof (rule blocks_invI)
  note B = blocks_invD [OF b(1)]
  have r: "set (map fst running') = set (map fst running) - {a}" by (force simp: r')
  have a: "a \<notin> pd_acb ` set ps" "a \<notin> set as" "a \<in> set (map fst running)" using B(4,5) b(2) by auto
  show "as_acbs s' |` (- set (map fst running')) = A"
    unfolding B(6) [symmetric] using a(3) unfolding r by (auto simp: restrict_map_def fun_eq_iff s')
  show "set (map fst running') = set (map pd_acb ps @ as_bhs s')" unfolding r using B(5) b(2) a by (auto simp: s')
  show "distinct (map fst running')" using B(3) by (simp add: r' distinct_map_filter)
  show "distinct (map pd_acb ps @ as_bhs s')" using B(4) b(2) by (simp add: s')
  show "under_way cvbd_finish_aio s' running' q" if "q \<in> set ps" for q
    by (rule under_way_frame [OF B(1)]) (use a(1) that in \<open>auto simp: s' r'\<close>)
  show "completed s' a'" if "a' \<in> set (as_bhs s')" for a'
    using B(2) [of a'] b(2) a(2) that by (auto simp: s' completed_def)
  show "as_acbs s' (word_of_nat k) = None" if "as_next s' \<le> k" "k < 2 ^ 64" for k
    using B(7) [of k] that by (simp add: s')
qed

text \<open>A request that starts: its control block is new, and it waits for its reply or is complete.\<close>

lemma blocks_start:
  fixes s s' :: "'b asys"
  assumes b: "blocks_inv s running ps A" and nx: "as_next s < 2 ^ 64" and a: "a = word_of_nat (as_next s)"
    and s': "as_next s' = Suc (as_next s)" "as_acbs s' = (as_acbs s)(a \<mapsto> blk)" "as_bhs s' = as_bhs s @ bhs"
    and new: "map pd_acb new @ bhs = [a]" "\<forall>q \<in> set new. under_way cvbd_finish_aio s' (running @ [(a, x)]) q" "\<forall>a \<in> set bhs. completed s' a"
  shows "blocks_inv s' (running @ [(a, x)]) (ps @ new) A"
proof (rule blocks_invI)
  note B = blocks_invD [OF b]
  have free: "as_acbs s a = None" using B(7) [of "as_next s"] nx a by simp
  then have fresh: "a \<notin> pd_acb ` set ps" "a \<notin> set (as_bhs s)" "a \<notin> set (map fst running)"
    using B(1) B(2) [of a] B(5) by (auto simp: under_way_def completed_def)
  show "as_acbs s' |` (- set (map fst (running @ [(a, x)]))) = A"
    unfolding B(6) [symmetric] using free by (auto simp: restrict_map_def fun_eq_iff s'(2))
  show "under_way cvbd_finish_aio s' (running @ [(a, x)]) q" if "q \<in> set (ps @ new)" for q
  proof (cases "q \<in> set new")
    case False
    with that have "q \<in> set ps" by simp
    with fresh(1) show ?thesis by (intro under_way_frame [OF B(1)]) (auto simp: s'(2))
  qed (use new(2) in blast)
  show "completed s' a'" if "a' \<in> set (as_bhs s')" for a'
    using B(2) [of a'] fresh(2) new(3) that by (auto simp: s'(2,3) completed_def)
  show "as_acbs s' (word_of_nat k) = None" if "as_next s' \<le> k" "k < 2 ^ 64" for k
  proof -
    have "a \<noteq> word_of_nat k"
    proof
      assume eq: "a = word_of_nat k"
      have "unat a = k" by (rule of_nat_inverse) (use eq that(2) in simp_all)
      moreover have "unat a = as_next s" by (rule of_nat_inverse) (use a nx in simp_all)
      ultimately show False using that(1) s'(1) by simp
    qed
    then show ?thesis using B(7) [of k] that s'(1,2) by simp
  qed
  have n: "set new = {} \<and> bhs = [a] \<or> (\<exists>q. new = [q] \<and> pd_acb q = a) \<and> bhs = []"
    using new(1) by (cases new) auto
  show "distinct (map pd_acb (ps @ new) @ as_bhs s')" "set (map fst (running @ [(a, x)])) = set (map pd_acb (ps @ new) @ as_bhs s')"
    using B(4,5) fresh n by (elim disjE; force simp: s'(3))+
  show "distinct (map fst (running @ [(a, x)]))" using B(3) fresh(3) by simp
qed

text \<open>
  What the pointers in the messages rely on: every message is well-formed and of the client's
  volume, and the control blocks that the requests and replies in flight refer to are live, belong to
  suspended coroutines and are all different.
\<close>

definition well_typed :: "'b boost_mq \<Rightarrow> 'b asys \<Rightarrow> (u64 \<times> co_op) list \<Rightarrow> bool" where
  "well_typed M s running \<longleftrightarrow> (case cs_client (as_sys s) of None \<Rightarrow> False
     | Some c \<Rightarrow>
         let requests = mq_contents M (cs_boost (as_sys s)) (cl_request_mq c);
             answers = mq_contents M (cs_boost (as_sys s)) (cl_reply_mq c);
             acbs = map msg_acb (answers @ filter (\<lambda>m. h_type (get_header (msg_bytes m)) \<noteq> type_code REQ_WRITE) requests) in
         (\<forall>m \<in> set requests. typed_request m \<and> h_volume (get_header (msg_bytes m)) = cl_volume c) \<and> (\<forall>m \<in> set answers. typed_co_reply m) \<and>
         distinct acbs \<and> (\<forall>a \<in> set acbs. a \<in> fst ` set running \<and> as_acbs s a \<noteq> None))"

section \<open>Every event keeps the invariant\<close>

text \<open>The replies that wait; with the backlog and the bottom halves, what is left to do.\<close>

definition replies :: "'b boost_mq \<Rightarrow> 'b csys \<Rightarrow> nat" where
  "replies M s = (case cs_client s of None \<Rightarrow> 0 | Some c \<Rightarrow> length (mq_contents M (cs_boost s) (cl_reply_mq c)))"

definition work :: "'b boost_mq \<Rightarrow> 'b asys \<Rightarrow> nat" where
  "work M s = 3 * backlog M (as_sys s) + 2 * replies M (as_sys s) + length (as_bhs s)"

lemma settled_work: "settled M s \<longleftrightarrow> work M s = 0"
  by (auto simp: settled_def work_def backlog_def replies_def split: option.split)

lemma fold_deliver_other:
  "\<forall>q \<in> set ps. i \<notin> co_target (pd_op q) \<and> under_way callback s running q \<Longrightarrow> fold pd_deliver ps g i = g i"
  by (induction ps arbitrary: g) (auto simp: under_way_def)

lemma scattered_other: "i \<notin> set (iov_addrs qiov) \<Longrightarrow> scattered qiov k d off g i = g i"
  unfolding scattered_def by (rule store_at_other) (auto dest: in_set_takeD)

lemma pipe_end_ops:
  "mset (map fst (pi_results (pipe_end a r p))) + mset (map snd (pi_running (pipe_end a r p))) =
   mset (map fst (pi_results p)) + mset (map snd (pi_running p))"
proof -
  have "mset (map fst (map (\<lambda>(_, x). (x, r)) (filter (\<lambda>(b, _). b = a) rs))) + mset (map snd (filter (\<lambda>(b, _). b \<noteq> a) rs)) = mset (map snd rs)"
    for rs :: "(u64 \<times> co_op) list"
    by (induction rs) auto
  then show ?thesis by (simp add: pipe_end_def)
qed

text \<open>The requests that wait for a reply are the messages that are not writes.\<close>

lemma unanswered_pending: "pipe_rel vol M H n y c d ps \<Longrightarrow> unanswered M y = length ps"
  by (auto elim!: pipe_relE dest!: queued_size list_all2_lengthD simp: unanswered_def)

lemma alive_threads_run: "as_reply s = Running \<Longrightarrow> as_main s = Running \<Longrightarrow> alive_threads s = (Ret (), s)"
  by (simp add: alive_threads_def)

lemma on_pipe_run: "on_pipe m p = (case m (pi_sys p) of (r, s) \<Rightarrow> (r, p\<lparr>pi_sys := s\<rparr>))"
  by (simp add: on_pipe_def zoom_run)

context storage_handler
begin

lemma pipe_inv_server:
  assumes "pipe_inv vol M (H M) n A N d g xs p"
  shows "\<exists>p'. pipe_step M (H M) n stray bss Server p = (Ret (), p') \<and> pipe_inv vol M (H M) n A N d g xs p' \<and>
    backlog M (as_sys (pi_sys p')) = backlog M (as_sys (pi_sys p)) - 1 \<and>
    replies M (as_sys (pi_sys p')) \<le> replies M (as_sys (pi_sys p)) + of_bool (backlog M (as_sys (pi_sys p)) \<noteq> 0) \<and>
    as_bhs (pi_sys p') = as_bhs (pi_sys p)"
  using assms
proof (rule pipe_invE)
  fix c ps
  assume r: "pipe_rel vol M (H M) n (as_sys (pi_sys p)) c d ps" "blocks_inv (pi_sys p) (pi_running p) ps A"
    "fold pd_deliver ps (as_guest (pi_sys p)) = g"
  let ?p = "p\<lparr>pi_sys := server_turn M (H M) (pi_sys p)\<rparr>"
  have "pipe_rel vol M (H M) n (as_sys (pi_sys ?p)) c d ps" "blocks_inv (pi_sys ?p) (pi_running ?p) ps A"
    "fold pd_deliver ps (as_guest (pi_sys ?p)) = g"
    using r pipe_serve_one(1) [OF r(1)] by (simp_all add: server_turn_eq blocks_sys)
  then have "pipe_inv vol M (H M) n A N d g xs ?p"
    using assms by (auto simp: pipe_inv_def server_turn_eq)
  moreover have "cs_client (as_sys (pi_sys p)) = Some c" "cs_client (serve_one M (H M) (as_sys (pi_sys p))) = Some c"
    using r(1) pipe_serve_one(1) [OF r(1)] by (auto elim: pipe_relE)
  ultimately show ?thesis
    using pipe_serve_one(2,3) [OF r(1)] by (simp add: on_pipe_run modify_run backlog_def replies_def server_turn_eq)
qed

lemma pipe_inv_reply:
  assumes "pipe_inv vol M (H M) n A N d g xs p"
  shows "\<exists>p'. pipe_step M (H M) n stray bss Reply p = (Ret (), p') \<and> pipe_inv vol M (H M) n A N d g xs p' \<and>
    backlog M (as_sys (pi_sys p')) = backlog M (as_sys (pi_sys p)) \<and>
    replies M (as_sys (pi_sys p')) = replies M (as_sys (pi_sys p)) - 1 \<and>
    length (as_bhs (pi_sys p')) = length (as_bhs (pi_sys p)) + of_bool (replies M (as_sys (pi_sys p)) \<noteq> 0)"
  using assms
proof (rule pipe_invE)
  fix c ps
  assume r: "pipe_rel vol M (H M) n (as_sys (pi_sys p)) c d ps" "blocks_inv (pi_sys p) (pi_running p) ps A"
    "fold pd_deliver ps (as_guest (pi_sys p)) = g" and alive: "as_reply (pi_sys p) = Running" "as_main (pi_sys p) = Running"
  let ?s = "reply_turn M (pi_sys p)" and ?y = "as_sys (pi_sys p)"
  have c: "cs_client ?y = Some c" "cl_request_mq c \<noteq> cl_reply_mq c" using r(1) by (auto elim!: pipe_relE simp: serving_def)
  have "pipe_inv vol M (H M) n A N d g xs (p\<lparr>pi_sys := ?s\<rparr>) \<and> as_reply ?s = Running \<and> as_main ?s = Running \<and>
    backlog M (as_sys ?s) = backlog M ?y \<and> replies M (as_sys ?s) = replies M ?y - 1 \<and>
    length (as_bhs ?s) = length (as_bhs (pi_sys p)) + of_bool (replies M ?y \<noteq> 0)"
  proof (cases "mq_contents M (cs_boost (as_sys (pi_sys p))) (cl_reply_mq c) = []")
    case True
    with pipe_reply_none [OF r(1)] assms alive c show ?thesis by (simp add: replies_def)
  next
    case False
    have "\<forall>q \<in> set ps. delivers (cvbd_finish_aio :: 'b callback) q \<and> as_acbs (pi_sys p) (pd_acb q) = Some (pd_block q)"
      using blocks_invD(1) [OF r(2)] by (auto simp: under_way_def)
    from pipe_reply [OF r(1) False alive(1) this] obtain q ps' b c' y where
      one: "ps = q # ps'" "acb_ret b = 0"
        "?s = (pi_sys p)\<lparr>as_sys := y, as_guest := pd_deliver q (as_guest (pi_sys p)), as_acbs := (as_acbs (pi_sys p))(pd_acb q \<mapsto> b),
           as_bhs := as_bhs (pi_sys p) @ [pd_acb q]\<rparr>"
        "pipe_rel vol M (H M) n y c' d ps'" "cl_request_mq c' = cl_request_mq c" "cl_reply_mq c' = cl_reply_mq c"
        "mq_contents M (cs_boost y) = (mq_contents M (cs_boost ?y))(cl_reply_mq c := tl (mq_contents M (cs_boost ?y) (cl_reply_mq c)))"
      by metis
    from blocks_reply [OF r(2) [unfolded one(1)] one(2,3)] r(3) one(1,3,4)
    have "pipe_rel vol M (H M) n (as_sys ?s) c' d ps' \<and> blocks_inv ?s (pi_running p) ps' A \<and> fold pd_deliver ps' (as_guest ?s) = g" by simp
    then have "pipe_inv vol M (H M) n A N d g xs (p\<lparr>pi_sys := ?s\<rparr>)" using assms one(3) by (auto simp: pipe_inv_def)
    moreover have "cs_client y = Some c'" using one(4) by (rule pipe_relE)
    ultimately show ?thesis using alive one(3,5-7) c False by (simp add: backlog_def replies_def)
  qed
  then show ?thesis by (simp add: on_pipe_run cbind_run modify_run alive_threads_run)
qed

lemma pipe_inv_main:
  assumes "pipe_inv vol M (H M) n A N d g xs p"
  shows "\<exists>p'. pipe_step M (H M) n stray bss Main p = (Ret (), p') \<and> pipe_inv vol M (H M) n A N d g xs p' \<and>
    as_sys (pi_sys p') = as_sys (pi_sys p) \<and> as_bhs (pi_sys p') = tl (as_bhs (pi_sys p))"
  using assms
proof (rule pipe_invE)
  fix c ps
  assume r: "pipe_rel vol M (H M) n (as_sys (pi_sys p)) c d ps" "blocks_inv (pi_sys p) (pi_running p) ps A"
    "fold pd_deliver ps (as_guest (pi_sys p)) = g" and alive: "as_reply (pi_sys p) = Running" "as_main (pi_sys p) = Running"
    and xs: "mset (map fst (pi_results p)) + mset (map snd (pi_running p)) = mset xs"
  show ?thesis
  proof (cases "as_bhs (pi_sys p)")
    case Nil
    with assms show ?thesis by (simp add: on_pipe_run cbind_run gets_run ret_run)
  next
    case (Cons a as)
    then obtain b where b: "a \<noteq> 0" "as_acbs (pi_sys p) a = Some b" "acb_ret b = 0"
      using blocks_invD(2) [OF r(2), of a] by (auto simp: completed_def)
    define s' where "s' = (pi_sys p)\<lparr>as_bhs := as, as_acbs := (as_acbs (pi_sys p))(a := None)\<rparr>"
    define p' where "p' = pipe_end a 0 (p\<lparr>pi_sys := s'\<rparr>)"
    have "pipe_step M (H M) n stray bss Main p = (Ret (), p')"
      using Cons b alive
      by (simp add: p'_def s'_def on_pipe_run cmd_simps bh_turn_scheduled alive_threads_run co_finish_def deref_acb_run free_acb_def)
    moreover have "blocks_inv s' (pi_running p') ps A"
      by (rule blocks_main [OF r(2) Cons s'_def]) (simp add: p'_def pipe_end_def)
    moreover have "mset (map fst (pi_results p')) + mset (map snd (pi_running p')) = mset xs"
      unfolding xs [symmetric] p'_def pipe_end_ops by simp
    moreover have "\<forall>r \<in> set (pi_results p'). snd r = 0"
      using assms by (auto simp: p'_def pipe_end_def pipe_inv_def)
    ultimately show ?thesis using assms r Cons
      by (intro exI [of _ p']) (auto simp: pipe_inv_def p'_def pipe_end_def s'_def)
  qed
qed

text \<open>The state after a request has started, from what its start does to the queues and the blocks.\<close>

lemma pipe_inv_suspend:
  assumes inv: "as_reply (pi_sys p) = Running" "as_main (pi_sys p) = Running" "as_next (pi_sys p) = N + length xs"
      "mset (map fst (pi_results p)) + mset (map snd (pi_running p)) = mset xs" "\<forall>r \<in> set (pi_results p). snd r = 0"
    and start: "co_start M (peer n M) stray bss x (pi_sys p) = (Ret (Co_yield a), s')"
    and s': "as_reply s' = as_reply (pi_sys p)" "as_main s' = as_main (pi_sys p)" "as_next s' = Suc (as_next (pi_sys p))"
    and rel: "pipe_rel vol M (H M) n (as_sys s') c d' ps" "blocks_inv s' (pi_running p @ [(a, x)]) ps A"
      "fold pd_deliver ps (as_guest s') = g'"
  shows "\<exists>p'. pipe_step M (H M) n stray bss (Start x) p = (Ret (), p') \<and> pipe_inv vol M (H M) n A N d' g' (xs @ [x]) p'"
proof -
  let ?p = "pipe_suspend a x (p\<lparr>pi_sys := s'\<rparr>)"
  have "pipe_inv vol M (H M) n A N d' g' (xs @ [x]) ?p"
    using inv s' rel unfolding pipe_inv_def
    by (intro conjI exI [of _ c] exI [of _ ps]) (simp_all add: pipe_suspend_def)
  then show ?thesis using start by (simp add: on_pipe_run cbind_run modify_run)
qed

lemma pipe_inv_start:
  assumes inv: "pipe_inv vol M (H M) n A N d g xs p" and x: "co_op_inside bss (d_size d) x" "N + length xs < 2 ^ 64"
    and may: "may_start M p (Start x)"
  shows "\<exists>p'. pipe_step M (H M) n stray bss (Start x) p = (Ret (), p') \<and>
    pipe_inv vol M (H M) n A N (fst (co_effect bss x (d, g))) (snd (co_effect bss x (d, g))) (xs @ [x]) p'"
  using inv
proof (rule pipe_invE)
  fix c ps
  assume r: "pipe_rel vol M (H M) n (as_sys (pi_sys p)) c d ps" "blocks_inv (pi_sys p) (pi_running p) ps A"
    "fold pd_deliver ps (as_guest (pi_sys p)) = g"
    and p: "as_reply (pi_sys p) = Running" "as_main (pi_sys p) = Running" "0 < as_next (pi_sys p)" "as_next (pi_sys p) = N + length xs"
      "mset (map fst (pi_results p)) + mset (map snd (pi_running p)) = mset xs" "\<forall>r \<in> set (pi_results p). snd r = 0"
  define a :: u64 where "a = word_of_nat (as_next (pi_sys p))"
  have nx: "as_next (pi_sys p) < 2 ^ 64" using x(2) p(4) by simp
  have "unanswered M (as_sys (pi_sys p)) = length ps"
    using r(1) by (rule unanswered_pending)
  with may have len: "co_waits x \<Longrightarrow> length ps < max_queue_size" by simp
  have wait: ?thesis if "\<exists>y c' m. co_start M (peer n M) stray bss x (pi_sys p) = (Ret (Co_yield a),
      (pi_sys p)\<lparr>as_next := Suc (as_next (pi_sys p)), as_acbs := (as_acbs (pi_sys p))(a \<mapsto> op_block bss stray x), as_sys := y\<rparr>) \<and>
    pipe_rel vol M (H M) n y c' d (ps @ [op_pending bss stray x a m d]) \<and> delivers (cvbd_finish_aio :: 'b callback) (op_pending bss stray x a m d)"
    "fst (co_effect bss x (d, g)) = d" "\<And>g i. i \<notin> co_target x \<Longrightarrow> snd (co_effect bss x (d, g)) i = g i"
  proof -
    from that(1) obtain y c' m where
      y: "co_start M (peer n M) stray bss x (pi_sys p) = (Ret (Co_yield a),
        (pi_sys p)\<lparr>as_next := Suc (as_next (pi_sys p)), as_acbs := (as_acbs (pi_sys p))(a \<mapsto> op_block bss stray x), as_sys := y\<rparr>)"
        "pipe_rel vol M (H M) n y c' d (ps @ [op_pending bss stray x a m d])" "delivers (cvbd_finish_aio :: 'b callback) (op_pending bss stray x a m d)"
      by blast
    let ?s = "(pi_sys p)\<lparr>as_next := Suc (as_next (pi_sys p)), as_acbs := (as_acbs (pi_sys p))(a \<mapsto> op_block bss stray x), as_sys := y\<rparr>"
    let ?q = "op_pending bss stray x a m d"
    have "under_way cvbd_finish_aio ?s (pi_running p @ [(a, x)]) ?q"
      using y(3) that(3) new_acb_fresh(2) [OF nx p(3)] by (simp add: under_way_def op_pending_def a_def)
    then have "blocks_inv ?s (pi_running p @ [(a, x)]) (ps @ [?q]) A"
      by (intro blocks_start [OF r(2) nx a_def, where bhs = "[]" and blk = "op_block bss stray x"]) (simp_all add: op_pending_def)
    then show ?thesis
      unfolding that(2)
      by (intro pipe_inv_suspend [OF p(1,2,4-6) y(1), where c = c' and ps = "ps @ [?q]"]) (use r(3) y(2) in \<open>simp_all add: op_pending_def\<close>)
  qed
  show ?thesis
  proof (cases x)
    case (Co_read sector nb qiov)
    show ?thesis
      by (rule wait) (use co_start_read [OF r(1) len nx p(3) _ a_def, of bss sector nb stray qiov] x(1) Co_read in
        \<open>auto simp: scattered_other\<close>)
  next
    case Co_flush
    show ?thesis
      by (rule wait) (use co_start_flush [OF r(1) len nx p(3) a_def, of stray bss] Co_flush in simp_all)
  next
    case (Co_write sector nb qiov)
    then have in': "co_inside bss sector nb (d_size d)" "xfer_size bss nb \<le> iov_size qiov" using x(1) by simp_all
    from co_start_write [OF r(1) nx p(3) in' a_def, of stray] obtain y c' b where
      y: "co_start M (peer n M) stray bss x (pi_sys p) = (Ret (Co_yield a),
        (pi_sys p)\<lparr>as_next := Suc (as_next (pi_sys p)), as_sys := y, as_acbs := (as_acbs (pi_sys p))(a \<mapsto> b), as_bhs := as_bhs (pi_sys p) @ [a]\<rparr>)"
        "acb_ret b = 0" "pipe_rel vol M (H M) n y c' (disk_write d (xfer_start bss sector) (gathered qiov (as_guest (pi_sys p))) 0 (xfer_size bss nb)) ps"
      unfolding Co_write by blast
    let ?s = "(pi_sys p)\<lparr>as_next := Suc (as_next (pi_sys p)), as_sys := y, as_acbs := (as_acbs (pi_sys p))(a \<mapsto> b), as_bhs := as_bhs (pi_sys p) @ [a]\<rparr>"
    have "as_guest (pi_sys p) (iov_addrs qiov ! i) = g (iov_addrs qiov ! i)" if "i < xfer_size bss nb" for i
    proof -
      have "iov_addrs qiov ! i \<in> co_source x" using that in'(2) by (simp add: Co_write)
      then have "\<forall>q \<in> set ps. iov_addrs qiov ! i \<notin> co_target (pd_op q) \<and> under_way cvbd_finish_aio (pi_sys p) (pi_running p) q"
        using may blocks_invD(1) [OF r(2)] by (fastforce simp: list_all_iff under_way_def)
      from fold_deliver_other [OF this] r(3) show ?thesis by auto
    qed
    then have "disk_write d k (gathered qiov (as_guest (pi_sys p))) 0 (xfer_size bss nb) = disk_write d k (gathered qiov g) 0 (xfer_size bss nb)" for k
      unfolding disk_write_def gathered_def by (subst memcpy_cong) simp_all
    then have d: "pipe_rel vol M (H M) n (as_sys ?s) c' (fst (co_effect bss x (d, g))) ps" using y(3) by (simp add: Co_write)
    have "completed ?s a" using y(2) new_acb_fresh(2) [OF nx p(3)] by (simp add: completed_def a_def)
    then have "blocks_inv ?s (pi_running p @ [(a, x)]) (ps @ []) A"
      by (intro blocks_start [OF r(2) nx a_def, where bhs = "[a]" and blk = b]) simp_all
    then show ?thesis
      by (intro pipe_inv_suspend [OF p(1,2,4-6) y(1) _ _ _ d]) (use r(3) in \<open>simp_all add: Co_write\<close>)
  qed
qed

text \<open>So does every sequence of events.\<close>

lemma pipe_inv_step:
  assumes "pipe_inv vol M (H M) n A N d g xs p" "\<forall>x \<in> set (event_ops e). co_op_inside bss (d_size d) x"
    and "N + length (xs @ event_ops e) \<le> 2 ^ 64" "may_start M p e"
  shows "\<exists>p'. pipe_step M (H M) n stray bss e p = (Ret (), p') \<and>
    pipe_inv vol M (H M) n A N (fst (fold (co_effect bss) (event_ops e) (d, g))) (snd (fold (co_effect bss) (event_ops e) (d, g))) (xs @ event_ops e) p'"
proof (cases e)
  case (Start x)
  then show ?thesis using pipe_inv_start [OF assms(1), of bss x stray] assms(2-4) by simp
next
  case Main
  then show ?thesis using pipe_inv_main [OF assms(1), of stray bss] by auto
qed (use pipe_inv_server [OF assms(1), of stray bss] pipe_inv_reply [OF assms(1), of stray bss] in auto)

lemma fold_effect_size [simp]: "d_size (fst (fold (co_effect bss) xs (d, g))) = d_size d"
  by (induction xs arbitrary: d g) (simp_all, metis co_effect_size prod.collapse)

lemma pipe_inv_run:
  assumes "pipe_inv vol M (H M) n A N d g xs p" "\<forall>x \<in> set (started es). co_op_inside bss (d_size d) x"
    and "N + length (xs @ started es) \<le> 2 ^ 64" "paced M (H M) n stray bss es p"
  shows "\<exists>p'. run_pipe M (H M) n stray bss es p = (Ret (), p') \<and>
    pipe_inv vol M (H M) n A N (fst (fold (co_effect bss) (started es) (d, g))) (snd (fold (co_effect bss) (started es) (d, g))) (xs @ started es) p'"
  using assms
proof (induction es arbitrary: d g xs p)
  case (Cons e es)
  have st: "started (e # es) = event_ops e @ started es" by (simp add: started_def)
  obtain d1 g1 where e: "fold (co_effect bss) (event_ops e) (d, g) = (d1, g1)" by (cases "fold (co_effect bss) (event_ops e) (d, g)")
  from pipe_inv_step [OF Cons.prems(1), of e bss stray] Cons.prems(2-4) obtain p1 where
    p1: "pipe_step M (H M) n stray bss e p = (Ret (), p1)" "pipe_inv vol M (H M) n A N d1 g1 (xs @ event_ops e) p1"
    by (auto simp: st e)
  have "d_size d1 = d_size d" using fold_effect_size [of bss "event_ops e" d g] by (simp add: e)
  with Cons.IH [OF p1(2)] Cons.prems(2-4) p1(1) show ?case by (simp add: st e cbind_run)
qed (simp add: ret_run started_def)

text \<open>With nothing left to do, every request has ended.\<close>

lemma pipe_inv_settled:
  assumes "pipe_inv vol M (H M) n A N d g xs p" "settled M (pi_sys p)"
  shows "pi_running p = []" "mset (pi_results p) = mset (map (\<lambda>x. (x, 0)) xs)" "async_connected vol M n (pi_sys p) d"
    "as_guest (pi_sys p) = g" "as_acbs (pi_sys p) = A"
proof -
  obtain c ps where r: "pipe_rel vol M (H M) n (as_sys (pi_sys p)) c d ps" "blocks_inv (pi_sys p) (pi_running p) ps A"
    "fold pd_deliver ps (as_guest (pi_sys p)) = g"
    "as_reply (pi_sys p) = Running" "as_main (pi_sys p) = Running" "0 < as_next (pi_sys p)"
    "mset (map fst (pi_results p)) + mset (map snd (pi_running p)) = mset xs" "\<forall>r \<in> set (pi_results p). snd r = 0"
    using assms(1) by (rule pipe_invE)
  have c: "cs_client (as_sys (pi_sys p)) = Some c" using r(1) by (rule pipe_relE)
  then have "unanswered M (as_sys (pi_sys p)) = 0" using assms(2) by (simp add: settled_def unanswered_def)
  then have ps: "ps = []" "as_bhs (pi_sys p) = []"
    using unanswered_pending [OF r(1)] assms(2) by (simp_all add: settled_def)
  note B = blocks_invD [OF r(2) [unfolded ps(1)]]
  show run: "pi_running p = []" using B(5) ps(2) by simp
  show "as_guest (pi_sys p) = g" using r(3) ps(1) by simp
  show acbs: "as_acbs (pi_sys p) = A" using B(6) by (simp add: run restrict_map_def)
  show "async_connected vol M n (pi_sys p) d"
    using pipe_rel_client [OF r(1) [unfolded ps(1)]] r(4-6) ps(2) B(7) by (auto simp: async_connected_def connected_def)
  have "map (\<lambda>x. (fst x, 0)) (pi_results p) = pi_results p" using r(8) by (intro map_idI) auto
  then have "mset (pi_results p) = image_mset (\<lambda>x. (x, 0)) (mset (map fst (pi_results p)))"
    by (metis (no_types, lifting) list.map_comp map_eq_conv comp_apply mset_map)
  then show "mset (pi_results p) = mset (map (\<lambda>x. (x, 0)) xs)" using r(7) by (simp add: run)
qed

text \<open>The messages in flight are well-formed, and each refers to the control block of a suspended coroutine of its own.\<close>

lemma pipe_inv_typed:
  assumes "pipe_inv vol M (H M) n A N d g xs p"
  shows "well_typed M (pi_sys p) (pi_running p)"
proof -
  obtain c ps where r: "pipe_rel vol M (H M) n (as_sys (pi_sys p)) c d ps" "blocks_inv (pi_sys p) (pi_running p) ps A"
    using assms by (rule pipe_invE)
  note B = blocks_invD [OF r(2)]
  from r(1) obtain t w d0 ps1 ps2 where q: "cs_client (as_sys (pi_sys p)) = Some c"
    "cs_server (as_sys (pi_sys p)) = \<lparr>sv_request_mqs = [Some (cl_request_mq c)], sv_threads = [t], sv_world = w\<rparr>" "ps = ps1 @ ps2"
    "queued vol M (H M) c (mq_contents M (boost w) (cl_request_mq c)) ps2 d0 d"
    "list_all2 answers ps1 (mq_contents M (boost w) (cl_reply_mq c))" by (rule pipe_relE)
  have rep: "map msg_acb rs = map pd_acb qs \<and> (\<forall>m \<in> set rs. typed_co_reply m)" if "list_all2 answers qs rs" for qs rs
    using that by (induction rule: list_all2_induct) (auto simp: answers_def replies_to_def)
  have acbs: "map msg_acb (mq_contents M (boost w) (cl_reply_mq c)) @
      map msg_acb (filter (\<lambda>m. h_type (get_header (msg_bytes m)) \<noteq> type_code REQ_WRITE) (mq_contents M (boost w) (cl_request_mq c))) = map pd_acb ps"
    using rep [OF q(5)] queued_typed [OF q(4)] q(3) by simp
  have "\<forall>a \<in> set (map pd_acb ps). a \<in> fst ` set (pi_running p) \<and> as_acbs (pi_sys p) a \<noteq> None"
    using B(1) by (force simp: under_way_def)
  then show ?thesis
    unfolding well_typed_def q(1) option.case Let_def map_append
    using rep [OF q(5)] queued_typed [OF q(4)] B(4) q(2) acbs by simp
qed

section \<open>Every request ends\<close>

text \<open>A turn of each part does some of the work that is left.\<close>

lemma pipe_round:
  assumes "pipe_inv vol M (H M) n A N d g xs p"
  shows "\<exists>p'. run_pipe M (H M) n stray bss [Server, Reply, Main] p = (Ret (), p') \<and> pipe_inv vol M (H M) n A N d g xs p' \<and>
    work M (pi_sys p') \<le> work M (pi_sys p) - 1"
proof -
  from pipe_inv_server [OF assms, of stray bss] obtain p1 where
    p1: "pipe_step M (H M) n stray bss Server p = (Ret (), p1)" "pipe_inv vol M (H M) n A N d g xs p1"
      "backlog M (as_sys (pi_sys p1)) = backlog M (as_sys (pi_sys p)) - 1"
      "replies M (as_sys (pi_sys p1)) \<le> replies M (as_sys (pi_sys p)) + of_bool (backlog M (as_sys (pi_sys p)) \<noteq> 0)"
      "as_bhs (pi_sys p1) = as_bhs (pi_sys p)" by blast
  from pipe_inv_reply [OF p1(2), of stray bss] obtain p2 where
    p2: "pipe_step M (H M) n stray bss Reply p1 = (Ret (), p2)" "pipe_inv vol M (H M) n A N d g xs p2"
      "backlog M (as_sys (pi_sys p2)) = backlog M (as_sys (pi_sys p1))"
      "replies M (as_sys (pi_sys p2)) = replies M (as_sys (pi_sys p1)) - 1"
      "length (as_bhs (pi_sys p2)) = length (as_bhs (pi_sys p1)) + of_bool (replies M (as_sys (pi_sys p1)) \<noteq> 0)" by blast
  from pipe_inv_main [OF p2(2), of stray bss] obtain p3 where
    p3: "pipe_step M (H M) n stray bss Main p2 = (Ret (), p3)" "pipe_inv vol M (H M) n A N d g xs p3"
      "as_sys (pi_sys p3) = as_sys (pi_sys p2)" "as_bhs (pi_sys p3) = tl (as_bhs (pi_sys p2))" by blast
  have "work M (pi_sys p3) \<le> work M (pi_sys p) - 1"
    using p1(3,4) p2(3-5)
    by (cases "backlog M (as_sys (pi_sys p)) = 0"; cases "replies M (as_sys (pi_sys p1)) = 0") (simp_all add: work_def p3(3,4) p1(5))
  with p1(1) p2(1) p3(1,2) show ?thesis by (simp add: cbind_run ret_run)
qed

lemma pipe_rounds:
  assumes "pipe_inv vol M (H M) n A N d g xs p" "work M (pi_sys p) \<le> k"
  shows "\<exists>p'. run_pipe M (H M) n stray bss (concat (replicate k [Server, Reply, Main])) p = (Ret (), p') \<and>
    pipe_inv vol M (H M) n A N d g xs p' \<and> settled M (pi_sys p')"
  using assms
proof (induction k arbitrary: p)
  case (Suc k)
  from pipe_round [OF Suc.prems(1), of stray bss] obtain p1 where
    p1: "run_pipe M (H M) n stray bss [Server, Reply, Main] p = (Ret (), p1)" "pipe_inv vol M (H M) n A N d g xs p1"
      "work M (pi_sys p1) \<le> work M (pi_sys p) - 1" by blast
  from Suc.IH [OF p1(2)] p1(1,3) Suc.prems(2) show ?case
    by (simp only: replicate_Suc concat.simps run_pipe_append) (simp add: cbind_run)
qed (simp add: ret_run settled_work)

text \<open>The work that can be left after \<open>xs\<close> have started: two queues of 32 messages, and a bottom half for each request.\<close>

lemma work_bound:
  assumes "pipe_inv vol M (H M) n A N d g xs p"
  shows "work M (pi_sys p) \<le> 5 * max_queue_size + length xs"
proof -
  obtain c ps where r: "pipe_rel vol M (H M) n (as_sys (pi_sys p)) c d ps" "blocks_inv (pi_sys p) (pi_running p) ps A"
    "mset (map fst (pi_results p)) + mset (map snd (pi_running p)) = mset xs"
    using assms by (rule pipe_invE)
  note B = blocks_invD [OF r(2)]
  have "backlog M (as_sys (pi_sys p)) \<le> max_queue_size" "replies M (as_sys (pi_sys p)) \<le> max_queue_size"
    using r(1) by (auto elim!: pipe_relE dest!: list_all2_lengthD simp: backlog_def replies_def)
  moreover have "length (as_bhs (pi_sys p)) \<le> length (pi_running p)"
    using B(4,5) card_mono [of "set (map fst (pi_running p))" "set (as_bhs (pi_sys p))"] distinct_card [OF B(3)]
      distinct_card [of "as_bhs (pi_sys p)"] by simp
  moreover have "length (pi_running p) \<le> length xs"
    using arg_cong [OF r(3), of size] by simp
  ultimately show ?thesis by (simp add: work_def)
qed

lemma pipe_inv_init:
  assumes "async_connected vol M n s d"
  shows "pipe_inv vol M (H M) n (as_acbs s) (as_next s) d (as_guest s) [] (pipe_of s)"
proof -
  from assms obtain c where "client_rel vol M n (as_sys s) c d []" by (auto simp: async_connected_def connected_def)
  from client_rel_pipe [OF this, of "H M"] assms show ?thesis
    by (auto simp: pipe_inv_def pipe_of_def blocks_inv_def async_connected_def restrict_map_def intro!: exI [of _ c] exI [of _ "[]"])
qed

text \<open>What a sequence of events leaves behind, and that rounds end it.\<close>

lemma pipe_sequential:
  assumes "async_connected vol M n s d" "as_next s + length (started es) \<le> 2 ^ 64" "\<forall>x \<in> set (started es). co_op_inside bss (d_size d) x"
    and "paced M (H M) n stray bss es (pipe_of s)"
  shows "\<exists>p. run_pipe M (H M) n stray bss es (pipe_of s) = (Ret (), p) \<and>
    pipe_inv vol M (H M) n (as_acbs s) (as_next s) (fst (fold (co_effect bss) (started es) (d, as_guest s)))
      (snd (fold (co_effect bss) (started es) (d, as_guest s))) (started es) p"
  using pipe_inv_run [OF pipe_inv_init [OF assms(1)] assms(3) _ assms(4)] assms(2) by simp

lemma pipe_completes:
  assumes "async_connected vol M n s d" "as_next s + length (started es) \<le> 2 ^ 64" "\<forall>x \<in> set (started es). co_op_inside bss (d_size d) x"
    and "paced M (H M) n stray bss es (pipe_of s)" "5 * max_queue_size + length (started es) \<le> k"
  shows "\<exists>p. run_pipe M (H M) n stray bss (es @ concat (replicate k [Server, Reply, Main])) (pipe_of s) = (Ret (), p) \<and>
    settled M (pi_sys p) \<and> pi_running p = [] \<and> mset (map fst (pi_results p)) = mset (started es)"
proof -
  from pipe_sequential [OF assms(1-4)] obtain p d' g' where
    p: "run_pipe M (H M) n stray bss es (pipe_of s) = (Ret (), p)" "pipe_inv vol M (H M) n (as_acbs s) (as_next s) d' g' (started es) p" by blast
  from pipe_rounds [OF p(2), of k stray bss] work_bound [OF p(2)] assms(5) obtain p' where
    p': "run_pipe M (H M) n stray bss (concat (replicate k [Server, Reply, Main])) p = (Ret (), p')"
      "pipe_inv vol M (H M) n (as_acbs s) (as_next s) d' g' (started es) p'" "settled M (pi_sys p')" by auto
  have "mset (map fst (pi_results p')) + mset (map snd (pi_running p')) = mset (started es)" using p'(2) by (rule pipe_invE)
  with pipe_inv_settled(1) [OF p'(2,3)] p(1) p'(1,3) show ?thesis by (simp add: run_pipe_append cbind_run)
qed

text \<open>A condition on the requests alone: no more than 32 of them, and no write from memory that one of them reads into.\<close>

lemma few_requests_paced:
  assumes "pipe_inv vol M (H M) n A N d g xs p" "\<forall>x \<in> set (started es). co_op_inside bss (d_size d) x"
    and "N + length (xs @ started es) \<le> 2 ^ 64" "length (xs @ started es) \<le> max_queue_size"
    and "\<forall>x \<in> set (xs @ started es). \<forall>z \<in> set (xs @ started es). co_source x \<inter> co_target z = {}"
  shows "paced M (H M) n stray bss es p"
  using assms
proof (induction es arbitrary: d g xs p)
  case (Cons e es)
  have st: "started (e # es) = event_ops e @ started es" by (simp add: started_def)
  have may: "may_start M p e"
  proof (cases e)
    case (Start x)
    obtain c ps where r: "pipe_rel vol M (H M) n (as_sys (pi_sys p)) c d ps" "blocks_inv (pi_sys p) (pi_running p) ps A"
      "mset (map fst (pi_results p)) + mset (map snd (pi_running p)) = mset xs"
      using Cons.prems(1) by (rule pipe_invE)
    note B = blocks_invD [OF r(2)]
    have "length ps \<le> length (pi_running p)"
      using B(4,5) card_mono [of "set (map fst (pi_running p))" "set (map pd_acb ps)"] distinct_card [OF B(3)]
        distinct_card [of "map pd_acb ps"] by simp
    moreover have "length (pi_running p) \<le> length xs" using arg_cong [OF r(3), of size] by simp
    moreover have "co_source x \<inter> co_target z = {}" if "(a, z) \<in> set (pi_running p)" for a z
    proof -
      have "z \<in> set (map snd (pi_running p))" using that by force
      then have "z \<in> set xs" using arg_cong [OF r(3), of set_mset] by auto
      moreover have "x \<in> set (started (e # es))" unfolding st by (simp add: Start)
      ultimately show ?thesis using Cons.prems(5) by simp
    qed
    then have "list_all (\<lambda>(_, z). co_source x \<inter> co_target z = {}) (pi_running p)" by (auto simp: list_all_iff)
    ultimately show ?thesis using Cons.prems(4) [unfolded st] by (simp add: Start unanswered_pending [OF r(1)])
  qed simp_all
  obtain d1 g1 where e: "fold (co_effect bss) (event_ops e) (d, g) = (d1, g1)" by (cases "fold (co_effect bss) (event_ops e) (d, g)")
  from pipe_inv_step [OF Cons.prems(1) _ _ may, of bss stray] Cons.prems(2,3) obtain p1 where
    p1: "pipe_step M (H M) n stray bss e p = (Ret (), p1)" "pipe_inv vol M (H M) n A N d1 g1 (xs @ event_ops e) p1"
    by (auto simp: st e)
  have "d_size d1 = d_size d" using fold_effect_size [of bss "event_ops e" d g] by (simp add: e)
  with Cons.IH [OF p1(2)] Cons.prems(2-5) may p1(1) show ?case by (simp add: st)
qed simp

end

section \<open>The properties\<close>

text \<open>C5. Several requests at a time. Whatever the order in which QEMU starts reads, writes and flushes inside
  the disk and the server, the reply thread and the main loop take their turns (with at most 32
  unanswered requests, and no write from memory that a request under way reads into): nothing
  fails, and once nothing is left to do every request has ended, once, with result 0, the disk and
  the guest's memory are what the same requests, one after another in the order of their starts,
  make of a plain byte array, and every control block is freed.\<close>

theorem pipelined_requests_are_sequential:
  fixes M :: "'b boost_mq"
  assumes "async_connected ioh_volume M n s d" "as_next s + length (started es) \<le> 2 ^ 64"
    and "\<forall>x \<in> set (started es). co_op_inside bss (d_size d) x" "paced M (IOHandler M) n stray bss es (pipe_of s)"
  shows "\<exists>p. run_pipe M (IOHandler M) n stray bss es (pipe_of s) = (Ret (), p) \<and> (\<forall>r \<in> set (pi_results p). snd r = 0) \<and>
    (settled M (pi_sys p) \<longrightarrow> pi_running p = [] \<and> mset (pi_results p) = mset (map (\<lambda>x. (x, 0)) (started es)) \<and>
      async_connected ioh_volume M n (pi_sys p) (fst (fold (co_effect bss) (started es) (d, as_guest s))) \<and>
      as_guest (pi_sys p) = snd (fold (co_effect bss) (started es) (d, as_guest s)) \<and> as_acbs (pi_sys p) = as_acbs s)"
proof -
  from ioh.pipe_sequential [OF assms] obtain p where
    p: "run_pipe M (IOHandler M) n stray bss es (pipe_of s) = (Ret (), p)"
      "pipe_inv ioh_volume M (IOHandler M) n (as_acbs s) (as_next s) (fst (fold (co_effect bss) (started es) (d, as_guest s)))
        (snd (fold (co_effect bss) (started es) (d, as_guest s))) (started es) p" by blast
  moreover have "\<forall>r \<in> set (pi_results p). snd r = 0" using p(2) by (rule pipe_invE)
  ultimately show ?thesis using ioh.pipe_inv_settled [OF p(2)] by blast
qed

text \<open>A write, a read of what it writes, and a flush, started before any turn is taken.\<close>

definition sample_target :: "iovec list" where
  "sample_target = [\<lparr>iov_base = 131072, iov_len = 4096\<rparr>]"

definition sample_ops :: "co_op list" where
  "sample_ops = [Co_write 8 8 sample_iov, Co_read 8 8 sample_target, Co_flush]"

definition sample_events :: "event list" where
  "sample_events = map Start sample_ops"

lemma sample_started: "started (sample_events @ concat (replicate k [Server, Reply, Main])) = sample_ops"
proof -
  have "started (concat (replicate k [Server, Reply, Main])) = []" by (induction k) (simp_all add: started_def)
  then show ?thesis by (simp add: started_def sample_events_def sample_ops_def)
qed

lemma sample_ops_inside: "\<forall>x \<in> set sample_ops. co_op_inside 512 (d_size sample_disk) x"
  using sample_co_inside by (simp add: sample_ops_def sample_iov_size)

lemma sample_disjoint: "set (iov_addrs sample_iov) \<inter> set (iov_addrs sample_target) = {}"
  by (auto simp: sample_iov_def sample_target_def simp del: upt_rec_numeral)

lemma sample_paced:
  "paced fifo_mq (IOHandler fifo_mq) 32 sample_acb 512 (sample_events @ concat (replicate k [Server, Reply, Main])) (pipe_of sample_asys)"
  by (rule ioh.few_requests_paced [OF ioh.pipe_inv_init [OF sample_async_connected]], unfold sample_started)
    (use sample_ops_inside sample_disjoint in \<open>simp_all add: sample_next size_defs, simp_all add: sample_ops_def\<close>)

theorem pipelined_requests_are_sequential_witness:
  "\<exists>p. run_pipe fifo_mq (IOHandler fifo_mq) 32 sample_acb 512 (sample_events @ concat (replicate 163 [Server, Reply, Main])) (pipe_of sample_asys) =
      (Ret (), p) \<and> mset (pi_results p) = {#(Co_write 8 8 sample_iov, 0), (Co_read 8 8 sample_target, 0), (Co_flush, 0)#} \<and>
    as_guest (pi_sys p) = snd (fold (co_effect 512) sample_ops (sample_disk, as_guest sample_asys))"
proof -
  have n: "as_next sample_asys + length sample_ops \<le> 2 ^ 64" "5 * max_queue_size + length sample_ops \<le> 163"
    by (simp_all add: sample_next sample_ops_def size_defs)
  have ends: "\<exists>p. run_pipe fifo_mq (IOHandler fifo_mq) 32 sample_acb 512 (sample_events @ concat (replicate 163 [Server, Reply, Main])) (pipe_of sample_asys) =
      (Ret (), p) \<and> settled fifo_mq (pi_sys p)"
    using ioh.pipe_completes [OF sample_async_connected, of sample_events 512 sample_acb 163] sample_started [of 0] sample_paced [of 0] sample_ops_inside n
    by auto
  from pipelined_requests_are_sequential [OF sample_async_connected, of "sample_events @ concat (replicate 163 [Server, Reply, Main])" 512 sample_acb,
      unfolded sample_started, OF n(1) sample_ops_inside sample_paced]
  show ?thesis using ends by (auto simp: sample_ops_def)
qed

text \<open>C6. Every request ends: after any such events, \<open>160 + m\<close> rounds in which each part of the system takes one
  turn, where \<open>m\<close> requests have started, leave nothing to do and no coroutine suspended.\<close>

theorem pipeline_completes:
  fixes M :: "'b boost_mq"
  assumes "async_connected ioh_volume M n s d" "as_next s + length (started es) \<le> 2 ^ 64"
    and "\<forall>x \<in> set (started es). co_op_inside bss (d_size d) x" "paced M (IOHandler M) n stray bss es (pipe_of s)"
    and "160 + length (started es) \<le> k"
  shows "\<exists>p. run_pipe M (IOHandler M) n stray bss (es @ concat (replicate k [Server, Reply, Main])) (pipe_of s) = (Ret (), p) \<and>
    settled M (pi_sys p) \<and> pi_running p = [] \<and> mset (map fst (pi_results p)) = mset (started es)"
  by (rule ioh.pipe_completes [OF assms(1-4)]) (use assms(5) in \<open>simp add: size_defs\<close>)

theorem pipeline_completes_witness:
  "\<exists>p. run_pipe fifo_mq (IOHandler fifo_mq) 32 sample_acb 512 (sample_events @ concat (replicate 163 [Server, Reply, Main])) (pipe_of sample_asys) =
      (Ret (), p) \<and> pi_running p = [] \<and> mset (map fst (pi_results p)) = mset sample_ops"
proof -
  have n: "as_next sample_asys + length (started sample_events) \<le> 2 ^ 64" "160 + length (started sample_events) \<le> 163"
    using sample_started [of 0] by (simp_all add: sample_next sample_ops_def)
  have x: "\<forall>x \<in> set (started sample_events). co_op_inside 512 (d_size sample_disk) x"
    "paced fifo_mq (IOHandler fifo_mq) 32 sample_acb 512 sample_events (pipe_of sample_asys)"
    using sample_started [of 0] sample_paced [of 0] sample_ops_inside by simp_all
  from pipeline_completes [OF sample_async_connected n(1) x n(2)] show ?thesis using sample_started [of 0] by auto
qed

text \<open>C7. The messages of several requests in flight are well-formed, at every moment: each has a type of
  \<open>RequestType\<close>, the size of that type's struct, no stop mark and the client's volume; and the raw
  pointers they carry through both queues are sound: every request that is not a write and every
  reply refers to the control block of a suspended coroutine, which is allocated, and no two
  refer to the same one.\<close>

theorem messages_in_flight_well_typed:
  fixes M :: "'b boost_mq"
  assumes "async_connected ioh_volume M n s d" "as_next s + length (started es) \<le> 2 ^ 64"
    and "\<forall>x \<in> set (started es). co_op_inside bss (d_size d) x" "paced M (IOHandler M) n stray bss es (pipe_of s)"
  shows "\<exists>p. run_pipe M (IOHandler M) n stray bss es (pipe_of s) = (Ret (), p) \<and> well_typed M (pi_sys p) (pi_running p)"
  using ioh.pipe_sequential [OF assms] ioh.pipe_inv_typed by blast

theorem messages_in_flight_well_typed_witness:
  "\<exists>p. run_pipe fifo_mq (IOHandler fifo_mq) 32 sample_acb 512 sample_events (pipe_of sample_asys) = (Ret (), p) \<and>
    well_typed fifo_mq (pi_sys p) (pi_running p)"
proof -
  have x: "as_next sample_asys + length (started sample_events) \<le> 2 ^ 64" "\<forall>x \<in> set (started sample_events). co_op_inside 512 (d_size sample_disk) x"
    "paced fifo_mq (IOHandler fifo_mq) 32 sample_acb 512 sample_events (pipe_of sample_asys)"
    using sample_started [of 0] sample_paced [of 0] sample_ops_inside by (simp_all add: sample_next sample_ops_def)
  show ?thesis by (rule messages_in_flight_well_typed [OF sample_async_connected x])
qed

end
