(* ===== verification/Driver_Sessions.thy ===== *)
theory Driver_Sessions
  imports Async_Session
begin

text \<open>
  Both drivers through the table QEMU calls them by: registered at QEMU's start, found by the
  protocol of an image name, opened with the options that name gives, and used.
\<close>

section \<open>QEMU's registry\<close>

text \<open>\<open>bdrv_register\<close> and \<open>bdrv_find_protocol\<close>: a registered driver is found by its protocol.\<close>

definition registry_law :: "('r \<Rightarrow> string \<Rightarrow> ('s, 'q) BlockDriver option) \<Rightarrow> (('s, 'q) BlockDriver \<Rightarrow> 'r \<Rightarrow> 'r) \<Rightarrow> bool" where
  "registry_law bdrv_find_protocol bdrv_register \<longleftrightarrow> (\<forall>drv r nm. bdrv_find_protocol (bdrv_register drv r) nm =
     (if protocol_name drv = nm then Some drv else bdrv_find_protocol r nm))"

text \<open>An image name of the driver's scheme whose path, without its leading slashes, is the volume \<open>nm\<close>.\<close>

definition names_image :: "(string \<Rightarrow> URI option) \<Rightarrow> string \<Rightarrow> string \<Rightarrow> bool" where
  "names_image uri_parse filename nm \<longleftrightarrow> strstr filename ''://'' \<and> nm \<noteq> [] \<and> hd nm \<noteq> CHR ''/'' \<and>
     (\<exists>uri k. uri_parse filename = Some uri \<and> uri_scheme uri = Some ''cvbd'' \<and> uri_path uri = Some (replicate k CHR ''/'' @ nm))"

lemma parse_named_image:
  assumes "qdict_laws Q" "names_image uri_parse filename nm"
  shows "\<exists>opts. cvbd_parse_filename uri_parse Q filename dict = (Ret False, opts) \<and> qdict_get_try_str Q opts ''export'' = Some nm"
proof -
  from assms(2) obtain uri k where u: "uri_parse filename = Some uri" "uri_scheme uri = Some ''cvbd''" "uri_path uri = Some (replicate k CHR ''/'' @ nm)"
    by (auto simp: names_image_def)
  have "dropWhile (\<lambda>x. x = CHR ''/'') (replicate k CHR ''/'' @ nm) = nm"
    using assms(2) by (induction k) (cases nm; simp add: names_image_def)+
  with assms u show ?thesis
    by (simp add: cvbd_parse_filename_def cvbd_parse_uri_def skip_slashes_def cmd_simps Let_def qdict_laws_def names_image_def)
qed

text \<open>A registry that is a list of drivers.\<close>

definition sample_find :: "('s, 'q) BlockDriver list \<Rightarrow> string \<Rightarrow> ('s, 'q) BlockDriver option" where
  "sample_find r nm = find (\<lambda>drv. protocol_name drv = nm) r"

lemma sample_registry_law: "registry_law sample_find (#)"
  by (simp add: registry_law_def sample_find_def)

lemma sample_names_image: "names_image sample_uri ''cvbd://h//vol'' ''vol''"
  by (auto simp: names_image_def sample_uri_def eval_nat_numeral intro!: exI [of _ 2])

section \<open>The synchronous driver\<close>

text \<open>C8. A session of the synchronous driver, from QEMU's start to the file: QEMU registers the table of
  \<open>src/cvbd_syncio.c\<close>, finds it by the protocol of an image name, parses the name, and opens the
  image on a server that waits for requests. The open reports \<open>-EINVAL\<close> exactly if Boost does not give the
  client its reply queue; otherwise it succeeds, the image is 16 GiB long, and what is written
  through the table is read back through it.\<close>

theorem registered_driver_session:
  fixes M :: "'b boost_mq" and b :: "'b bds"
  assumes "registry_law bdrv_find_protocol bdrv_register" "qdict_laws Q" "names_image uri_parse filename nm" "good_name nm"
    and "idle_server M (cs_server (bs_client b))" "max_queue_size \<le> n" "\<forall>i \<ge> volume_name_at. stray i = 0"
    and "xfer_inside bss sector nb (2 ^ 34)" "is_request_aligned bss sector nb" "xfer_size bss nb < fuel"
    and "drv = bdrv_cvbd M Q uri_parse (server_run n M (IOHandler M)) fuel stray v bss"
  shows "\<exists>reg' opts rc b1. bdrv_cvbd_init bdrv_register drv reg = (Ret (), reg') \<and> bdrv_find_protocol reg' ''cvbd'' = Some drv \<and>
    bdrv_parse_filename drv filename dict = (Ret False, opts) \<and> bdrv_file_open drv opts opts b = (Ret (rc, cvbd_config Q opts), b1) \<and>
    rc = (if gets_reply_queue M nm (cs_server (bs_client b)) then 0 else - EINVAL) \<and>
    (rc = - EINVAL \<or> rc = 0 \<and> (\<exists>wr rd b2 b3 b4. bdrv_write drv = Some wr \<and> bdrv_read drv = Some rd \<and>
       bdrv_getlength drv b1 = (Ret (2 ^ 34), b2) \<and> wr sector buf nb b2 = (Ret 0, b3) \<and>
       rd sector buf' nb b3 = (Ret (0, memcpy buf' 0 buf 0 (xfer_size bss nb)), b4)))"
proof -
  let ?P = "server_run n M (IOHandler M)" and ?d = "opened_disk (os (sv_world (cs_server (bs_client b)))) nm"
  from parse_named_image [OF assms(2,3), of dict] obtain opts where
    opts: "cvbd_parse_filename uri_parse Q filename dict = (Ret False, opts)" "qdict_get_try_str Q opts ''export'' = Some nm" by blast
  have found: "bdrv_cvbd_init bdrv_register drv reg = (Ret (), bdrv_register drv reg)" "bdrv_find_protocol (bdrv_register drv reg) ''cvbd'' = Some drv"
    using assms(1) by (simp_all add: bdrv_cvbd_init_def modify_run registry_law_def assms(11) bdrv_cvbd_def)
  have use: "\<exists>b2 b3 b4. on_client (cvbd_getlength (getsize_volume M ?P)) b1 = (Ret (2 ^ 34), b2) \<and>
      on_client (cvbd_write fuel (shared_mem_write M ?P) bss sector buf nb) b2 = (Ret 0, b3) \<and>
      on_client (cvbd_read fuel (shared_mem_read M ?P) bss sector buf' nb) b3 = (Ret (0, memcpy buf' 0 buf 0 (xfer_size bss nb)), b4)"
    if con: "connected ioh_volume M n (bs_client b1) ?d" for b1
  proof -
    let ?xs = "[Op_getlength, Op_write sector buf nb, Op_read sector buf' nb]"
    have size: "d_size ?d = 2 ^ 34" by (simp add: opened_disk_def)
    from ioh.store.run_ops_refines [of "(M, n)" "bs_client b1" ?d ?xs bss fuel] con assms(8-10) size obtain s' where
      "run_ops fuel (shared_mem_read M ?P) (shared_mem_write M ?P) (getsize_volume M ?P) bss ?xs (bs_client b1) =
        (Ret (fst (disk_ops bss ?d ?xs)), s')" by auto
    then show ?thesis using assms(9) size
      by (auto simp: cvbd_getlength_def on_client_def cbind_run zoom_run ret_run disk_read_write split: prod.splits outcome.splits)
  qed
  from cvbd_open_connects [OF assms(5,6,4,7) opts(2), of v opts]
  obtain rc b1 where "cvbd_open M Q ?P stray v opts opts b = (Ret (rc, cvbd_config Q opts), b1)"
    "rc = (if gets_reply_queue M nm (cs_server (bs_client b)) then 0 else - EINVAL)"
    "rc = - EINVAL \<or> rc = 0 \<and> connected ioh_volume M n (bs_client b1) ?d" by auto
  then show ?thesis using found opts(1) use [of b1] by (auto simp: assms(11) bdrv_cvbd_def)
qed

theorem registered_driver_session_witness:
  "\<exists>reg' opts rc b1. bdrv_cvbd_init (#) (bdrv_cvbd fifo_mq sample_qdict sample_uri (server_run 32 fifo_mq (IOHandler fifo_mq)) 9000 (\<lambda>_. 0) 0 512) [] =
      (Ret (), reg') \<and>
    bdrv_parse_filename (the (sample_find reg' ''cvbd'')) ''cvbd://h//vol'' Map.empty = (Ret False, opts) \<and>
    bdrv_file_open (the (sample_find reg' ''cvbd'')) opts opts (sample_bds\<lparr>bs_client := sample_idle_csys\<rparr>) =
      (Ret (rc, cvbd_config sample_qdict opts), b1) \<and> rc = 0 \<and>
    (\<exists>b2. bdrv_getlength (the (sample_find reg' ''cvbd'')) b1 = (Ret (2 ^ 34), b2))"
proof -
  have x: "idle_server fifo_mq (cs_server (bs_client (sample_bds\<lparr>bs_client := sample_idle_csys\<rparr>)))" "max_queue_size \<le> 32"
    "xfer_inside 512 8 16 (2 ^ 34)" "is_request_aligned 512 8 16" "xfer_size 512 16 < 9000"
    using sample_idle_server
    by (simp_all add: size_defs xfer_inside_def xfer_start_def xfer_size_def is_request_aligned_def sector_bytes_def CVBD_BLKSIZE_def)
  from registered_driver_session [OF sample_registry_law sample_qdict_laws(1) sample_names_image sample_good_name x(1,2) _ x(3-5) refl,
      of "\<lambda>_. 0" 0 "[]" Map.empty "\<lambda>_. 7" "\<lambda>_. 0"] sample_gets_reply_queue
  show ?thesis by (fastforce simp: EINVAL_def)
qed

section \<open>The asynchronous driver\<close>

text \<open>C9. A session of the asynchronous driver, in the same way: when the other threads run only while the open
  waits, it reports \<open>-EINVAL\<close> exactly if there is no reply queue, or else succeeds; then a write, a flush and a read of the same sectors
  through the table each return 0, and the read scatters over its vector the bytes that the write
  gathered from its own.\<close>

theorem registered_async_session:
  fixes M :: "'b boost_mq" and b :: "'b abds"
  assumes "registry_law bdrv_find_protocol bdrv_register" "qdict_laws Q" "names_image uri_parse filename nm" "good_name nm"
    and "idle_server M (cs_server (as_sys (ab_client b)))" "max_queue_size \<le> n" "\<forall>i \<ge> volume_name_at. stray i = 0"
    and "as_main (ab_client b) = Running" "as_bhs (ab_client b) = []" "0 < as_next (ab_client b)" "as_next (ab_client b) + 3 \<le> 2 ^ 64"
      "\<forall>k. as_next (ab_client b) \<le> k \<longrightarrow> k < 2 ^ 64 \<longrightarrow> as_acbs (ab_client b) (word_of_nat k) = None"
    and "co_inside bss sector nb (2 ^ 34)" "xfer_size bss nb \<le> iov_size wiov" "max_queue_size \<le> k"
    and "drv = async_bdrv_cvbd M Q uri_parse (server_run n M (IOHandler M)) (\<lambda>s. s) (round_robin k M (IOHandler M))
      (round_robin k M (IOHandler M)) stray v stray_acb behind bss"
  shows "\<exists>reg' opts rc b1. async_bdrv_cvbd_init bdrv_register drv reg = (Ret (), reg') \<and> bdrv_find_protocol reg' ''cvbd'' = Some drv \<and>
    bdrv_parse_filename drv filename dict = (Ret False, opts) \<and> bdrv_file_open drv opts opts b = (Ret (rc, async_config Q opts), b1) \<and>
    rc = (if gets_reply_queue M nm (cs_server (as_sys (ab_client b))) then 0 else - EINVAL) \<and>
    (rc = - EINVAL \<or> rc = 0 \<and> (\<exists>wrv fls rdv b2 b3 b4. bdrv_co_writev drv = Some wrv \<and> bdrv_co_flush_to_disk drv = Some fls \<and>
       bdrv_co_readv drv = Some rdv \<and> wrv sector nb wiov b1 = (Ret 0, b2) \<and> fls b2 = (Ret 0, b3) \<and> rdv sector nb riov b3 = (Ret 0, b4) \<and>
       as_guest (ab_client b4) = store_at (take (xfer_size bss nb) (iov_addrs riov)) (\<lambda>i. as_guest (ab_client b1) (iov_addrs wiov ! i)) 0
         (as_guest (ab_client b1))))"
proof -
  let ?P = "server_run n M (IOHandler M)" and ?R = "round_robin k M (IOHandler M)"
  let ?d = "opened_disk (os (sv_world (cs_server (as_sys (ab_client b))))) nm"
  from parse_named_image [OF assms(2,3), of dict] obtain opts where
    opts: "async_parse_filename uri_parse Q filename dict = (Ret False, opts)" "qdict_get_try_str Q opts ''export'' = Some nm"
    by (auto simp: async_names_sync)
  have found: "async_bdrv_cvbd_init bdrv_register drv reg = (Ret (), bdrv_register drv reg)" "bdrv_find_protocol (bdrv_register drv reg) ''cvbd'' = Some drv"
    using assms(1) by (simp_all add: async_bdrv_cvbd_init_def modify_run registry_law_def assms(16) async_bdrv_cvbd_def)
  have use: "\<exists>b2 b3 b4. on_async (cvbd_co_writev M ?P ?R stray_acb bss sector nb wiov) b1 = (Ret 0, b2) \<and>
      on_async (cvbd_co_flush_to_disk M ?P ?R stray_acb) b2 = (Ret 0, b3) \<and>
      on_async (cvbd_co_readv M ?P ?R stray_acb bss sector nb riov) b3 = (Ret 0, b4) \<and>
      as_guest (ab_client b4) = store_at (take (xfer_size bss nb) (iov_addrs riov)) (\<lambda>i. as_guest (ab_client b1) (iov_addrs wiov ! i)) 0
         (as_guest (ab_client b1))"
    if con: "async_connected ioh_volume M n (ab_client b1) ?d" and nx: "as_next (ab_client b1) + 3 \<le> 2 ^ 64" for b1
  proof -
    let ?xs = "[Co_write sector nb wiov, Co_flush, Co_read sector nb riov]" and ?g = "as_guest (ab_client b1)"
    let ?d' = "disk_write ?d (xfer_start bss sector) (gathered wiov ?g) 0 (xfer_size bss nb)"
    have size: "d_size ?d = 2 ^ 34" by (simp add: opened_disk_def)
    have hold: "co_holds ioh_volume (M, n, k, stray_acb) (length ?xs + 0) (ab_client b1) ?d ?g"
      using con nx assms(15) by (simp add: co_holds_def numeral_3_eq_3)
    have inside: "\<forall>x \<in> set ?xs. co_op_inside bss (d_size ?d) x" using assms(13,14) size by simp
    from ioh.coro.run_co_ops_refines [OF hold inside] obtain s' where
      run: "run_co_ops (cvbd_co_readv M ?P ?R stray_acb) (cvbd_co_writev M ?P ?R stray_acb) (cvbd_co_flush_to_disk M ?P ?R stray_acb) bss ?xs (ab_client b1) =
        (Ret [0, 0, 0], s')" "as_guest s' = scattered riov (xfer_size bss nb) ?d' (xfer_start bss sector) ?g"
      by (auto simp: co_holds_def)
    have "scattered riov (xfer_size bss nb) ?d' (xfer_start bss sector) ?g = store_at (take (xfer_size bss nb) (iov_addrs riov)) (\<lambda>i. ?g (iov_addrs wiov ! i)) 0 ?g"
      unfolding scattered_def by (rule store_at_cong) (simp add: disk_write_def gathered_def mem_simps)
    with run show ?thesis
      by (auto simp: on_async_def cbind_run zoom_run ret_run split: prod.splits outcome.splits)
  qed
  have "0 < k" using assms(15) by (simp add: size_defs)
  from async_open_runs [OF assms(5,6,4,7) opts(2) assms(8-10,12) this, of v opts]
  obtain rc b1 where "async_open M Q ?P (\<lambda>s. s) ?R stray v opts opts b = (Ret (rc, async_config Q opts), b1)"
    "rc = (if gets_reply_queue M nm (cs_server (as_sys (ab_client b))) then 0 else - EINVAL)"
    "rc = - EINVAL \<or> rc = 0 \<and> async_connected ioh_volume M n (ab_client b1) ?d \<and> as_next (ab_client b1) = as_next (ab_client b)" by blast
  then show ?thesis using found opts(1) use [of b1] assms(11) by (auto simp: assms(16) async_bdrv_cvbd_def)
qed

theorem registered_async_session_witness:
  "\<exists>reg' opts rc b1. async_bdrv_cvbd_init (#) (async_bdrv_cvbd fifo_mq sample_qdict sample_uri (server_run 32 fifo_mq (IOHandler fifo_mq)) (\<lambda>s. s)
      (round_robin 32 fifo_mq (IOHandler fifo_mq)) (round_robin 32 fifo_mq (IOHandler fifo_mq)) (\<lambda>_. 0) 0 sample_acb None 512) [] = (Ret (), reg') \<and>
    bdrv_parse_filename (the (sample_find reg' ''cvbd'')) ''cvbd://h//vol'' Map.empty = (Ret False, opts) \<and>
    bdrv_file_open (the (sample_find reg' ''cvbd'')) opts opts sample_idle_abds = (Ret (rc, async_config sample_qdict opts), b1) \<and> rc = 0 \<and>
    (\<exists>wrv b2. bdrv_co_writev (the (sample_find reg' ''cvbd'')) = Some wrv \<and> wrv 8 8 sample_iov b1 = (Ret 0, b2))"
proof -
  have b: "idle_server fifo_mq (cs_server (as_sys (ab_client sample_idle_abds)))" "max_queue_size \<le> 32"
    "as_main (ab_client sample_idle_abds) = Running" "as_bhs (ab_client sample_idle_abds) = []" "0 < as_next (ab_client sample_idle_abds)"
    "as_next (ab_client sample_idle_abds) + 3 \<le> 2 ^ 64"
    "\<forall>k. as_next (ab_client sample_idle_abds) \<le> k \<longrightarrow> k < 2 ^ 64 \<longrightarrow> as_acbs (ab_client sample_idle_abds) (word_of_nat k) = None"
    using sample_idle_server by (simp_all add: sample_idle_abds_def sample_asys_def size_defs)
  have x: "co_inside 512 8 8 (2 ^ 34)" "xfer_size 512 8 \<le> iov_size sample_iov"
    using sample_co_inside by (simp_all add: sample_disk_def sample_iov_size)
  from registered_async_session [OF sample_registry_law sample_qdict_laws(1) sample_names_image sample_good_name b(1,2) _ b(3-7) x b(2) refl,
      of "\<lambda>_. 0" 0 sample_acb None "[]" Map.empty sample_iov] sample_gets_reply_queue
  show ?thesis by (fastforce simp: EINVAL_def sample_idle_abds_def)
qed

end
