(* ===== verification/Spec2Isabelle.thy ===== *)
theory Spec2Isabelle
  imports Async_Session Server_Lifecycle Reopen_Session Pipeline_Properties Driver_Sessions
begin

text \<open>
  A QEMU block device whose contents live in another process. The block drivers run inside QEMU
  and turn requests of the guest into calls of a client object; the client puts request messages
  into a Boost interprocess message queue; the server program takes them out, does the file I/O
  and answers on a queue the client made for the replies. There are two drivers with a client
  each: one blocks until a request is answered, the other suspends a coroutine and lets a second
  thread receive the replies.

  \<^bold>\<open>The theories and the code.\<close>
  \<^item> \<open>Cvbd_Prelude\<close>: machine words, byte buffers with \<open>memcpy\<close> and little-endian fields, C strings,
    and commands: functions from a state to an outcome and a state. The outcomes are a value, an
    exception, a failed \<open>assert\<close>, undefined behaviour and a call that never returns, so that each of
    these is a value the theorems can speak about.
  \<^item> \<open>Wire_Format\<close>: \<open>src/SharedMemShared.h\<close>, the request and reply structs as byte buffers with their
    x86-64 layout. \<open>Non_Aligned_Copy\<close>: \<open>src/NonAlignedCopy.h\<close>, with every intermediate result checked
    against the range of \<open>ssize_t\<close>.
  \<^item> \<open>Message_Queue\<close>: Boost's \<open>message_queue\<close> as a parameter \<open>M\<close> (a record of operations) with its
    documented behaviour as \<open>mq_laws\<close>, and a list implementation \<open>fifo_mq\<close> for which they are proved;
    the witnesses use it. \<open>Posix_Files\<close>: the file calls of the server, over files and descriptors and
    a script of the results the system gives. \<open>Disk_Spec\<close>: the specification, a byte array.
  \<^item> \<open>Io_Handler\<close>, \<open>Volume_Properties\<close>: \<open>src/server.c\<close>, the operations of \<open>IOHandler\<close> over a heap of
    volume objects. \<open>Shm_Server\<close>, \<open>Server_Lifecycle\<close>: \<open>src/SharedMemServer.h\<close> and \<open>main\<close>, the constructor,
    the request loop and the destructor. The locale \<open>storage_handler\<close> is what the loop relies on; it
    is interpreted on \<open>IOHandler\<close> as \<open>ioh\<close>. \<open>Many_Volumes\<close>: several volumes and clients at a time; the
    locale \<open>volume_view\<close> says what the operations on a volume leave alone and yields \<open>storage_handler\<close>
    again, interpreted for a volume with others beside it (\<open>beside\<close>). \<open>Reopen_Session\<close>: the end of a
    session and the next one, by another view (\<open>kept\<close>).
  \<^item> \<open>Shm_Client_Sync\<close>, \<open>Open_Session\<close>: \<open>src/SharedMemClient.cpp\<close> and the class of
    \<open>src/SharedMemClient.h\<close>. The locale \<open>block_store\<close> is what the driver relies on; it holds of the
    client over every \<open>storage_handler\<close> (a \<open>sublocale\<close>). \<open>Cvbd_Sync\<close>: \<open>src/cvbd_syncio.c\<close>.
  \<^item> \<open>Io_Vectors\<close>, \<open>Shm_Client_Async\<close>: \<open>src/SharedMemClientASync.cpp\<close>. \<open>Cvbd_Async\<close>: \<open>src/cvbd.c\<close>, with the
    turns of the server, the reply thread and the main loop as the step relation \<open>async_step\<close>.
    \<open>Async_Runs\<close> (the phases of a request, an invariant of all interleavings), \<open>Async_Requests\<close> (reads,
    writes, flushes; the locale \<open>coroutine_store\<close>), \<open>Async_Properties\<close>, \<open>Async_Session\<close> (open, length,
    close; the locale \<open>signalled_reply\<close>, interpreted for the open and the size query).
  \<^item> \<open>Pipe_Queues\<close>, \<open>Async_Pipeline\<close>, \<open>Pipeline_Properties\<close>: several requests of \<open>src/cvbd.c\<close> at a time. The
    first relates the two queues to the list of requests that wait for a reply; the second is the
    process as a machine over events (QEMU starts a request; the server, the reply thread or the
    main loop takes a turn); the third has the invariant of all event sequences.
  \<^item> \<open>Driver_Sessions\<close>: both drivers through the tables \<open>bdrv_cvbd\<close> that QEMU calls them by.
  \<^item> This theory: the drivers, the clients and the server together.

  \<^bold>\<open>How state and operations correspond.\<close> A struct or class is a record with one field per member:
  \<open>client\<close>, \<open>VolumeState\<close>, \<open>NonAlignedCopy\<close>, \<open>bds\<close> and \<open>abds\<close> (the drivers' states). A function of
  the code is a definition with its name, or with a prefix where two files have the same function:
  \<open>ioh_\<close> for the handler, \<open>async_\<close> for the asynchronous client and driver. The server process is a
  record \<open>server\<close> of queues, threads and the \<open>world\<close> (Boost, files, heap); \<open>csys\<close> is a client process
  with the server behind it and \<open>asys\<close> adds the guest's memory, the control blocks, the bottom
  halves, the reply thread and the main loop.

  \<^bold>\<open>Concurrency.\<close> A blocking call that cannot go on lets the other side run (\<open>peer\<close>) and then tries
  again; a call that still cannot go on has the outcome \<open>Hang\<close>. What runs while a coroutine is
  suspended, or between two calls, is a parameter; the theorems on the asynchronous driver hold
  for every \<open>interleaving\<close>, a schedule made of any number of turns in any order. A turn handles one
  message or one bottom half as a whole. Each coroutine is split at its yield (\<open>co_rw_start\<close>,
  \<open>co_flush_start\<close>, \<open>co_finish\<close>), so that \<open>run_pipe\<close> can start requests while others are suspended. It is
  \<open>paced\<close> when a read or flush starts only with fewer than 32 of them unanswered: the reply queue
  then never fills, and the server never waits for the reply thread.

  \<^bold>\<open>Bounds and fuel.\<close> The loops of the server and of the reply thread take the number of turns they
  are given; an empty queue ends the run with the thread still running. Queues hold at most 32
  messages (\<open>max_queue_size\<close>), so 32 turns empty one: the theorems that a call returns assume no
  more than that. The loop of the synchronous driver takes at most one turn per byte; its fuel is
  a number larger than the transfer. What is left to do after \<open>m\<close> requests have started is bounded by
  two full queues and \<open>m\<close> bottom halves, so \<open>160 + m\<close> rounds end them all. Addresses of control blocks and volumes are handed out in
  order and run out at \<open>2 ^ 64\<close>.

  \<^bold>\<open>Side conditions.\<close> That a volume is open (\<open>ioh_volume\<close>, and with it \<open>connected\<close>, \<open>async_connected\<close> and
  \<open>ioh_volumes\<close>) includes that the script of system results is empty: no system call fails from then
  on. The theorems on failing calls say so. Behaviour that C++ leaves undefined is the outcome \<open>Undef\<close>.
  Two reads past an object, the stop requests of both destructors, depend on the machine: their
  parameter \<open>behind\<close> is \<open>None\<close> where they are undefined, and the bytes found where they are let
  through; the theorems on the destructors speak of both. QEMU's bottom halves are a list that the main loop takes
  from the front, control blocks, volumes and descriptors get numbers that were never used before;
  the results are stated so that they do not depend on these choices. The request counter wraps.

  \<^bold>\<open>What is shown.\<close> Both drivers refine the byte array: any sequence of requests inside the disk
  returns and leaves what it does on the array, from a session's start on, although writes are
  acknowledged when they are only queued; for the asynchronous driver a single request does so
  under every interleaving, a flush is a barrier, and any number of requests at a time have the
  effect of the same requests one after another, in the order of their starts, and all end. While
  they are in flight, every message is well-formed and every pointer to a control block that
  passes through the queues is live and unique. From the registration of the drivers' tables
  and an image name on, what is written is read back. The piece iterator terminates and partitions
  a transfer; the vector copies are copies over flat address lists. Clients of different volumes do
  not disturb each other: each sees the effect of its own requests. What was acknowledged is in the
  file after 32 turns of the server, and what one session wrote the next one reads. The server keeps the
  invariant between volumes and descriptors for arbitrary messages. The remaining theorems fix
  the behaviour on errors, including where the code hangs, aborts or uses freed memory: a failed
  creation is never answered, the wake-up of an open can be lost, the length query does not wait,
  and closing leaves a thread on freed memory.

  \<^bold>\<open>Not modelled.\<close> \<open>close (vdiskid_t &)\<close> of \<open>src/server.c\<close>, which uses undeclared members; log output; \<open>cvbd.h\<close>, which is not in the repository: only the members of its
  control block that the code uses appear. QEMU's URI parser, dictionaries, options and registry of
  drivers are parameters, as is Boost. More than 32 unanswered requests, where the server waits for
  room in the reply queue, and two clients of one volume, whose reply queues have the same name, are not
  covered by the theorems.
\<close>

section \<open>The driver, the client and the server together\<close>

text \<open>What the server does while the client waits, for \<open>n\<close> turns of its loop.\<close>

abbreviation io_server :: "nat \<Rightarrow> 'b boost_mq \<Rightarrow> 'b server \<Rightarrow> 'b server" where
  "io_server n M \<equiv> server_run n M (IOHandler M)"

text \<open>C1. Any sequence of reads, writes and length queries that stay inside the disk, issued through the
  driver, the client, the queues and the server to the file, returns what the same sequence
  returns on a plain byte array, and leaves the same contents. Writes that are still in the
  queue when they return make no difference.\<close>

theorem driver_sequence_refines_disk:
  fixes M :: "'b boost_mq"
  assumes "connected ioh_volume M n s d" "\<forall>x \<in> set xs. op_inside bss fuel (d_size d) x"
  shows "\<exists>s'. run_ops fuel (shared_mem_read M (io_server n M)) (shared_mem_write M (io_server n M))
      (getsize_volume M (io_server n M)) bss xs s = (Ret (fst (disk_ops bss d xs)), s') \<and>
    connected ioh_volume M n s' (snd (disk_ops bss d xs))"
  using ioh.store.run_ops_refines [of "(M, n)" s d xs bss fuel] assms by simp

lemma sample_inside:
  "op_inside 512 9000 (d_size sample_disk) (Op_write 8 (\<lambda>_. 7) 16)" "op_inside 512 9000 (d_size sample_disk) (Op_read 8 (\<lambda>_. 0) 8)"
  by (simp_all add: xfer_inside_def xfer_start_def xfer_size_def sample_disk_def)

theorem driver_sequence_refines_disk_witness:
  "\<exists>s'. run_ops 9000 (shared_mem_read fifo_mq (io_server 32 fifo_mq)) (shared_mem_write fifo_mq (io_server 32 fifo_mq))
      (getsize_volume fifo_mq (io_server 32 fifo_mq)) 512 [Op_write 8 (\<lambda>_. 7) 16, Op_read 8 (\<lambda>_. 0) 8] sample_csys =
    (Ret (fst (disk_ops 512 sample_disk [Op_write 8 (\<lambda>_. 7) 16, Op_read 8 (\<lambda>_. 0) 8])), s')"
  using driver_sequence_refines_disk [OF sample_connected, of "[Op_write 8 (\<lambda>_. 7) 16, Op_read 8 (\<lambda>_. 0) 8]" 512 9000]
    sample_inside by auto

text \<open>C22. A client works on its volume only: while any sequence of requests runs through the driver, every
  other volume of the server, if it is backed by another file, keeps its disk.\<close>

theorem session_leaves_other_volumes:
  fixes M :: "'b boost_mq"
  assumes "connected ioh_volume M n s d" "cs_client s = Some c" "\<forall>x \<in> set xs. op_inside bss fuel (d_size d) x"
    and "\<forall>(u, p, e) \<in> F. ioh_volume M (sv_world (cs_server s)) u p e \<and>
      volume_file (sv_world (cs_server s)) u \<noteq> volume_file (sv_world (cs_server s)) (cl_volume c)"
  shows "\<exists>s'. run_ops fuel (shared_mem_read M (io_server n M)) (shared_mem_write M (io_server n M))
      (getsize_volume M (io_server n M)) bss xs s = (Ret (fst (disk_ops bss d xs)), s') \<and>
    connected ioh_volume M n s' (snd (disk_ops bss d xs)) \<and>
    (\<forall>(u, p, e) \<in> F. ioh_volume M (sv_world (cs_server s')) u p e)"
proof -
  let ?at = "volume_file (sv_world (cs_server s))"
  from beside.store.run_ops_refines [of ?at F "(M, n)" s d xs bss fuel] connected_beside [OF assms(1,2,4)] assms(3) obtain s' where
    s': "run_ops fuel (shared_mem_read M (io_server n M)) (shared_mem_write M (io_server n M))
      (getsize_volume M (io_server n M)) bss xs s = (Ret (fst (disk_ops bss d xs)), s')"
      "connected (ioh_beside ?at F) M n s' (snd (disk_ops bss d xs))" by auto
  with connected_besideD [OF s'(2)] show ?thesis by blast
qed

text \<open>The sample client, with a second volume open at the server.\<close>

definition sample_pair_csys :: "fifo csys" where
  "sample_pair_csys = sample_csys\<lparr>cs_server := \<lparr>sv_request_mqs = [Some 0], sv_threads = [sample_thread], sv_world = sample_pair\<rparr>\<rparr>"

lemma sample_pair_connected: "connected ioh_volume fifo_mq 32 sample_pair_csys sample_disk"
  unfolding connected_def client_rel_def
  by (intro exI [of _ sample_client] conjI exI [of _ sample_thread] exI [of _ sample_pair] exI [of _ sample_disk] exI [of _ "[]"])
    (simp_all add: sample_pair_csys_def sample_csys_def sample_client_def sample_thread_def serving_def sample_pair_volumes size_defs,
     simp_all add: sample_pair_def sample_mq size_defs)

theorem session_leaves_other_volumes_witness:
  "\<exists>s'. run_ops 9000 (shared_mem_read fifo_mq (io_server 32 fifo_mq)) (shared_mem_write fifo_mq (io_server 32 fifo_mq))
      (getsize_volume fifo_mq (io_server 32 fifo_mq)) 512 [Op_write 8 (\<lambda>_. 7) 16, Op_read 8 (\<lambda>_. 0) 8] sample_pair_csys =
    (Ret (fst (disk_ops 512 sample_disk [Op_write 8 (\<lambda>_. 7) 16, Op_read 8 (\<lambda>_. 0) 8])), s') \<and>
    ioh_volume fifo_mq (sv_world (cs_server s')) 2 2 sample_disk"
proof -
  have "cs_client sample_pair_csys = Some sample_client" by (simp add: sample_pair_csys_def sample_csys_def)
  from session_leaves_other_volumes [OF sample_pair_connected this, of "[Op_write 8 (\<lambda>_. 7) 16, Op_read 8 (\<lambda>_. 0) 8]" 512 9000
      "{(2, 2, sample_disk)}"] sample_inside sample_pair_volumes
  show ?thesis by (auto simp: sample_pair_csys_def sample_client_def)
qed

text \<open>C2. A session from its start: opening an image on a server that waits for requests reports
  \<open>-EINVAL\<close> exactly if Boost does not give the client its reply queue; otherwise it succeeds, and then every sequence of requests is answered from the contents of the
  volume's file, 16 GiB long.\<close>

theorem opened_image_is_a_disk:
  fixes M :: "'b boost_mq" and b :: "'b bds"
  assumes "idle_server M (cs_server (bs_client b))" "max_queue_size \<le> n" "good_name nm"
    and "\<forall>i \<ge> volume_name_at. stray i = 0"
    and "qdict_get_try_str Q options ''export'' = Some nm"
    and "d = opened_disk (os (sv_world (cs_server (bs_client b)))) nm" "\<forall>x \<in> set xs. op_inside bss fuel (2 ^ 34) x"
  shows "\<exists>r b'. cvbd_open M Q (io_server n M) stray v options dict b = (Ret (r, cvbd_config Q dict), b') \<and>
    r = (if gets_reply_queue M nm (cs_server (bs_client b)) then 0 else - EINVAL) \<and>
    (r = - EINVAL \<or> r = 0 \<and> bs_request_alignment b' = CVBD_BLKSIZE \<and>
       (\<exists>s'. run_ops fuel (shared_mem_read M (io_server n M)) (shared_mem_write M (io_server n M))
          (getsize_volume M (io_server n M)) bss xs (bs_client b') = (Ret (fst (disk_ops bss d xs)), s') \<and>
          connected ioh_volume M n s' (snd (disk_ops bss d xs))))"
proof -
  have size: "d_size d = 2 ^ 34" by (simp add: assms(6) opened_disk_def)
  from cvbd_open_connects [OF assms(1-5), of v dict] show ?thesis
  proof (elim disjE exE conjE, goal_cases)
    case (2 b')
    from ioh.store.run_ops_refines [of "(M, n)" "bs_client b'" d xs bss fuel] 2 assms(6,7) size show ?thesis by auto
  qed auto
qed

definition sample_idle :: "fifo bds" where
  "sample_idle = sample_bds\<lparr>bs_client := sample_idle_csys\<rparr>"

theorem opened_image_is_a_disk_witness:
  "\<exists>r b'. cvbd_open fifo_mq sample_qdict (io_server 32 fifo_mq) (\<lambda>_. 0) 0 [''export'' \<mapsto> ''vol''] Map.empty sample_idle =
     (Ret (r, Map.empty), b') \<and> r = 0 \<and>
     (\<exists>s'. run_ops 9000 (shared_mem_read fifo_mq (io_server 32 fifo_mq)) (shared_mem_write fifo_mq (io_server 32 fifo_mq))
        (getsize_volume fifo_mq (io_server 32 fifo_mq)) 512 [Op_getlength, Op_write 8 (\<lambda>_. 7) 16] (bs_client b') = (Ret [Ans_length (2 ^ 34), Ans_write 0], s'))"
proof -
  have opt: "qdict_get_try_str sample_qdict [''export'' \<mapsto> ''vol''] ''export'' = Some ''vol''" by (simp add: sample_qdict_def)
  have "cvbd_config sample_qdict Map.empty = Map.empty" by (simp add: cvbd_config_def sample_qdict_def)
  moreover have "idle_server fifo_mq (cs_server (bs_client sample_idle))" using sample_idle_server by (simp add: sample_idle_def)
  ultimately show ?thesis
    using opened_image_is_a_disk [OF _ _ sample_good_name _ opt refl, of fifo_mq sample_idle 32 "\<lambda>_. 0" "[Op_getlength, Op_write 8 (\<lambda>_. 7) 16]" 512 9000 0 Map.empty]
      sample_gets_reply_queue sample_inside(1)
    by (auto simp: size_defs EINVAL_def sample_disk_def opened_disk_def is_request_aligned_def sector_bytes_def CVBD_BLKSIZE_def)
qed

text \<open>C3. What is written through the driver is read back through it: an aligned write of any length
  inside the disk followed by a read of the same sectors returns the bytes of the written buffer,
  however many messages either takes; bytes of the reader's buffer past the transfer are kept.\<close>

theorem driver_read_after_write:
  fixes M :: "'b boost_mq"
  assumes "connected ioh_volume M n s d" "xfer_inside bss sector nb (d_size d)" "is_request_aligned bss sector nb"
    and "xfer_size bss nb < fuel"
  shows "\<exists>s1 s2. cvbd_write fuel (shared_mem_write M (io_server n M)) bss sector buf nb s = (Ret 0, s1) \<and>
    cvbd_read fuel (shared_mem_read M (io_server n M)) bss sector buf' nb s1 =
      (Ret (0, memcpy buf' 0 buf 0 (xfer_size bss nb)), s2)"
proof -
  from ioh.store.cvbd_write_refines [of "(M, n)" s d bss sector nb fuel buf] assms obtain s1 where
    one: "cvbd_write fuel (shared_mem_write M (io_server n M)) bss sector buf nb s = (Ret 0, s1)"
      "connected ioh_volume M n s1 (disk_write d (xfer_start bss sector) buf 0 (xfer_size bss nb))" by auto
  from ioh.store.cvbd_read_refines [of "(M, n)" s1 "disk_write d (xfer_start bss sector) buf 0 (xfer_size bss nb)" bss sector nb fuel buf'] one(2) assms(2-4) obtain s2 where
    "cvbd_read fuel (shared_mem_read M (io_server n M)) bss sector buf' nb s1 =
      (Ret (0, disk_read (disk_write d (xfer_start bss sector) buf 0 (xfer_size bss nb)) (xfer_start bss sector) buf' 0 (xfer_size bss nb)), s2)"
    by auto
  with one(1) show ?thesis by (simp add: disk_read_write)
qed

theorem driver_read_after_write_witness:
  "\<exists>s1 s2. cvbd_write 600000 (shared_mem_write fifo_mq (io_server 32 fifo_mq)) 512 8 (\<lambda>_. 7) 1032 sample_csys = (Ret 0, s1) \<and>
    cvbd_read 600000 (shared_mem_read fifo_mq (io_server 32 fifo_mq)) 512 8 (\<lambda>_. 0) 1032 s1 =
      (Ret (0, memcpy (\<lambda>_. 0) 0 (\<lambda>_. 7) 0 528384), s2)"
proof -
  have "xfer_inside 512 8 1032 (d_size sample_disk)" "xfer_size 512 1032 = 528384" "is_request_aligned 512 8 1032"
    by (simp_all add: xfer_inside_def xfer_start_def xfer_size_def sample_disk_def is_request_aligned_def sector_bytes_def CVBD_BLKSIZE_def)
  with driver_read_after_write [OF sample_connected, of 512 8 1032 600000 "\<lambda>_. 7" "\<lambda>_. 0"] show ?thesis by simp
qed

text \<open>The length the driver reports is the size of the volume's file, and asking for it changes
  neither the volume nor the driver's connection.\<close>

lemma driver_length_is_disk_size:
  fixes M :: "'b boost_mq" and b :: "'b bds"
  assumes "connected ioh_volume M n (bs_client b) d" "d_size d < 2 ^ 63"
  shows "\<exists>b'. on_client (cvbd_getlength (getsize_volume M (io_server n M))) b = (Ret (int (d_size d)), b') \<and> connected ioh_volume M n (bs_client b') d"
proof -
  from ioh.store.run_op_refines [of "(M, n)" "bs_client b" d bss fuel Op_getlength] assms obtain s' where
    "run_op fuel (shared_mem_read M (io_server n M)) (shared_mem_write M (io_server n M)) (getsize_volume M (io_server n M)) bss
      Op_getlength (bs_client b) = (Ret (Ans_length (int (d_size d))), s')" "connected ioh_volume M n s' d" by auto
  then show ?thesis
    by (auto simp: cvbd_getlength_def on_client_def cbind_run zoom_run ret_run split: prod.splits outcome.splits)
qed

lemma driver_length_is_disk_size_witness:
  "\<exists>b'. on_client (cvbd_getlength (getsize_volume fifo_mq (io_server 32 fifo_mq))) sample_bds = (Ret (2 ^ 34), b')"
  using driver_length_is_disk_size [of fifo_mq 32 sample_bds sample_disk] sample_connected
  by (auto simp: sample_disk_def sample_bds_def)

text \<open>C31. A write is acknowledged before it is done: when the request queue has room, the client's write
  returns success at once, whatever the server does later; the request, with the client's handle,
  the offset, the size and the bytes of the caller's buffer, is only in the queue, and the server's
  files are untouched.\<close>

theorem write_acknowledged_before_stored:
  assumes "mq_laws M" "cs_client s = Some c" "unat size_in_bytes \<le> max_data_size"
    and "mq_limits M (cs_boost s) (cl_request_mq c) = (max_queue_size, request_size)" "\<not> mq_full M (cs_boost s) (cl_request_mq c)"
  shows "\<exists>s' m. shared_mem_write M peer buf at size_in_bytes offset s = (Ret True, s') \<and>
    mq_contents M (cs_boost s') (cl_request_mq c) = mq_contents M (cs_boost s) (cl_request_mq c) @ [mk_message m writerequest_size] \<and>
    get_header m = Header_make False REQ_WRITE (scast (cs_id s + 1)) (cl_volume c) 0 \<and> req_offset m = offset \<and>
    req_size m = size_in_bytes \<and> (\<forall>i < unat size_in_bytes. m (write_data_at + i) = buf (at + i)) \<and>
    os (sv_world (cs_server s')) = os (sv_world (cs_server s))"
proof -
  define c1 where "c1 = c\<lparr>cl_request_msg := memcpy (WriteRequest_init (put_header (cl_request_msg c)
    (Header_make False REQ_WRITE (scast (cs_id s + 1)) (cl_volume c) 0)) offset size_in_bytes) write_data_at buf at (unat size_in_bytes)\<rparr>"
  let ?s = "s\<lparr>cs_id := cs_id s + 1, cs_client := Some c1\<rparr>" and ?m = "mk_message (cl_request_msg c1) writerequest_size"
  have "msg_size ?m \<le> snd (mq_limits M (cs_boost s) (cl_request_mq c))" using assms(4) request_fits by simp
  from mq_sendE [OF assms(1) this assms(5)] obtain b where
    send: "mq_send M (cl_request_mq c) ?m 0 (cs_boost s) = (MQ_ok (), b)"
      "mq_changes M (cs_boost s) (cl_request_mq c) (mq_contents M (cs_boost s) (cl_request_mq c) @ [?m]) b" .
  have "send_request M peer writerequest_size ?s = (Ret (), set_boost b ?s)"
    using send(1) by (simp add: send_request_def cbind_run this_def c1_def wait_mq_now)
  then have "shared_mem_write M peer buf at size_in_bytes offset s = (Ret True, set_boost b ?s)"
    using assms(2,3)
    by (simp add: shared_mem_write_def send_write_def put_request_header_def set_request_msg_def this_def cmd_simps c1_def)
  moreover have "os (sv_world (cs_server (set_boost b ?s))) = os (sv_world (cs_server s))" by (simp add: set_boost_def)
  moreover have "get_header (cl_request_msg c1) = Header_make False REQ_WRITE (scast (cs_id s + 1)) (cl_volume c) 0"
    "req_offset (cl_request_msg c1) = offset" "req_size (cl_request_msg c1) = size_in_bytes"
    "\<forall>i < unat size_in_bytes. cl_request_msg c1 (write_data_at + i) = buf (at + i)"
    by (simp_all add: c1_def mem_simps size_defs)
  ultimately show ?thesis using send(2) by (intro exI [of _ "set_boost b ?s"] exI [of _ "cl_request_msg c1"]) (simp add: mq_changes_def)
qed

theorem write_acknowledged_before_stored_witness:
  "\<exists>s'. shared_mem_write fifo_mq (\<lambda>sv. sv) (\<lambda>_. 7) 0 4096 0 sample_csys = (Ret True, s') \<and> os (sv_world (cs_server s')) = sample_os"
proof -
  have "\<exists>s' m. shared_mem_write fifo_mq (\<lambda>sv. sv) (\<lambda>_. 7) 0 4096 0 sample_csys = (Ret True, s') \<and>
    mq_contents fifo_mq (cs_boost s') (cl_request_mq sample_client) =
      mq_contents fifo_mq (cs_boost sample_csys) (cl_request_mq sample_client) @ [mk_message m writerequest_size] \<and>
    get_header m = Header_make False REQ_WRITE (scast (cs_id sample_csys + 1)) (cl_volume sample_client) 0 \<and> req_offset m = 0 \<and>
    req_size m = 4096 \<and> (\<forall>i < unat (4096 :: u64). m (write_data_at + i) = (\<lambda>_. 7) (0 + i)) \<and>
    os (sv_world (cs_server s')) = os (sv_world (cs_server sample_csys))"
    by (rule write_acknowledged_before_stored [OF fifo_mq_laws])
      (simp_all add: sample_csys_def sample_client_def sample_mq size_defs mq_full_def)
  then show ?thesis by (auto simp: sample_csys_def)
qed

text \<open>C36. A write that was acknowledged gets stored: within 32 turns of its loop the server has taken the
  request, and everything before it, out of the queue, and the bytes of the caller's buffer are in
  the volume's file at the offset the caller gave. No system call fails meanwhile.\<close>

theorem acknowledged_write_gets_stored:
  fixes M :: "'b boost_mq"
  assumes "connected ioh_volume M n s d" "cs_client s = Some c" "unat size_in_bytes \<le> max_data_size"
    and "0 \<le> sint offset" "nat (sint offset) + unat size_in_bytes \<le> d_size d"
  shows "\<exists>s' sv path f. shared_mem_write M (io_server n M) buf at size_in_bytes offset s = (Ret True, s') \<and>
    io_server n M (cs_server s') = sv \<and> mq_contents M (boost (sv_world sv)) (cl_request_mq c) = [] \<and>
    volume_file (sv_world sv) (cl_volume c) = Some path \<and> os_files (os (sv_world sv)) path = Some f \<and> file_size f = d_size d \<and>
    (\<forall>i < d_size d. file_data f i =
       (if nat (sint offset) \<le> i \<and> i < nat (sint offset) + unat size_in_bytes then buf (at + (i - nat (sint offset))) else d_bytes d i))"
proof -
  let ?d = "disk_write d (nat (sint offset)) buf at (unat size_in_bytes)"
  from assms(1) obtain c0 where c0: "client_rel ioh_volume M n s c0 d []" by (auto simp: connected_def)
  then have "cs_client s = Some c0" by (rule client_relE)
  with c0 assms(2) have "client_rel ioh_volume M n s c d []" by simp
  from ioh.send_write_refines [OF this assms(3-5), of buf at] obtain s' c' where
    s': "shared_mem_write M (io_server n M) buf at size_in_bytes offset s = (Ret True, s')" "client_rel ioh_volume M n s' c' ?d []"
      "cl_request_mq c' = cl_request_mq c" "cl_volume c' = cl_volume c"
    by (auto simp: shared_mem_write_def catch_all_run cbind_run ret_run)
  obtain t w where run: "io_server n M (cs_server s') = \<lparr>sv_request_mqs = [Some (cl_request_mq c')], sv_threads = [t], sv_world = w\<rparr>"
    and stored: "serving ioh_volume M (cl_request_mq c') (cl_volume c') (cl_reply_mq c') t w ?d"
      "mq_changes M (cs_boost s') (cl_request_mq c') [] (boost w)"
    by (rule ioh.server_drains [OF s'(2)])
  then have w: "sv_world (io_server n M (cs_server s')) = w" "ioh_volume M w (cl_volume c) (cl_reply_mq c') ?d"
    "mq_contents M (boost w) (cl_request_mq c) = []"
    using s'(3,4) by (simp_all add: serving_def mq_changes_def)
  from w(2) obtain vs path f where f: "heap w (cl_volume c) = Some vs" "fd_file (os w) (vs_fd vs) = Some (path, f)"
    "?d = \<lparr>d_size = file_size f, d_bytes = file_bytes f\<rparr>" by (rule ioh_volumeE)
  have "file_size f = d_size d" "file_bytes f = memcpy (d_bytes d) (nat (sint offset)) buf at (unat size_in_bytes)"
    using arg_cong [OF f(3), of d_size] arg_cong [OF f(3), of d_bytes] by (simp_all add: disk_write_def)
  then have "file_data f i = memcpy (d_bytes d) (nat (sint offset)) buf at (unat size_in_bytes) i" if "i < d_size d" for i
    using that by (simp add: file_bytes_def fun_eq_iff) (metis)
  moreover have "volume_file w (cl_volume c) = Some path" "os_files (os w) path = Some f"
    using f(1,2) by (auto simp: volume_file_def fd_file_iff)
  ultimately show ?thesis using s'(1) w \<open>file_size f = d_size d\<close> by (auto simp: memcpy_def)
qed

theorem acknowledged_write_gets_stored_witness:
  "\<exists>s' path f. shared_mem_write fifo_mq (io_server 32 fifo_mq) (\<lambda>_. 7) 0 4096 0 sample_csys = (Ret True, s') \<and>
    os_files (os (sv_world (io_server 32 fifo_mq (cs_server s')))) path = Some f \<and> file_data f 4095 = 7 \<and> file_data f 4096 = 0"
proof -
  have c: "cs_client sample_csys = Some sample_client" by (simp add: sample_csys_def)
  have r: "unat (4096 :: u64) \<le> max_data_size" "0 \<le> sint (0 :: u64)" "nat (sint (0 :: u64)) + unat (4096 :: u64) \<le> d_size sample_disk"
    "4095 < d_size sample_disk" "4096 < d_size sample_disk" "d_bytes sample_disk 4096 = 0"
    by (simp_all add: size_defs sample_disk_def)
  from acknowledged_write_gets_stored [OF sample_connected c r(1-3), of "\<lambda>_. 7" 0] obtain s' path f where
    s': "shared_mem_write fifo_mq (io_server 32 fifo_mq) (\<lambda>_. 7) 0 4096 0 sample_csys = (Ret True, s')"
      "os_files (os (sv_world (io_server 32 fifo_mq (cs_server s')))) path = Some f"
    and f: "\<forall>i < d_size sample_disk. file_data f i =
      (if nat (sint (0 :: u64)) \<le> i \<and> i < nat (sint (0 :: u64)) + unat (4096 :: u64) then 7 else d_bytes sample_disk i)" by blast
  from f r(4-6) have "file_data f 4095 = 7" "file_data f 4096 = 0" by simp_all
  with s' show ?thesis by blast
qed

text \<open>A transfer larger than a message can hold fails the client's assertion before anything is sent,
  and the client's counter has not moved.\<close>

lemma oversized_transfer_aborts:
  assumes "max_data_size < unat size_in_bytes"
  shows "shared_mem_write M peer buf at size_in_bytes offset s = (Fail Abort, s) \<and>
    shared_mem_read M peer buf at size_in_bytes offset s = (Fail Abort, s)"
  using assms by (simp add: shared_mem_write_def shared_mem_read_def send_write_def send_read_def cmd_simps)

lemma oversized_transfer_aborts_witness:
  "shared_mem_write fifo_mq (\<lambda>sv. sv) (\<lambda>_. 0) 0 524289 0 sample_csys = (Fail Abort, sample_csys)"
  using oversized_transfer_aborts [of 524289 fifo_mq "\<lambda>sv. sv" "\<lambda>_. 0" 0 0 sample_csys] by (simp add: size_defs)

end
